(* ===== verification/Prelude.thy ===== *)
theory Prelude imports Main "HOL-Library.Word" begin

text \<open>
  Shared vocabulary of the development: bytes and machine integers at their Rust widths, the
  result of a Rust call (a value, an error value, or a panic), checked slicing and indexing, the
  big-endian and little-endian readings of byte slices, and the lemmas about them that every
  component uses.

  A Rust \<open>String\<close> or \<open>&str\<close> is a \<^typ>\<open>string\<close>, one \<^typ>\<open>char\<close> per UTF-8 byte, so that
  \<open>length\<close> is Rust's byte length.  A \<open>usize\<close> is a \<^typ>\<open>nat\<close>: every offset computed in the modelled
  code is the length of a slice or a 32-bit length plus a small constant, which a 64-bit \<open>usize\<close>
  holds without wrapping; the one narrowing cast (\<open>as u16\<close>) is written out where it happens.
\<close>

unbundle bit_operations_syntax

subsection \<open>Machine integers and bytes\<close>

type_synonym byte = "8 word"
type_synonym u16 = "16 word"
type_synonym u32 = "32 word"
type_synonym u64 = "64 word"
type_synonym i32 = "32 word"
type_synonym i64 = "64 word"

definition char_of_byte :: "byte \<Rightarrow> char" where
  "char_of_byte b = char_of (unat b)"

definition byte_of_char :: "char \<Rightarrow> byte" where
  "byte_of_char c = word_of_nat (of_char c)"

definition str_of_bytes :: "byte list \<Rightarrow> string" where
  "str_of_bytes bs = map char_of_byte bs"

definition bytes_of_str :: "string \<Rightarrow> byte list" where
  "bytes_of_str s = map byte_of_char s"

lemma char_of_byte_of_char [simp]: "char_of_byte (byte_of_char c) = c"
proof -
  have "(of_char c :: nat) < 256" by simp
  then show ?thesis
    by (simp add: char_of_byte_def byte_of_char_def unat_of_nat)
qed

lemma byte_of_char_of_byte [simp]: "byte_of_char (char_of_byte b) = b"
proof -
  have "unat b < 256" using unsigned_less [of b, where ?'a = nat] by simp
  then show ?thesis
    by (simp add: char_of_byte_def byte_of_char_def)
qed

lemma str_of_bytes_of_str [simp]: "str_of_bytes (bytes_of_str s) = s"
  by (simp add: str_of_bytes_def bytes_of_str_def comp_def)

lemma bytes_of_str_of_bytes [simp]: "bytes_of_str (str_of_bytes bs) = bs"
  by (simp add: str_of_bytes_def bytes_of_str_def comp_def)

lemma length_str_of_bytes [simp]: "length (str_of_bytes bs) = length bs"
  by (simp add: str_of_bytes_def)

lemma length_bytes_of_str [simp]: "length (bytes_of_str s) = length s"
  by (simp add: bytes_of_str_def)

lemma bytes_of_str_append [simp]: "bytes_of_str (s @ t) = bytes_of_str s @ bytes_of_str t"
  by (simp add: bytes_of_str_def)

lemma bytes_of_str_Nil [simp]: "bytes_of_str [] = []"
  by (simp add: bytes_of_str_def)

lemma unat_byte_less [simp]: "unat (b :: byte) < 256"
  using unsigned_less [of b, where ?'a = nat] by simp

subsection \<open>Results of Rust calls\<close>

text \<open>
  \<open>Result<T, E>\<close> with a third outcome: the thread panics (a slice or index out of range, a missing
  key of an indexed map, an overflow in a build with overflow checks).  \<open>and_then\<close> is sequencing
  with the \<open>?\<close> operator: an error or a panic ends the function.
\<close>

datatype ('e, 'a) outcome = Ok 'a | Err 'e | Panic

fun and_then :: "('e, 'a) outcome \<Rightarrow> ('a \<Rightarrow> ('e, 'b) outcome) \<Rightarrow> ('e, 'b) outcome" where
  "and_then (Ok x) f = f x"
| "and_then (Err e) f = Err e"
| "and_then Panic f = Panic"

definition is_panic :: "('e, 'a) outcome \<Rightarrow> bool" where
  "is_panic r = (case r of Panic \<Rightarrow> True | _ \<Rightarrow> False)"

fun ok_or :: "'e \<Rightarrow> 'a option \<Rightarrow> ('e, 'a) outcome" where
  "ok_or e (Some x) = Ok x"
| "ok_or e None = Err e"

text \<open>The inversion rules of the sequencing operator, collected so that \<open>simp\<close> takes results apart.\<close>

named_theorems outcome_inv "when a sequenced call returns a value, an error or panics"

lemma and_then_Ok_iff [outcome_inv]: "and_then m f = Ok y \<longleftrightarrow> (\<exists>x. m = Ok x \<and> f x = Ok y)"
  by (cases m) auto

lemma and_then_Err_iff [outcome_inv]:
  "and_then m f = Err e \<longleftrightarrow> m = Err e \<or> (\<exists>x. m = Ok x \<and> f x = Err e)"
  by (cases m) auto

lemma and_then_Panic_iff [outcome_inv]:
  "and_then m f = Panic \<longleftrightarrow> m = Panic \<or> (\<exists>x. m = Ok x \<and> f x = Panic)"
  by (cases m) auto

lemma ok_or_Ok_iff [outcome_inv]: "ok_or e x = Ok y \<longleftrightarrow> x = Some y"
  by (cases x) auto

lemma ok_or_Err_iff [outcome_inv]: "ok_or e x = Err e' \<longleftrightarrow> x = None \<and> e' = e"
  by (cases x) auto

lemma ok_or_not_Panic [simp]: "ok_or e x \<noteq> Panic"
  by (cases x) auto

lemma and_then_cong [fundef_cong]:
  "m = m' \<Longrightarrow> (\<And>x. m' = Ok x \<Longrightarrow> f x = f' x) \<Longrightarrow> and_then m f = and_then m' f'"
  by (cases m') auto

lemma is_panic_simps [simp]:
  "\<not> is_panic (Ok x)" "\<not> is_panic (Err e)" "is_panic Panic"
  by (simp_all add: is_panic_def)

lemma is_panic_iff: "is_panic r \<longleftrightarrow> r = Panic"
  by (cases r) auto

subsection \<open>Checked indexing and slicing\<close>

text \<open>\<open>data[i]\<close>, \<open>&data[a..]\<close> and \<open>&data[a..b]\<close>: out of range, Rust panics.\<close>

definition index :: "'a list \<Rightarrow> nat \<Rightarrow> ('e, 'a) outcome" where
  "index xs i = (if i < length xs then Ok (xs ! i) else Panic)"

definition slice_from :: "'a list \<Rightarrow> nat \<Rightarrow> ('e, 'a list) outcome" where
  "slice_from xs a = (if a \<le> length xs then Ok (drop a xs) else Panic)"

definition slice_range :: "'a list \<Rightarrow> nat \<Rightarrow> nat \<Rightarrow> ('e, 'a list) outcome" where
  "slice_range xs a b = (if a \<le> b \<and> b \<le> length xs then Ok (take (b - a) (drop a xs)) else Panic)"

lemma index_ok [simp]: "i < length xs \<Longrightarrow> index xs i = Ok (xs ! i)"
  by (simp add: index_def)

lemma slice_from_ok [simp]: "a \<le> length xs \<Longrightarrow> slice_from xs a = Ok (drop a xs)"
  by (simp add: slice_from_def)

lemma slice_from_append [simp]: "slice_from (xs @ ys) (length xs) = Ok ys"
  by (simp add: slice_from_def)

lemma slice_range_ok [simp]: "a \<le> b \<Longrightarrow> b \<le> length xs \<Longrightarrow> slice_range xs a b = Ok (take (b - a) (drop a xs))"
  by (simp add: slice_range_def)

lemma index_Panic_iff [outcome_inv]: "index xs i = Panic \<longleftrightarrow> length xs \<le> i"
  by (simp add: index_def)

lemma slice_from_Panic_iff [outcome_inv]: "slice_from xs a = Panic \<longleftrightarrow> length xs < a"
  by (simp add: slice_from_def)

lemma slice_range_Panic_iff [outcome_inv]: "slice_range xs a b = Panic \<longleftrightarrow> \<not> (a \<le> b \<and> b \<le> length xs)"
  by (simp add: slice_range_def)

lemma index_Ok_iff [outcome_inv]: "index xs i = Ok x \<longleftrightarrow> i < length xs \<and> x = xs ! i"
  by (auto simp: index_def)

lemma slice_from_Ok_iff [outcome_inv]: "slice_from xs a = Ok ys \<longleftrightarrow> a \<le> length xs \<and> ys = drop a xs"
  by (auto simp: slice_from_def)

lemma slice_range_Ok_iff [outcome_inv]:
  "slice_range xs a b = Ok ys \<longleftrightarrow> a \<le> b \<and> b \<le> length xs \<and> ys = take (b - a) (drop a xs)"
  by (auto simp: slice_range_def)

lemma slicing_not_Err [simp]:
  "index xs i \<noteq> Err e" "slice_from xs a \<noteq> Err e" "slice_range xs a b \<noteq> Err e"
  by (simp_all add: index_def slice_from_def slice_range_def)

subsection \<open>Big-endian and little-endian integers\<close>

text \<open>
  \<open>be_nat\<close> is the number a byte slice denotes in network order; \<open>from_be_bytes\<close> reads it at the width
  of the result type, as \<open>u16::from_be_bytes\<close>, \<open>i64::from_be_bytes\<close> and their kin do (a signed
  integer is the word with the same bits, read by \<^const>\<open>sint\<close>).
\<close>

definition be_nat :: "byte list \<Rightarrow> nat" where
  "be_nat bs = foldl (\<lambda>acc b. 256 * acc + unat b) 0 bs"

definition from_be_bytes :: "byte list \<Rightarrow> 'a::len word" where
  "from_be_bytes bs = word_of_nat (be_nat bs)"

fun be_bytes :: "nat \<Rightarrow> nat \<Rightarrow> byte list" where
  "be_bytes 0 n = []"
| "be_bytes (Suc k) n = be_bytes k (n div 256) @ [word_of_nat (n mod 256)]"

definition to_be_bytes :: "'a::len word \<Rightarrow> byte list" where
  "to_be_bytes w = be_bytes (LENGTH('a) div 8) (unat w)"

fun le_nat :: "byte list \<Rightarrow> nat" where
  "le_nat [] = 0"
| "le_nat (b # bs) = unat b + 256 * le_nat bs"

definition from_le_bytes :: "byte list \<Rightarrow> 'a::len word" where
  "from_le_bytes bs = word_of_nat (le_nat bs)"

lemma be_nat_Nil [simp]: "be_nat [] = 0"
  by (simp add: be_nat_def)

lemma be_nat_snoc [simp]: "be_nat (bs @ [b]) = 256 * be_nat bs + unat b"
  by (simp add: be_nat_def)

lemma length_be_bytes [simp]: "length (be_bytes k n) = k"
  by (induction k arbitrary: n) auto

lemma be_nat_be_bytes: "be_nat (be_bytes k n) = n mod 256 ^ k"
proof (induction k arbitrary: n)
  case 0
  then show ?case by simp
next
  case (Suc k)
  have "be_nat (be_bytes (Suc k) n) = 256 * (n div 256 mod 256 ^ k) + n mod 256"
    by (simp add: Suc.IH unat_of_nat)
  also have "\<dots> = n mod (256 * 256 ^ k)"
    by (metis add.commute mod_mult2_eq)
  finally show ?case by simp
qed

lemma be_nat_less: "be_nat bs < 256 ^ length bs"
proof (induction bs rule: rev_induct)
  case Nil
  then show ?case by simp
next
  case (snoc b bs)
  have "256 * be_nat bs + unat b < 256 * Suc (be_nat bs)"
    using unat_byte_less [of b] by simp
  also have "\<dots> \<le> 256 * 256 ^ length bs"
    using snoc.IH by (intro mult_le_mono2) simp
  finally show ?case by simp
qed

lemma be_bytes_be_nat: "be_bytes (length bs) (be_nat bs) = bs"
proof (induction bs rule: rev_induct)
  case Nil
  then show ?case by simp
next
  case (snoc b bs)
  have "(256 * be_nat bs + unat b) mod 256 = unat b"
    using unat_byte_less [of b] by simp
  moreover have "(256 * be_nat bs + unat b) div 256 = be_nat bs"
    using unat_byte_less [of b] by simp
  ultimately show ?case using snoc.IH by simp
qed

lemma from_be_to_be_16 [simp]: "from_be_bytes (to_be_bytes w) = (w :: 16 word)"
  using unsigned_less [of w, where ?'a = nat] by (simp add: from_be_bytes_def to_be_bytes_def be_nat_be_bytes)

lemma from_be_to_be_32 [simp]: "from_be_bytes (to_be_bytes w) = (w :: 32 word)"
  using unsigned_less [of w, where ?'a = nat] by (simp add: from_be_bytes_def to_be_bytes_def be_nat_be_bytes)

lemma from_be_to_be_64 [simp]: "from_be_bytes (to_be_bytes w) = (w :: 64 word)"
  using unsigned_less [of w, where ?'a = nat] by (simp add: from_be_bytes_def to_be_bytes_def be_nat_be_bytes)

lemma length_to_be_bytes [simp]: "length (to_be_bytes (w :: 'a::len word)) = LENGTH('a) div 8"
  by (simp add: to_be_bytes_def)

subsection \<open>The first position of an element\<close>

text \<open>\<open>iter().position(p)\<close>: the index of the first element that satisfies \<open>p\<close>.\<close>

fun position :: "('a \<Rightarrow> bool) \<Rightarrow> 'a list \<Rightarrow> nat option" where
  "position p [] = None"
| "position p (x # xs) = (if p x then Some 0 else map_option Suc (position p xs))"

lemma position_None_iff: "position p xs = None \<longleftrightarrow> (\<forall>x\<in>set xs. \<not> p x)"
  by (induction xs) auto

lemma position_Some_iff:
  "position p xs = Some n \<longleftrightarrow> n < length xs \<and> p (xs ! n) \<and> (\<forall>j<n. \<not> p (xs ! j))"
proof (induction xs arbitrary: n)
  case Nil
  then show ?case by simp
next
  case (Cons x xs)
  then show ?case
    by (cases n) (auto simp: less_Suc_eq_0_disj nth_Cons')
qed

lemma position_append:
  "position p (xs @ ys) =
     (case position p xs of Some n \<Rightarrow> Some n | None \<Rightarrow> map_option ((+) (length xs)) (position p ys))"
  by (induction xs) (auto simp: option.map_comp comp_def map_option_case split: option.splits)

lemma position_in_append [simp]:
  "\<forall>x\<in>set xs. \<not> p x \<Longrightarrow> p y \<Longrightarrow> position p (xs @ y # ys) = Some (length xs)"
  by (induction xs) auto

subsection \<open>Maps from association lists\<close>

lemma map_of_rev_distinct: "distinct (map fst xs) \<Longrightarrow> map_of (rev xs) = map_of xs"
proof (induction xs)
  case Nil
  then show ?case by simp
next
  case (Cons x xs)
  then have "fst x \<notin> dom (map_of xs)" by (simp add: dom_map_of_conv_image_fst)
  then have "[fst x \<mapsto> snd x] ++ map_of xs = map_of xs ++ [fst x \<mapsto> snd x]" by (intro map_add_comm) simp
  then show ?case using Cons by (cases x) simp
qed

subsection \<open>Decimal numbers\<close>

text \<open>The \<open>Display\<close> form of an unsigned integer.\<close>

definition digit :: "nat \<Rightarrow> char" where
  "digit d = char_of (48 + d)"

fun decimal :: "nat \<Rightarrow> string" where
  "decimal n = (if n < 10 then [digit n] else decimal (n div 10) @ [digit (n mod 10)])"

declare decimal.simps [simp del]

end
