(* ===== verification/Avro_Types.thy ===== *)
theory Avro_Types imports Prelude begin

text \<open>
  The data of \<open>cdc-avro/src/lib.rs\<close>: column values, change events, relations, and the operations on
  them that need no codec: the metric label of an operation, the substitution of TOASTed values from
  the old row, and the JSON form of a value.  The arena and the owned version of \<open>Op\<close> and
  \<open>ChangeEvent\<close> have the same fields; they are one type here.
\<close>

subsection \<open>Types\<close>

datatype FieldKind = FK_Int4 | FK_Text | FK_Int8 | FK_Bool | FK_Timestamp

datatype ReplicaKind = Keys | Row

record Field =
  f_is_key :: bool
  f_name :: string
  f_kind :: FieldKind

record Relation =
  relation_oid :: u32
  r_name :: string
  r_namespace :: string
  r_fields :: "Field list"
  replica_id :: ReplicaKind

datatype PgValue =
    Null
  | Text string
  | Int4 i32
  | Int8 i64
  | Bool bool
  | Timestamp i64
  | Toasted

datatype Op =
    Insert (row: "PgValue list")
  | Update (old: "PgValue list") (row: "PgValue list")
  | Delete (old: "PgValue list")

record ChangeEvent =
  ev_op :: Op
  ev_rel :: u32

text \<open>The implementation of the trait \<open>FieldAccess\<close> by \<open>Field\<close>.\<close>

definition field_get_name :: "Field \<Rightarrow> string" where
  "field_get_name f = f_name f"

definition field_get_kind :: "Field \<Rightarrow> FieldKind" where
  "field_get_kind f = f_kind f"

definition pgvalue_from_str :: "string \<Rightarrow> PgValue" where
  "pgvalue_from_str s = Text s"

definition pgvalue_from_i32 :: "i32 \<Rightarrow> PgValue" where
  "pgvalue_from_i32 n = Int4 n"

subsection \<open>Operations\<close>

fun op_str :: "Op \<Rightarrow> string" where
  "op_str (Insert r) = ''insert''"
| "op_str (Update o' r) = ''update''"
| "op_str (Delete o') = ''delete''"

datatype ToastedOnKeyIdenity = ToastedOnKeyIdenity

text \<open>
  \<open>merge_toasted\<close> mutates the row in place and stops at the first value it cannot substitute, so the
  model returns the row as it is left together with the result.
\<close>

fun merge_row :: "PgValue list \<Rightarrow> nat \<Rightarrow> PgValue list \<Rightarrow>
    (ToastedOnKeyIdenity, unit) outcome \<times> PgValue list" where
  "merge_row olds i [] = (Ok (), [])"
| "merge_row olds i (v # vs) =
     (if v = Toasted
      then if i < length olds
           then (let (r, vs') = merge_row olds (Suc i) vs in (r, olds ! i # vs'))
           else (Err ToastedOnKeyIdenity, v # vs)
      else (let (r, vs') = merge_row olds (Suc i) vs in (r, v # vs')))"

definition merge_toasted :: "Op \<Rightarrow> (ToastedOnKeyIdenity, unit) outcome \<times> Op" where
  "merge_toasted op' =
     (case op' of
        Update olds vs \<Rightarrow> (let (r, vs') = merge_row olds 0 vs in (r, Update olds vs'))
      | _ \<Rightarrow> (Ok (), op'))"

subsection \<open>Substitution of TOASTed values\<close>

text \<open>What the caller may assume of the merged row, position by position.\<close>

definition merged_at :: "PgValue list \<Rightarrow> nat \<Rightarrow> PgValue \<Rightarrow> PgValue" where
  "merged_at olds i v = (if v = Toasted then olds ! i else v)"

definition mergeable :: "PgValue list \<Rightarrow> nat \<Rightarrow> PgValue list \<Rightarrow> bool" where
  "mergeable olds i vs \<longleftrightarrow> (\<forall>j<length vs. vs ! j = Toasted \<longrightarrow> i + j < length olds)"

lemma mergeable_Nil [simp]: "mergeable olds i []"
  by (simp add: mergeable_def)

lemma mergeable_Cons [simp]:
  "mergeable olds i (v # vs) \<longleftrightarrow> (v = Toasted \<longrightarrow> i < length olds) \<and> mergeable olds (Suc i) vs"
  by (auto simp: mergeable_def All_less_Suc2)

lemma merge_row_Ok_iff: "fst (merge_row olds i vs) = Ok () \<longleftrightarrow> mergeable olds i vs"
  by (induction vs arbitrary: i) (auto simp: split_beta Let_def)

lemma merge_row_not_Panic: "fst (merge_row olds i vs) \<noteq> Panic"
  by (induction vs arbitrary: i) (auto simp: split_beta Let_def)

lemma merge_row_length [simp]: "length (snd (merge_row olds i vs)) = length vs"
  by (induction vs arbitrary: i) (auto simp: split_beta Let_def)

lemma merge_row_value:
  "mergeable olds i vs \<Longrightarrow>
   snd (merge_row olds i vs) = map (\<lambda>j. merged_at olds (i + j) (vs ! j)) [0..<length vs]"
proof (induction vs arbitrary: i)
  case Nil
  then show ?case by simp
next
  case (Cons v vs)
  have split: "[0..<length (v # vs)] = 0 # map Suc [0..<length vs]"
    by (simp add: upt_conv_Cons map_Suc_upt del: upt_Suc)
  from Cons show ?case
    unfolding split by (auto simp: merged_at_def split_beta Let_def)
qed

lemma merge_row_id: "Toasted \<notin> set vs \<Longrightarrow> merge_row olds i vs = (Ok (), vs)"
  by (induction olds i vs rule: merge_row.induct) auto

lemma merge_row_no_toasted:
  assumes "mergeable olds i vs" and "Toasted \<notin> set olds"
  shows "Toasted \<notin> set (snd (merge_row olds i vs))"
proof -
  have "Toasted \<noteq> olds ! (i + j)" if "j < length vs" "vs ! j = Toasted" for j
    using assms that by (metis mergeable_def nth_mem)
  then show ?thesis
    using assms by (fastforce simp: merge_row_value merged_at_def in_set_conv_nth)
qed

text \<open>The values an operation carries; substitution adds none.\<close>

definition op_values :: "Op \<Rightarrow> PgValue set" where
  "op_values op' = (case op' of Insert r \<Rightarrow> set r | Update olds r \<Rightarrow> set olds \<union> set r | Delete olds \<Rightarrow> set olds)"

lemma merge_row_set: "set (snd (merge_row olds i vs)) \<subseteq> set olds \<union> set vs"
  by (induction vs arbitrary: i) (auto simp: split_beta Let_def)

lemma merge_toasted_values: "op_values (snd (merge_toasted op')) \<subseteq> op_values op'"
  using merge_row_set by (cases op') (fastforce simp: merge_toasted_def op_values_def split_beta Let_def)+

subsection \<open>JSON values\<close>

text \<open>
  \<open>serde_json::Value\<close> as far as the code builds it.  The calendar of the \<open>chrono\<close> crate is a
  parameter: \<open>fmt_micros us\<close> is the text of \<open>DateTime::from_timestamp_micros us\<close> under the format
  \<open>%Y-%m-%d %H:%M:%S%.6f\<close>, or \<open>None\<close> where the crate has no such date.  The addition of the epoch
  offset is an \<open>i64\<close> addition: with overflow checks (the default of debug builds) it panics on
  overflow, without them it wraps; \<open>overflow_checks\<close> is the build's setting.
\<close>

datatype json_value = JNull | JBool bool | JNumber int | JString string

definition pg_epoch_to_unix_micros :: i64 where
  "pg_epoch_to_unix_micros = 946684800000000"

definition add_i64 :: "bool \<Rightarrow> i64 \<Rightarrow> i64 \<Rightarrow> ('e, i64) outcome" where
  "add_i64 overflow_checks a b =
     (if overflow_checks \<and> \<not> (- (2 ^ 63) \<le> sint a + sint b \<and> sint a + sint b < 2 ^ 63)
      then Panic else Ok (a + b))"

fun to_json_value :: "bool \<Rightarrow> (i64 \<Rightarrow> string option) \<Rightarrow> PgValue \<Rightarrow> ('e, json_value) outcome" where
  "to_json_value chk fmt_micros Null = Ok JNull"
| "to_json_value chk fmt_micros (Text s) = Ok (JString s)"
| "to_json_value chk fmt_micros (Int4 n) = Ok (JNumber (sint n))"
| "to_json_value chk fmt_micros (Int8 n) = Ok (JNumber (sint n))"
| "to_json_value chk fmt_micros (Bool b) = Ok (JBool b)"
| "to_json_value chk fmt_micros (Timestamp t) =
     and_then (add_i64 chk t pg_epoch_to_unix_micros)
       (\<lambda>us. case fmt_micros us of Some s \<Rightarrow> Ok (JString s) | None \<Rightarrow> Ok JNull)"
| "to_json_value chk fmt_micros Toasted = Ok JNull"

subsection \<open>Properties\<close>

text \<open>
  C30: substitution of TOASTed values.  \<open>merge_toasted\<close> never panics; it succeeds exactly when every
  TOASTed position of an update's new row exists in the old row, and then replaces each such value by
  the old row's value at that position and nothing else; inserts and deletes are left as they are.
\<close>

theorem merge_toasted_substitutes:
  "fst (merge_toasted op') \<noteq> Panic \<and>
   (case op' of
      Update olds vs \<Rightarrow>
        (fst (merge_toasted op') = Ok () \<longleftrightarrow> (\<forall>j<length vs. vs ! j = Toasted \<longrightarrow> j < length olds)) \<and>
        (fst (merge_toasted op') = Ok () \<longrightarrow>
          snd (merge_toasted op') =
            Update olds (map (\<lambda>j. if vs ! j = Toasted then olds ! j else vs ! j) [0..<length vs]))
    | _ \<Rightarrow> merge_toasted op' = (Ok (), op'))"
proof (cases op')
  case (Update olds vs)
  have m: "merge_toasted (Update olds vs) = (fst (merge_row olds 0 vs), Update olds (snd (merge_row olds 0 vs)))"
    by (simp add: merge_toasted_def split_beta Let_def)
  show ?thesis
    using merge_row_not_Panic [of olds 0 vs] merge_row_Ok_iff [of olds 0 vs] merge_row_value [of olds 0 vs]
    by (auto simp: m Update mergeable_def merged_at_def)
qed (simp_all add: merge_toasted_def)

theorem merge_toasted_substitutes_witness:
  "merge_toasted (Update [Int4 1, Text ''a''] [Int4 2, Toasted]) = (Ok (), Update [Int4 1, Text ''a''] [Int4 2, Text ''a''])"
proof -
  let ?old = "[Int4 1, Text ''a'']" and ?new = "[Int4 2, Toasted]"
  have "[0..<length ?new] = [0, 1]" by (simp add: upt_rec)
  then have "map (\<lambda>j. if ?new ! j = Toasted then ?old ! j else ?new ! j) [0..<length ?new] = [Int4 2, Text ''a'']"
    by (simp del: upt_Suc)
  moreover have "\<forall>j<length ?new. ?new ! j = Toasted \<longrightarrow> j < length ?old" by simp
  ultimately have "fst (merge_toasted (Update ?old ?new)) = Ok ()"
    "snd (merge_toasted (Update ?old ?new)) = Update ?old [Int4 2, Text ''a'']"
    using merge_toasted_substitutes [of "Update ?old ?new"] by (simp_all only: Op.case simp_thms)
  then show ?thesis by (metis prod.collapse)
qed

end
