(* ===== verification/Null_Scan.thy ===== *)
theory Null_Scan imports Prelude begin

text \<open>
  \<open>find_null_word\<close> of \<open>cdc-wal-reader/src/decoder/relation.rs\<close>: the length of a C string, found
  sixteen bytes at a time with SSE2 (on x86-64) and eight bytes at a time with the zero-byte trick
  \<open>(w - 0x01..01) & !w & 0x80..80\<close>.  The model keeps the word arithmetic, the overlapping last read
  and every slice; the theorem at the end says that the routine is a linear search, on x86-64 and on
  every other little-endian target.
\<close>

subsection \<open>Platform\<close>

text \<open>
  What the decoder takes from its platform: the target (the code has an x86-64 branch and a scalar
  one, and \<open>from_ne_bytes\<close> follows the byte order) and the validity check of the crate \<open>simdutf8\<close>.
\<close>

datatype endian = Little | Big

datatype target_arch = X86_64 | Scalar endian

record platform =
  arch :: target_arch
  utf8_valid :: "byte list \<Rightarrow> bool"

fun little_endian :: "target_arch \<Rightarrow> bool" where
  "little_endian X86_64 = True"
| "little_endian (Scalar e) = (e = Little)"

subsection \<open>The instructions used\<close>

definition mm_cmpeq_epi8 :: "byte list \<Rightarrow> byte list \<Rightarrow> byte list" where
  "mm_cmpeq_epi8 a b = map2 (\<lambda>x y. if x = y then 0xFF else 0) a b"

definition mm_movemask_epi8 :: "byte list \<Rightarrow> i32" where
  "mm_movemask_epi8 v = horner_sum of_bool 2 (map (\<lambda>b. bit b 7) v)"

definition trailing_zeros :: "'a::len word \<Rightarrow> nat" where
  "trailing_zeros w =
     (case position (\<lambda>i. bit w i) [0..<LENGTH('a)] of Some i \<Rightarrow> i | None \<Rightarrow> LENGTH('a))"

definition from_ne_bytes :: "endian \<Rightarrow> byte list \<Rightarrow> u64" where
  "from_ne_bytes e bs = (case e of Little \<Rightarrow> from_le_bytes bs | Big \<Rightarrow> from_be_bytes bs)"

definition zero_byte_mask :: "u64 \<Rightarrow> u64" where
  "zero_byte_mask w = (w - 0x0101010101010101) AND NOT w AND 0x8080808080808080"

subsection \<open>The search\<close>

function scan_overlapping :: "byte list \<Rightarrow> nat \<Rightarrow> ('e, nat option) outcome" where
  "scan_overlapping data i =
     (if i \<le> length data + 7
      then (let boundary = min i (length data) in
            and_then (slice_range data (boundary - 8) boundary) (\<lambda>chunk.
              let mask = zero_byte_mask (from_ne_bytes Little chunk) in
              if mask \<noteq> 0 then Ok (Some ((boundary - 8) + trailing_zeros mask div 8))
              else scan_overlapping data (i + 8)))
      else Ok None)"
  by pat_completeness auto
termination
  by (relation "measure (\<lambda>(data, i). length data + 8 - i)") auto

function scan_words :: "endian \<Rightarrow> byte list \<Rightarrow> nat \<Rightarrow> ('e, nat option) outcome" where
  "scan_words e data i =
     (if i + 8 \<le> length data
      then and_then (slice_range data i (i + 8)) (\<lambda>chunk.
             let mask = zero_byte_mask (from_ne_bytes e chunk) in
             if mask \<noteq> 0 then Ok (Some (i + trailing_zeros mask div 8))
             else scan_words e data (i + 8))
      else and_then (slice_from data i) (\<lambda>tail'.
             Ok (map_option (\<lambda>j. i + j) (position (\<lambda>b. b = 0) tail'))))"
  by pat_completeness auto
termination
  by (relation "measure (\<lambda>(e, data, i). length data - i)") auto

declare scan_overlapping.simps [simp del] scan_words.simps [simp del]

definition first_chunk :: "byte list \<Rightarrow> nat option" where
  "first_chunk chunk =
     (let mask = mm_movemask_epi8 (mm_cmpeq_epi8 chunk (replicate 16 0)) in
      if mask \<noteq> 0 then Some (trailing_zeros mask) else None)"

definition find_null_word :: "target_arch \<Rightarrow> byte list \<Rightarrow> ('e, nat option) outcome" where
  "find_null_word target data =
     (case target of
        X86_64 \<Rightarrow>
          (if length data < 16
           then Ok (first_chunk (data @ replicate (16 - length data) 0xFF))
           else (case first_chunk (take 16 data) of
                   Some n \<Rightarrow> Ok (Some n)
                 | None \<Rightarrow> scan_overlapping data 24))
      | Scalar e \<Rightarrow> scan_words e data 0)"

subsection \<open>Trailing zeros\<close>

lemma position_upt:
  "position p [a..<b] = Some n \<longleftrightarrow> a + n < b \<and> p (a + n) \<and> (\<forall>j<n. \<not> p (a + j))"
  by (auto simp: position_Some_iff)

lemma trailing_zeros_eq:
  fixes w :: "'a::len word"
  assumes "n < LENGTH('a)" and "bit w n" and "\<And>j. j < n \<Longrightarrow> \<not> bit w j"
  shows "trailing_zeros w = n"
proof -
  have "position (\<lambda>i. bit w i) [0..<LENGTH('a)] = Some n"
    using assms by (simp add: position_upt)
  then show ?thesis by (simp add: trailing_zeros_def)
qed

subsection \<open>The zero-byte trick\<close>

fun ones :: "nat \<Rightarrow> int" where
  "ones 0 = 0"
| "ones (Suc n) = 1 + 256 * ones n"

definition zmask :: "byte list \<Rightarrow> int" where
  "zmask bs = (int (le_nat bs) - ones (length bs)) AND NOT (int (le_nat bs)) AND (128 * ones (length bs))"

lemma and_bytewise:
  fixes x y X Y :: int
  assumes "0 \<le> x" "x < 256" "0 \<le> y" "y < 256"
  shows "(x + 256 * X) AND (y + 256 * Y) = (x AND y) + 256 * (X AND Y)"
proof -
  have cat: "z + 256 * Z = concat_bit 8 z Z" if "0 \<le> z" "z < 256" for z Z :: int
    using that by (simp add: concat_bit_eq take_bit_int_eq_self push_bit_eq_mult)
  have "x AND y < 256" "0 \<le> x AND y"
    using assms AND_upper1 [of x y] by (auto simp del: AND_upper1)
  then have r: "(x AND y) + 256 * (X AND Y) = concat_bit 8 (x AND y) (X AND Y)"
    by (rule cat [rotated])
  show ?thesis
    unfolding r cat [OF assms(1,2)] cat [OF assms(3,4)]
    by (rule bit_eqI) (auto simp: bit_concat_bit_iff bit_and_iff)
qed

lemma bit7_iff: "0 \<le> x \<Longrightarrow> x < 256 \<Longrightarrow> x AND 128 = (if 128 \<le> x then 128 else 0)" for x :: int
proof -
  assume a: "0 \<le> x" "x < 256"
  have "bit x 7 \<longleftrightarrow> odd (x div 128)" by (simp add: bit_iff_odd)
  moreover have "x div 128 = (if 128 \<le> x then 1 else 0)" using a by auto
  ultimately have b: "bit x 7 \<longleftrightarrow> 128 \<le> x" by simp
  have "bit (128 :: int) n \<longleftrightarrow> n = 7" for n
    using bit_exp_iff [where 'a = int, of 7 n] by auto
  then have "x AND 128 = (if bit x 7 then 128 else 0)"
    by (intro bit_eqI) (auto simp: bit_and_iff)
  with b show ?thesis by simp
qed


lemma zmask_Cons:
  "zmask (b # bs) =
     (int (unat b) - 1 + 256 * (int (le_nat bs) - ones (length bs))) AND
     ((255 - int (unat b)) + 256 * (NOT (int (le_nat bs)))) AND
     (128 + 256 * (128 * ones (length bs)))"
proof -
  have "int (le_nat (b # bs)) - ones (length (b # bs)) =
      int (unat b) - 1 + 256 * (int (le_nat bs) - ones (length bs))"
    by simp
  moreover have "NOT (int (le_nat (b # bs))) = (255 - int (unat b)) + 256 * (NOT (int (le_nat bs)))"
    by (simp add: not_int_def)
  moreover have "128 * ones (length (b # bs)) = 128 + 256 * (128 * ones (length bs))"
    by simp
  ultimately show ?thesis by (simp only: zmask_def)
qed

lemma zmask_nonzero:
  assumes "b \<noteq> 0"
  shows "zmask (b # bs) = 256 * zmask bs"
proof -
  let ?b = "int (unat b)" and ?L = "int (le_nat bs)" and ?N = "ones (length bs)"
  have "unat b \<noteq> 0" using assms by (simp add: unat_eq_zero)
  then have b: "1 \<le> ?b" "?b < 256"
    using unat_byte_less [of b] by linarith+
  have low: "(255 - ?b) AND 128 = (if ?b \<le> 127 then 128 else 0)"
    using b by (simp add: bit7_iff)
  have a1: "((255 - ?b) + 256 * (NOT ?L)) AND (128 + 256 * (128 * ?N)) =
      ((255 - ?b) AND 128) + 256 * (NOT ?L AND (128 * ?N))"
    using b by (intro and_bytewise) auto
  have a2: "(?b - 1 + 256 * (?L - ?N)) AND (((255 - ?b) AND 128) + 256 * (NOT ?L AND (128 * ?N))) =
      ((?b - 1) AND ((255 - ?b) AND 128)) + 256 * ((?L - ?N) AND (NOT ?L AND (128 * ?N)))"
    using b by (intro and_bytewise) (auto simp: low)
  have a3: "(?b - 1) AND ((255 - ?b) AND 128) = 0"
    using b by (simp add: low bit7_iff)
  show ?thesis
    unfolding zmask_Cons a1 a2 a3 by (simp add: zmask_def)
qed

lemma zmask_zero: "\<exists>Z. zmask (0 # bs) = 128 + 256 * Z"
proof -
  let ?L = "int (le_nat bs)" and ?N = "ones (length bs)"
  have e: "int (unat (0 :: byte)) - 1 + 256 * (?L - ?N) = 255 + 256 * (?L - ?N - 1)"
    by simp
  have "((255 - int (unat (0 :: byte))) + 256 * (NOT ?L)) AND (128 + 256 * (128 * ?N)) =
      128 + 256 * (NOT ?L AND (128 * ?N))"
    by (subst and_bytewise) auto
  moreover have "(255 + 256 * (?L - ?N - 1)) AND (128 + 256 * (NOT ?L AND (128 * ?N))) =
      128 + 256 * ((?L - ?N - 1) AND (NOT ?L AND (128 * ?N)))"
    by (subst and_bytewise) auto
  ultimately have "zmask (0 # bs) = 128 + 256 * ((?L - ?N - 1) AND (NOT ?L AND (128 * ?N)))"
    by (simp only: zmask_Cons e)
  then show ?thesis ..
qed

lemma zmask_position:
  "case position (\<lambda>b. b = 0) bs of
     None \<Rightarrow> zmask bs = 0
   | Some k \<Rightarrow> \<exists>Z. zmask bs = push_bit (8 * k + 7) (1 + 2 * Z)"
proof (induction bs)
  case Nil
  then show ?case by (simp add: zmask_def)
next
  case (Cons b bs)
  show ?case
  proof (cases "b = 0")
    case True
    obtain Z where "zmask (0 # bs) = 128 + 256 * Z" using zmask_zero by blast
    then have "zmask (b # bs) = push_bit 7 (1 + 2 * Z)"
      using True by (simp add: push_bit_eq_mult)
    then show ?thesis using True by auto
  next
    case False
    have "push_bit (8 * Suc k + 7) x = 256 * push_bit (8 * k + 7) x" for k and x :: int
      by (simp add: push_bit_eq_mult power_add)
    then show ?thesis
      using False Cons.IH by (auto simp: zmask_nonzero split: option.splits)
  qed
qed


lemma zero_byte_mask_zmask:
  assumes "length bs = 8"
  shows "zero_byte_mask (from_le_bytes bs) = word_of_int (zmask bs)"
proof -
  have o: "(0x0101010101010101 :: u64) = word_of_int (ones 8)"
    "(0x8080808080808080 :: u64) = word_of_int (128 * ones 8)"
    by (simp_all add: numeral_eq_Suc)
  have n: "(word_of_nat (le_nat bs) :: u64) = word_of_int (int (le_nat bs))"
    by simp
  show ?thesis
    unfolding zero_byte_mask_def from_le_bytes_def o n
    by (simp only: zmask_def assms wi_hom_sub word_wi_log_defs)
qed

lemma zero_byte_mask_position:
  assumes "length bs = 8"
  shows "case position (\<lambda>b. b = 0) bs of
           None \<Rightarrow> zero_byte_mask (from_le_bytes bs) = 0
         | Some k \<Rightarrow> zero_byte_mask (from_le_bytes bs) \<noteq> 0 \<and>
             trailing_zeros (zero_byte_mask (from_le_bytes bs)) div 8 = k"
proof (cases "position (\<lambda>b. b = 0) bs")
  case None
  then show ?thesis
    using zmask_position [of bs] by (simp add: zero_byte_mask_zmask assms)
next
  case (Some k)
  let ?w = "zero_byte_mask (from_le_bytes bs)"
  obtain Z where Z: "zmask bs = push_bit (8 * k + 7) (1 + 2 * Z)"
    using zmask_position [of bs] Some by auto
  have k: "8 * k + 7 < 64"
    using Some assms by (simp add: position_Some_iff)
  have bits: "bit ?w n \<longleftrightarrow> n < 64 \<and> bit (zmask bs) n" for n
    by (simp add: zero_byte_mask_zmask assms bit_word_of_int_iff)
  have one: "bit ?w (8 * k + 7)"
    using k by (simp add: bits Z bit_push_bit_iff bit_0)
  moreover have "\<not> bit ?w j" if "j < 8 * k + 7" for j
    using that by (simp add: bits Z bit_push_bit_iff)
  ultimately have "trailing_zeros ?w = 8 * k + 7"
    using k by (intro trailing_zeros_eq) auto
  moreover have "?w \<noteq> 0" using one by auto
  ultimately show ?thesis using Some by simp
qed

subsection \<open>The searches are linear searches\<close>

lemma position_shift:
  assumes "a \<le> length xs" and "\<forall>j<a. \<not> p (xs ! j)"
  shows "position p xs = map_option ((+) a) (position p (drop a xs))"
proof -
  have "position p (take a xs) = None"
    using assms by (auto simp: position_None_iff all_set_conv_all_nth)
  then show ?thesis
    using assms position_append [of p "take a xs" "drop a xs"] by (simp add: min_def)
qed

lemma position_take_None: "position p (take n xs) = None \<longleftrightarrow> (\<forall>j<min n (length xs). \<not> p (xs ! j))"
  by (auto simp: position_None_iff all_set_conv_all_nth)

lemma position_take: "position p (take n ys) = Some k \<Longrightarrow> position p ys = Some k"
  by (auto simp: position_Some_iff)

lemma position_chunk:
  assumes "a \<le> length xs" and "\<forall>j<a. \<not> p (xs ! j)" and "position p (take n (drop a xs)) = Some k"
  shows "position p xs = Some (a + k)"
proof -
  have "position p (drop a xs) = Some k"
    using assms(3) by (rule position_take)
  then show ?thesis using position_shift [OF assms(1,2)] by simp
qed

lemma position_chunk_None:
  assumes "position p (take n (drop a xs)) = None" and "a \<le> j" and "j < a + n" and "j < length xs"
  shows "\<not> p (xs ! j)"
proof -
  have "take n (drop a xs) ! (j - a) = xs ! j" and "j - a < length (take n (drop a xs))"
    using assms by auto
  then show ?thesis
    using assms(1) by (metis nth_mem position_None_iff)
qed

lemma first_chunk_position:
  assumes "length chunk = 16"
  shows "first_chunk chunk = position (\<lambda>b. b = 0) chunk"
proof -
  let ?v = "mm_cmpeq_epi8 chunk (replicate 16 0)"
  have v: "?v = map (\<lambda>x. if x = 0 then 0xFF else 0) chunk"
    using assms by (auto simp: mm_cmpeq_epi8_def intro!: nth_equalityI)
  have bits: "bit (mm_movemask_epi8 ?v) n \<longleftrightarrow> n < 16 \<and> chunk ! n = 0" for n
    using assms by (auto simp: mm_movemask_epi8_def bit_horner_sum_bit_iff v bit_numeral_word_iff split: if_splits)
  show ?thesis
  proof (cases "position (\<lambda>b. b = 0) chunk")
    case None
    then have "\<not> bit (mm_movemask_epi8 ?v) n" for n
      using assms by (auto simp: bits position_None_iff in_set_conv_nth)
    then have "mm_movemask_epi8 ?v = 0" by (intro bit_eqI) simp
    then show ?thesis using None by (simp add: first_chunk_def)
  next
    case (Some k)
    then have k: "k < 16" "chunk ! k = 0" "\<forall>j<k. chunk ! j \<noteq> 0"
      using assms by (auto simp: position_Some_iff)
    then have "bit (mm_movemask_epi8 ?v) k" by (simp add: bits)
    then have "mm_movemask_epi8 ?v \<noteq> 0" by auto
    moreover from k have "trailing_zeros (mm_movemask_epi8 ?v) = k"
      by (intro trailing_zeros_eq) (auto simp: bits)
    ultimately show ?thesis using Some by (simp add: first_chunk_def Let_def)
  qed
qed


lemma scan_overlapping_step:
  assumes "i \<le> length data + 7" and "b = min i (length data)" and "8 \<le> b"
  shows "scan_overlapping data i =
    (if zero_byte_mask (from_le_bytes (take 8 (drop (b - 8) data))) \<noteq> 0
     then Ok (Some (b - 8 +
       trailing_zeros (zero_byte_mask (from_le_bytes (take 8 (drop (b - 8) data)))) div 8))
     else scan_overlapping data (i + 8))"
proof -
  have "b - 8 \<le> b" "b \<le> length data" "b - (b - 8) = 8" using assms by auto
  then show ?thesis
    using assms(1) unfolding scan_overlapping.simps [of data i] assms(2) [symmetric]
    by (simp add: Let_def from_ne_bytes_def)
qed

lemma scan_overlapping_position:
  assumes "16 \<le> length data" "24 \<le> i" "\<forall>j<i - 8. j < length data \<longrightarrow> data ! j \<noteq> 0"
  shows "scan_overlapping data i = Ok (position (\<lambda>b. b = 0) data)"
  using assms
proof (induction "length data + 8 - i" arbitrary: i rule: less_induct)
  case (less i)
  define b where "b = min i (length data)"
  let ?p = "position (\<lambda>b. b = 0)" and ?chunk = "take 8 (drop (b - 8) data)"
  show ?case
  proof (cases "i \<le> length data + 7")
    case False
    then have "?p data = None"
      using less.prems(3) by (auto simp: position_None_iff all_set_conv_all_nth)
    with False show ?thesis by (simp add: scan_overlapping.simps [of data i])
  next
    case True
    have b: "8 \<le> b" "b - 8 \<le> length data" "b \<le> length data" "b - 8 \<le> i - 8"
      using less.prems by (auto simp: b_def)
    then have len: "length ?chunk = 8" by simp
    have before: "\<forall>j<b - 8. data ! j \<noteq> 0"
      using less.prems(3) b by auto
    note step = scan_overlapping_step [OF True b_def b(1)] and zero = zero_byte_mask_position [OF len]
    show ?thesis
    proof (cases "?p ?chunk")
      case (Some k)
      then have "?p data = Some (b - 8 + k)"
        by (rule position_chunk [OF b(2) before])
      with Some zero show ?thesis by (simp add: step)
    next
      case None
      have "data ! j \<noteq> 0" if "j < i" "j < length data" for j
        using before position_chunk_None [OF None, of j] that b
        by (cases "j < b - 8") (auto simp: b_def)
      moreover have "length data - i < length data + 8 - i" using True by arith
      ultimately show ?thesis
        using None zero less.prems less.hyps [of "i + 8"] by (simp add: step)
    qed
  qed
qed

lemma scan_words_position:
  assumes "i \<le> length data" "\<forall>j<i. data ! j \<noteq> 0"
  shows "scan_words Little data i = Ok (position (\<lambda>b. b = 0) data)"
  using assms
proof (induction "length data - i" arbitrary: i rule: less_induct)
  case (less i)
  let ?p = "position (\<lambda>b. b = 0)" and ?chunk = "take 8 (drop i data)"
  show ?case
  proof (cases "i + 8 \<le> length data")
    case False
    with less.prems show ?thesis
      by (simp add: scan_words.simps [of Little data i] position_shift)
  next
    case True
    then have len: "length ?chunk = 8" by simp
    show ?thesis
    proof (cases "?p ?chunk")
      case (Some k)
      then have "?p data = Some (i + k)"
        by (rule position_chunk [OF less.prems])
      with True Some zero_byte_mask_position [OF len] show ?thesis
        by (simp add: scan_words.simps [of Little data i] from_ne_bytes_def Let_def)
    next
      case None
      have "data ! j \<noteq> 0" if "j < i + 8" for j
        using less.prems(2) position_chunk_None [OF None, of j] that True
        by (cases "j < i") auto
      with True None zero_byte_mask_position [OF len] less.hyps [of "i + 8"] show ?thesis
        by (simp add: scan_words.simps [of Little data i] from_ne_bytes_def Let_def)
    qed
  qed
qed

theorem find_null_word_linear:
  assumes "little_endian target"
  shows "find_null_word target data = Ok (position (\<lambda>b. b = 0) data)"
proof (cases target)
  case (Scalar e)
  with assms show ?thesis by (simp add: find_null_word_def scan_words_position)
next
  case X86_64
  show ?thesis
  proof (cases "length data < 16")
    case True
    have "position (\<lambda>b. b = 0) (replicate n (0xFF :: byte)) = None" for n
      by (simp add: position_None_iff)
    with True X86_64 show ?thesis
      by (simp add: find_null_word_def first_chunk_position position_append split: option.splits)
  next
    case False
    then have fc: "first_chunk (take 16 data) = position (\<lambda>b. b = 0) (take 16 data)"
      by (intro first_chunk_position) simp
    show ?thesis
    proof (cases "position (\<lambda>b. b = 0) (take 16 data)")
      case None
      then have "\<forall>j<16. data ! j \<noteq> 0"
        using False by (auto simp: position_None_iff all_set_conv_all_nth)
      then have "scan_overlapping data 24 = Ok (position (\<lambda>b. b = 0) data)"
        using False by (intro scan_overlapping_position) auto
      with None fc False X86_64 show ?thesis by (simp add: find_null_word_def)
    next
      case (Some k)
      with fc False X86_64 position_take [OF Some] show ?thesis by (simp add: find_null_word_def)
    qed
  qed
qed

subsection \<open>Properties\<close>

text \<open>
  C18: on a little-endian target (x86-64 with its SSE2 first chunk and overlapping words, or the
  scalar code), the null scan returns the position of the first zero byte of any slice, or \<open>None\<close>
  when there is none; none of its unchecked-looking subscripts panics.
\<close>

theorem find_null_word_first_nul:
  assumes "little_endian target"
  shows "\<exists>r. find_null_word target data = Ok r \<and>
    (case r of
       None \<Rightarrow> 0 \<notin> set data
     | Some n \<Rightarrow> n < length data \<and> data ! n = 0 \<and> (\<forall>j<n. data ! j \<noteq> 0))"
  by (auto simp: find_null_word_linear [OF assms] position_None_iff position_Some_iff split: option.split)

theorem find_null_word_first_nul_witness:
  "little_endian X86_64 \<and> length (replicate 21 7 @ [0, 9 :: byte]) = 23 \<and>
   (\<exists>r. find_null_word X86_64 (replicate 21 7 @ [0, 9]) = Ok r \<and>
     (case r of
        None \<Rightarrow> 0 \<notin> set (replicate 21 7 @ [0, 9 :: byte])
      | Some n \<Rightarrow> n < length (replicate 21 7 @ [0, 9 :: byte]) \<and> (replicate 21 7 @ [0, 9 :: byte]) ! n = 0 \<and>
          (\<forall>j<n. (replicate 21 7 @ [0, 9 :: byte]) ! j \<noteq> 0)))"
  by (intro conjI find_null_word_first_nul) simp_all

text \<open>
  On a big-endian target the scalar code is wrong.  It reads words with \<open>from_ne_bytes\<close> but turns
  the lowest marked bit into an offset as if the lowest byte came first: for a name of one letter in
  an eight-byte slice it returns 6 instead of 1.
\<close>

lemma find_null_word_big_endian_wrong:
  "(find_null_word (Scalar Big) [65, 0, 1, 1, 1, 1, 1, 1] :: (unit, nat option) outcome) = Ok (Some 6) \<and>
   position (\<lambda>b. b = 0) [65, 0, 1, 1, 1, 1, 1, (1 :: byte)] = Some 1"
proof -
  have "zero_byte_mask (from_ne_bytes Big [65, 0, 1, 1, 1, 1, 1, 1]) = 2 ^ 55"
    by (simp add: zero_byte_mask_def from_ne_bytes_def from_be_bytes_def be_nat_def)
  moreover have "trailing_zeros (2 ^ 55 :: u64) = 55"
    by (rule trailing_zeros_eq) (simp, simp_all only: bit_exp_iff possible_bit_word, simp_all)
  moreover have "(2 :: u64) ^ 55 \<noteq> 0" by simp
  ultimately show ?thesis
    by (simp add: find_null_word_def scan_words.simps Let_def)
qed

end
