(* ===== verification/Decoder_Base.thy ===== *)
theory Decoder_Base imports Avro_Types Null_Scan begin

text \<open>
  What the decoders of \<open>cdc-wal-reader/src/decoder\<close> share: the error type, the letters of the wire
  protocol, the interface to the UTF-8 validator, and reads of big-endian fields at an offset.
\<close>

subsection \<open>Errors\<close>

text \<open>
  The payload of \<open>NonUtf8\<close> (the standard library's error) and of \<open>NonUtf8Simd\<close> (an empty struct) say
  nothing the code reads; both are constructors without arguments.
\<close>

datatype DecoderError =
    WrongOldTupleKey byte
  | WrongColTypeKey byte
  | WrongNewTupleKey byte
  | WrongFieldDataFlag byte
  | InvalidOid u32
  | TruncatedInput
  | CorruptedInput
  | NonUtf8
  | NonUtf8Simd
  | UnknownRelation u32
  | WrongFieldKind FieldKind
  | WrongReplicaId byte
  | WrongOldTupleKind ReplicaKind
  | ToastedValueOnNonUpdate

type_synonym 'a dres = "(DecoderError, 'a) outcome"

subsection \<open>Letters of the protocol\<close>

abbreviation b_b :: byte where "b_b \<equiv> 98"
abbreviation b_d :: byte where "b_d \<equiv> 100"
abbreviation b_f :: byte where "b_f \<equiv> 102"
abbreviation b_n :: byte where "b_n \<equiv> 110"
abbreviation b_t :: byte where "b_t \<equiv> 116"
abbreviation b_u :: byte where "b_u \<equiv> 117"
abbreviation b_D :: byte where "b_D \<equiv> 68"
abbreviation b_I :: byte where "b_I \<equiv> 73"
abbreviation b_K :: byte where "b_K \<equiv> 75"
abbreviation b_N :: byte where "b_N \<equiv> 78"
abbreviation b_O :: byte where "b_O \<equiv> 79"
abbreviation b_R :: byte where "b_R \<equiv> 82"
abbreviation b_U :: byte where "b_U \<equiv> 85"

subsection \<open>Reading integers at an offset\<close>

text \<open>\<open>uN::from_be_bytes(data[a..a + n].try_into().expect(""))\<close>\<close>

definition read_be :: "byte list \<Rightarrow> nat \<Rightarrow> nat \<Rightarrow> ('a::len word) dres" where
  "read_be data a n = and_then (slice_range data a (a + n)) (\<lambda>bs. Ok (from_be_bytes bs))"

lemma read_be_ok [simp]:
  "a + n \<le> length data \<Longrightarrow> read_be data a n = Ok (from_be_bytes (take n (drop a data)))"
  by (simp add: read_be_def)

lemma read_be_at_16:
  "data = pre @ to_be_bytes (w :: u16) @ rest \<Longrightarrow> length pre = a \<Longrightarrow> read_be data a 2 = Ok w"
  by auto

lemma read_be_at_32:
  "data = pre @ to_be_bytes (w :: u32) @ rest \<Longrightarrow> length pre = a \<Longrightarrow> read_be data a 4 = Ok w"
  by auto

lemma read_be_at_64:
  "data = pre @ to_be_bytes (w :: u64) @ rest \<Longrightarrow> length pre = a \<Longrightarrow> read_be data a 8 = Ok w"
  by auto

lemma read_be_Panic_iff [outcome_inv]: "read_be data a n = Panic \<longleftrightarrow> length data < a + n"
  by (auto simp: read_be_def slice_range_def)

lemma read_be_Ok_iff [outcome_inv]:
  "read_be data a n = Ok x \<longleftrightarrow> a + n \<le> length data \<and> x = from_be_bytes (take n (drop a data))"
  by (auto simp: read_be_def slice_range_def)

lemma read_be_not_Err [simp]: "read_be data a n \<noteq> Err e"
  by (auto simp: read_be_def slice_range_def)

subsection \<open>The platform's contract\<close>

text \<open>
  The decoders run on a little-endian target, and the validator accepts every ASCII text, as the
  documentation of \<open>simdutf8\<close> (the same language as \<open>std::str::from_utf8\<close>) says.
\<close>

definition ascii :: "byte list \<Rightarrow> bool" where
  "ascii bs = list_all (\<lambda>b. b < 128) bs"

locale utf8_platform =
  fixes P :: platform
  assumes little: "little_endian (arch P)"
    and ascii_valid: "ascii bs \<Longrightarrow> utf8_valid P bs"
begin

lemma null_word: "find_null_word (arch P) data = Ok (position (\<lambda>b. b = 0) data)"
  by (rule find_null_word_linear [OF little])

lemma null_word_terminated:
  "0 \<notin> set name \<Longrightarrow> find_null_word (arch P) (name @ 0 # rest) = Ok (Some (length name))"
  by (subst null_word) (simp, intro position_in_append, auto)

end

text \<open>
  The UTF-8 encoding forms of the Unicode standard (Table 3-7, RFC 3629), as a function that
  satisfies the contract; the witnesses run the decoders on it.
\<close>

definition cont :: "byte \<Rightarrow> bool" where
  "cont b \<longleftrightarrow> 0x80 \<le> b \<and> b \<le> 0xBF"

fun utf8_wf :: "byte list \<Rightarrow> bool" where
  "utf8_wf [] = True"
| "utf8_wf (a # bs) =
     (if a < 0x80 then utf8_wf bs
      else if 0xC2 \<le> a \<and> a \<le> 0xDF then
        (case bs of b # r \<Rightarrow> cont b \<and> utf8_wf r | _ \<Rightarrow> False)
      else if 0xE0 \<le> a \<and> a \<le> 0xEF then
        (case bs of
           b # c # r \<Rightarrow>
             (if a = 0xE0 then 0xA0 \<le> b \<and> b \<le> 0xBF
              else if a = 0xED then 0x80 \<le> b \<and> b \<le> 0x9F else cont b) \<and> cont c \<and> utf8_wf r
         | _ \<Rightarrow> False)
      else if 0xF0 \<le> a \<and> a \<le> 0xF4 then
        (case bs of
           b # c # d # r \<Rightarrow>
             (if a = 0xF0 then 0x90 \<le> b \<and> b \<le> 0xBF
              else if a = 0xF4 then 0x80 \<le> b \<and> b \<le> 0x8F else cont b) \<and>
             cont c \<and> cont d \<and> utf8_wf r
         | _ \<Rightarrow> False)
      else False)"

lemma utf8_wf_ascii: "ascii bs \<Longrightarrow> utf8_wf bs"
  by (induction bs) (auto simp: ascii_def)

definition x86_platform :: platform where
  "x86_platform = \<lparr>arch = X86_64, utf8_valid = utf8_wf\<rparr>"

interpretation x86: utf8_platform x86_platform
  by unfold_locales (simp_all add: x86_platform_def utf8_wf_ascii)

end
