(* ===== verification/Relation_Decoder.thy ===== *)
theory Relation_Decoder imports Decoder_Base begin

text \<open>
  \<open>cdc-wal-reader/src/decoder/relation.rs\<close>: the decoder of Relation messages.  The first part is the
  code; then the wire format of the PostgreSQL protocol as an encoder, the round trip, the invariant
  of the decoded relation, and the inputs on which the decoder fails.
\<close>

subsection \<open>The decoder\<close>

definition extract_string :: "platform \<Rightarrow> byte list \<Rightarrow> string dres" where
  "extract_string P data =
     and_then (find_null_word (arch P) data) (\<lambda>found.
     and_then (ok_or TruncatedInput found) (\<lambda>nul.
     and_then (slice_range data 0 nul) (\<lambda>s.
       if list_all (\<lambda>b. b < 128) s then Ok (str_of_bytes s)
       else if utf8_valid P s then Ok (str_of_bytes s)
       else Err NonUtf8Simd)))"

record KeyField =
  kf_name :: string
  kf_kind :: FieldKind

definition keyfield_get_name :: "KeyField \<Rightarrow> string" where
  "keyfield_get_name f = kf_name f"

definition keyfield_get_kind :: "KeyField \<Rightarrow> FieldKind" where
  "keyfield_get_kind f = kf_kind f"

record RelationData =
  inner :: Relation
  key_fields :: "KeyField list"
  key_indexes :: "nat list"

datatype FieldParseResult = Physical Field nat | Logical nat

definition byte_size_len :: "nat \<Rightarrow> nat" where
  "byte_size_len str_len = 10 + str_len"

definition kind_from_oid_mod :: "u32 \<Rightarrow> u32 \<Rightarrow> FieldKind dres" where
  "kind_from_oid_mod t_oid t_mod =
     (if t_oid = 16 then Ok FK_Bool
      else if t_oid = 20 then Ok FK_Int8
      else if t_oid = 23 then Ok FK_Int4
      else if t_oid = 25 then Ok FK_Text
      else if t_oid = 1114 then Ok FK_Timestamp
      else Err (InvalidOid t_oid))"

text \<open>The check of the flag: a key or plain column, a logical one, or an error.\<close>

definition parse_field :: "platform \<Rightarrow> byte list \<Rightarrow> FieldParseResult dres" where
  "parse_field P data =
     (if length data < 10 then Err TruncatedInput
      else
        and_then (index data 0) (\<lambda>flag.
        and_then (slice_from data 1) (\<lambda>rest.
        and_then (extract_string P rest) (\<lambda>name.
          if flag = 0 \<or> flag = 1 then
            (let is_key = (flag = 1); after_name = 1 + length name + 1 in
             and_then (read_be data after_name 4) (\<lambda>t_oid.
             and_then (read_be data (after_name + 4) 4) (\<lambda>t_mod.
             and_then (kind_from_oid_mod t_oid t_mod) (\<lambda>k.
               Ok (Physical \<lparr>f_is_key = is_key, f_name = name, f_kind = k\<rparr>
                     (byte_size_len (length name)))))))
          else if flag = 2 \<or> flag = 3 then Ok (Logical (byte_size_len (length name)))
          else Err (WrongFieldDataFlag flag)))))"

fun parse_fields :: "platform \<Rightarrow> byte list \<Rightarrow> nat \<Rightarrow> nat \<Rightarrow> Field list \<Rightarrow> Field list dres" where
  "parse_fields P data 0 col_start_id fs = Ok fs"
| "parse_fields P data (Suc n) col_start_id fs =
     and_then (slice_from data col_start_id) (\<lambda>d.
     and_then (parse_field P d) (\<lambda>r.
       case r of
         Physical f bytes \<Rightarrow> parse_fields P data n (col_start_id + bytes) (fs @ [f])
       | Logical b \<Rightarrow> parse_fields P data n (col_start_id + b) fs))"

definition keys_of :: "Field list \<Rightarrow> KeyField list" where
  "keys_of fs =
     List.map_filter (\<lambda>f. if f_is_key f then Some \<lparr>kf_name = f_name f, kf_kind = f_kind f\<rparr> else None) fs"

definition indexes_of :: "Field list \<Rightarrow> nat list" where
  "indexes_of fs = List.map_filter (\<lambda>(i, f). if f_is_key f then Some i else None) (enumerate 0 fs)"

definition replica_of_byte :: "byte \<Rightarrow> ReplicaKind dres" where
  "replica_of_byte a =
     (if a = b_d then Ok Keys else if a = b_f then Ok Row else Err (WrongReplicaId a))"

definition relation_parse :: "platform \<Rightarrow> byte list \<Rightarrow> RelationData dres" where
  "relation_parse P data =
     (if length data < 10 then Err TruncatedInput
      else
        and_then (read_be data 1 4) (\<lambda>oid.
        and_then (slice_from data 5) (\<lambda>d1.
        and_then (extract_string P d1) (\<lambda>ns.
        and_then (slice_from data (5 + length ns + 1)) (\<lambda>d2.
        and_then (extract_string P d2) (\<lambda>relname.
          if length data < 5 + length ns + 1 + length relname + 3 then Err TruncatedInput
          else
            (let replica_id_pos = 5 + length ns + 1 + length relname + 1 in
             and_then (index data replica_id_pos) (\<lambda>a.
             and_then (replica_of_byte a) (\<lambda>kind.
             and_then (read_be data (replica_id_pos + 1) 2) (\<lambda>cols.
             and_then (parse_fields P data (unat (cols :: u16)) (replica_id_pos + 3) []) (\<lambda>fs.
               Ok \<lparr>inner = \<lparr>relation_oid = oid, r_name = relname, r_namespace = ns,
                            r_fields = fs, replica_id = kind\<rparr>,
                   key_fields = keys_of fs,
                   key_indexes = indexes_of fs\<rparr>)))))))))))"

subsection \<open>Names\<close>

context utf8_platform begin

lemma extract_string_unterminated: "0 \<notin> set data \<Longrightarrow> extract_string P data = Err TruncatedInput"
proof -
  assume "0 \<notin> set data"
  then have "position (\<lambda>b. b = 0) data = None" by (auto simp: position_None_iff)
  then show ?thesis by (simp add: extract_string_def null_word)
qed

lemma extract_string_terminated:
  assumes "0 \<notin> set name"
  shows "extract_string P (name @ 0 # rest) =
    (if utf8_valid P name then Ok (str_of_bytes name) else Err NonUtf8Simd)"
  using assms ascii_valid [of name]
  by (simp add: extract_string_def null_word_terminated ascii_def)

lemma extract_string_sound: "extract_string P data = Ok s \<Longrightarrow> utf8_valid P (bytes_of_str s)"
  using ascii_valid by (auto simp: extract_string_def outcome_inv null_word ascii_def split: if_splits)

lemma extract_string_shape:
  "extract_string P data = Ok s \<Longrightarrow>
     \<exists>rest. data = bytes_of_str s @ 0 # rest \<and> 0 \<notin> set (bytes_of_str s)"
proof -
  assume a: "extract_string P data = Ok s"
  then obtain n where n: "position (\<lambda>b. b = 0) data = Some n" and s: "s = str_of_bytes (take n data)"
    by (auto simp: extract_string_def outcome_inv null_word split: if_splits)
  then have "data = take n data @ 0 # drop (Suc n) data"
    by (simp add: position_Some_iff id_take_nth_drop [symmetric]) (metis id_take_nth_drop)
  moreover have "0 \<notin> set (take n data)"
    using n by (auto simp: position_Some_iff in_set_conv_nth)
  ultimately show ?thesis unfolding s by auto
qed

lemma extract_string_not_Panic: "extract_string P data \<noteq> Panic"
  by (auto simp: extract_string_def outcome_inv null_word position_Some_iff split: if_splits)

end

subsection \<open>The wire format\<close>

text \<open>
  The Relation message of the logical replication protocol, as PostgreSQL documents it: the letter,
  the relation's OID, namespace and name as C strings, the replica identity, and per column a flag
  byte, the name, the type's OID and its modifier.
\<close>

record wire_column =
  wc_flag :: byte
  wc_name :: "byte list"
  wc_oid :: u32
  wc_mod :: u32

definition enc_column :: "wire_column \<Rightarrow> byte list" where
  "enc_column c = wc_flag c # wc_name c @ 0 # to_be_bytes (wc_oid c) @ to_be_bytes (wc_mod c)"

definition enc_relation :: "u32 \<Rightarrow> byte list \<Rightarrow> byte list \<Rightarrow> byte \<Rightarrow> wire_column list \<Rightarrow> byte list" where
  "enc_relation oid ns rel repl cols =
     b_R # to_be_bytes oid @ ns @ 0 # rel @ 0 # repl #
     to_be_bytes (word_of_nat (length cols) :: u16) @ concat (map enc_column cols)"

definition physical :: "wire_column \<Rightarrow> bool" where
  "physical c \<longleftrightarrow> wc_flag c = 0 \<or> wc_flag c = 1"

definition kind_of_oid :: "u32 \<Rightarrow> FieldKind" where
  "kind_of_oid oid = (case kind_from_oid_mod oid 0 of Ok k \<Rightarrow> k | _ \<Rightarrow> FK_Text)"

definition field_of :: "wire_column \<Rightarrow> Field" where
  "field_of c = \<lparr>f_is_key = (wc_flag c = 1), f_name = str_of_bytes (wc_name c),
                 f_kind = kind_of_oid (wc_oid c)\<rparr>"

definition name_ok :: "platform \<Rightarrow> byte list \<Rightarrow> bool" where
  "name_ok P name \<longleftrightarrow> 0 \<notin> set name \<and> utf8_valid P name"

definition column_ok :: "platform \<Rightarrow> wire_column \<Rightarrow> bool" where
  "column_ok P c \<longleftrightarrow> name_ok P (wc_name c) \<and>
     (wc_flag c \<in> {2, 3} \<or> (physical c \<and> wc_oid c \<in> {16, 20, 23, 25, 1114}))"

definition fields_of :: "wire_column list \<Rightarrow> Field list" where
  "fields_of cols = map field_of (filter physical cols)"

lemma length_enc_column [simp]: "length (enc_column c) = byte_size_len (length (wc_name c))"
  by (simp add: enc_column_def byte_size_len_def)

lemma kind_of_oid_ok: "oid \<in> {16, 20, 23, 25, 1114} \<Longrightarrow> kind_from_oid_mod oid m = Ok (kind_of_oid oid)"
  by (auto simp: kind_of_oid_def kind_from_oid_mod_def)

subsection \<open>The round trip\<close>

definition relation_header :: "u32 \<Rightarrow> byte list \<Rightarrow> byte list \<Rightarrow> byte \<Rightarrow> nat \<Rightarrow> byte list" where
  "relation_header oid ns rel repl n =
     b_R # to_be_bytes oid @ ns @ 0 # rel @ 0 # repl # to_be_bytes (word_of_nat n :: u16)"

lemma enc_relation_header:
  "enc_relation oid ns rel repl cols =
     relation_header oid ns rel repl (length cols) @ concat (map enc_column cols)"
  by (simp add: enc_relation_def relation_header_def)

context utf8_platform begin

lemma extract_string_name:
  "name_ok P name \<Longrightarrow> extract_string P (name @ 0 # rest) = Ok (str_of_bytes name)"
  by (simp add: name_ok_def extract_string_terminated)

lemma parse_field_enc_column:
  assumes "column_ok P c"
  shows "parse_field P (enc_column c @ rest) =
    Ok (if physical c then Physical (field_of c) (byte_size_len (length (wc_name c)))
        else Logical (byte_size_len (length (wc_name c))))"
proof -
  let ?d = "enc_column c @ rest" and ?n = "length (wc_name c)"
  have name: "extract_string P (drop 1 ?d) = Ok (str_of_bytes (wc_name c))"
    using assms by (simp add: enc_column_def column_ok_def extract_string_name)
  have oid: "read_be ?d (1 + ?n + 1) 4 = Ok (wc_oid c)"
    by (rule read_be_at_32 [where pre = "wc_flag c # wc_name c @ [0]"]) (simp_all add: enc_column_def)
  have m: "read_be ?d (1 + ?n + 1 + 4) 4 = Ok (wc_mod c)"
    by (rule read_be_at_32 [where pre = "wc_flag c # wc_name c @ 0 # to_be_bytes (wc_oid c)"])
      (simp_all add: enc_column_def)
  have len: "10 \<le> length ?d" and flag: "(index ?d 0 :: byte dres) = Ok (wc_flag c)"
    by (simp_all add: byte_size_len_def enc_column_def)
  show ?thesis
  proof (cases "physical c")
    case True
    then have "kind_from_oid_mod (wc_oid c) (wc_mod c) = Ok (kind_of_oid (wc_oid c))"
      using assms by (intro kind_of_oid_ok) (auto simp: column_ok_def physical_def)
    then show ?thesis
      using True len name oid m flag
      by (simp add: parse_field_def physical_def field_of_def Let_def)
  next
    case False
    then show ?thesis
      using assms len name flag by (auto simp: parse_field_def column_ok_def physical_def)
  qed
qed

lemma parse_fields_enc_columns:
  assumes "\<forall>c\<in>set cols. column_ok P c"
  shows "parse_fields P (pre @ concat (map enc_column cols) @ rest) (length cols) (length pre) fs =
    Ok (fs @ fields_of cols)"
  using assms
proof (induction cols arbitrary: pre fs)
  case Nil
  then show ?case by (simp add: fields_of_def)
next
  case (Cons c cols)
  let ?rest = "concat (map enc_column cols) @ rest"
  have pos: "length pre + byte_size_len (length (wc_name c)) = length (pre @ enc_column c)"
    by simp
  have "parse_field P (enc_column c @ ?rest) =
      Ok (if physical c then Physical (field_of c) (byte_size_len (length (wc_name c)))
          else Logical (byte_size_len (length (wc_name c))))"
    using Cons.prems by (intro parse_field_enc_column) simp
  then show ?case
    using Cons.IH [of "pre @ enc_column c" "if physical c then fs @ [field_of c] else fs"] Cons.prems
    by (cases "physical c") (simp_all add: pos fields_of_def del: length_append)
qed

lemma relation_parse_header:
  fixes body :: "byte list" and oid ns rel repl n
  defines "d \<equiv> relation_header oid ns rel repl n @ body"
  assumes "name_ok P ns" and "name_ok P rel" and "replica_of_byte repl = Ok kind" and "n < 2 ^ 16"
  shows "relation_parse P d =
    and_then (parse_fields P d n (length (relation_header oid ns rel repl n)) []) (\<lambda>fs.
      Ok \<lparr>inner = \<lparr>relation_oid = oid, r_name = str_of_bytes rel, r_namespace = str_of_bytes ns,
                   r_fields = fs, replica_id = kind\<rparr>,
          key_fields = keys_of fs, key_indexes = indexes_of fs\<rparr>)"
proof -
  define hdr where "hdr = b_R # to_be_bytes oid"
  have hdr: "length hdr = 5" by (simp add: hdr_def)
  let ?n = "word_of_nat n :: u16"
  let ?d = "(hdr @ ns @ 0 # rel @ 0 # repl # to_be_bytes ?n) @ body"
  have d: "d = ?d" by (simp add: d_def relation_header_def hdr_def)
  have n: "unat ?n = n" using assms(5) by (simp add: unat_of_nat)
  have pre: "length (relation_header oid ns rel repl n) = 5 + length ns + 1 + length rel + 1 + 3"
    by (simp add: relation_header_def)
  have oid: "read_be ?d 1 4 = Ok oid"
    by (rule read_be_at_32 [where pre = "[b_R]"]) (simp_all add: hdr_def)
  have s1: "extract_string P (drop 5 ?d) = Ok (str_of_bytes ns)"
    using assms(2) by (simp add: hdr extract_string_name)
  have s2: "extract_string P (drop (5 + length ns + 1) ?d) = Ok (str_of_bytes rel)"
    using assms(3) by (simp add: hdr extract_string_name)
  have repl: "(index ?d (5 + length ns + 1 + length rel + 1) :: byte dres) = Ok repl"
    by (simp add: nth_append hdr)
  have cols: "read_be ?d (5 + length ns + 1 + length rel + 1 + 1) 2 = Ok ?n"
    by (rule read_be_at_16 [where pre = "hdr @ ns @ 0 # rel @ 0 # [repl]"]) (simp_all add: hdr)
  show ?thesis
    unfolding d pre relation_parse_def
    using oid s1 s2 repl cols assms(4)
    by (simp add: Let_def hdr n)
qed

lemma relation_roundtrip:
  assumes "name_ok P ns" and "name_ok P rel" and "replica_of_byte repl = Ok kind"
    and "\<forall>c\<in>set cols. column_ok P c" and "length cols < 2 ^ 16"
  shows "relation_parse P (enc_relation oid ns rel repl cols @ rest) =
    Ok \<lparr>inner = \<lparr>relation_oid = oid, r_name = str_of_bytes rel, r_namespace = str_of_bytes ns,
                 r_fields = fields_of cols, replica_id = kind\<rparr>,
        key_fields = keys_of (fields_of cols),
        key_indexes = indexes_of (fields_of cols)\<rparr>"
  using parse_fields_enc_columns [OF assms(4), of "relation_header oid ns rel repl (length cols)" rest "[]"]
  by (simp add: enc_relation_header relation_parse_header [OF assms(1-3,5)])

text \<open>The first column the decoder does not accept decides the error.\<close>

lemma parse_fields_first_bad:
  assumes "\<forall>c\<in>set cols. column_ok P c" and "parse_field P (bad @ rest) = Err e"
  shows "parse_fields P (pre @ concat (map enc_column cols) @ bad @ rest) (length cols + Suc n) (length pre) fs = Err e"
  using assms
proof (induction cols arbitrary: pre fs)
  case Nil
  then show ?case by simp
next
  case (Cons c cols)
  have pos: "length pre + byte_size_len (length (wc_name c)) = length (pre @ enc_column c)"
    by simp
  have "parse_field P (enc_column c @ concat (map enc_column cols) @ bad @ rest) =
      Ok (if physical c then Physical (field_of c) (byte_size_len (length (wc_name c)))
          else Logical (byte_size_len (length (wc_name c))))"
    using Cons.prems by (intro parse_field_enc_column) simp
  then show ?case
    using Cons.IH [of "pre @ enc_column c" "if physical c then fs @ [field_of c] else fs"] Cons.prems
    by (cases "physical c") (simp_all add: pos fields_of_def del: length_append)
qed

lemma parse_field_bad_type:
  assumes "name_ok P (wc_name c)" and "physical c" and "wc_oid c \<notin> {16, 20, 23, 25, 1114}"
  shows "parse_field P (enc_column c @ rest) = Err (InvalidOid (wc_oid c))"
proof -
  let ?d = "enc_column c @ rest" and ?n = "length (wc_name c)"
  have name: "extract_string P (drop 1 ?d) = Ok (str_of_bytes (wc_name c))"
    using assms(1) by (simp add: enc_column_def extract_string_name)
  have oid: "read_be ?d (1 + ?n + 1) 4 = Ok (wc_oid c)"
    by (rule read_be_at_32 [where pre = "wc_flag c # wc_name c @ [0]"]) (simp_all add: enc_column_def)
  have m: "read_be ?d (1 + ?n + 1 + 4) 4 = Ok (wc_mod c)"
    by (rule read_be_at_32 [where pre = "wc_flag c # wc_name c @ 0 # to_be_bytes (wc_oid c)"])
      (simp_all add: enc_column_def)
  have "10 \<le> length ?d" and "(index ?d 0 :: byte dres) = Ok (wc_flag c)"
    by (simp_all add: byte_size_len_def enc_column_def)
  then show ?thesis
    using assms name oid m
    by (simp add: parse_field_def physical_def Let_def kind_from_oid_mod_def)
qed

lemma relation_parse_bad_type:
  assumes "name_ok P ns" and "name_ok P rel" and "replica_of_byte repl = Ok kind"
    and "\<forall>c\<in>set cols. column_ok P c" and "length (cols @ bad # others) < 2 ^ 16"
    and "name_ok P (wc_name bad)" and "physical bad" and "wc_oid bad \<notin> {16, 20, 23, 25, 1114}"
  shows "relation_parse P (enc_relation oid ns rel repl (cols @ bad # others)) = Err (InvalidOid (wc_oid bad))"
proof -
  let ?n = "length (cols @ bad # others)"
  let ?hdr = "relation_header oid ns rel repl ?n" and ?more = "concat (map enc_column others)"
  have n: "?n = length cols + Suc (length others)" by simp
  have "parse_fields P (?hdr @ concat (map enc_column cols) @ enc_column bad @ ?more) ?n (length ?hdr) [] =
      Err (InvalidOid (wc_oid bad))"
    unfolding n using assms(4) by (intro parse_fields_first_bad parse_field_bad_type assms(6-8))
  then show ?thesis
    using relation_parse_header [OF assms(1-3,5), of oid "concat (map enc_column (cols @ bad # others))"]
    by (simp add: enc_relation_header)
qed

end

subsection \<open>The key columns of a decoded relation\<close>

lemma keys_of_snoc:
  "keys_of (fs @ [f]) = keys_of fs @ (if f_is_key f then [\<lparr>kf_name = f_name f, kf_kind = f_kind f\<rparr>] else [])"
  by (simp add: keys_of_def List.map_filter_def)

lemma indexes_of_snoc: "indexes_of (fs @ [f]) = indexes_of fs @ (if f_is_key f then [length fs] else [])"
  by (simp add: indexes_of_def List.map_filter_def enumerate_append_eq)

lemma keys_of_Nil [simp]: "keys_of [] = []"
  by (simp add: keys_of_def List.map_filter_def)

lemma indexes_of_Nil [simp]: "indexes_of [] = []"
  by (simp add: indexes_of_def List.map_filter_def)

lemma mem_indexes_of: "i \<in> set (indexes_of fs) \<longleftrightarrow> i < length fs \<and> f_is_key (fs ! i)"
proof (induction fs rule: rev_induct)
  case Nil
  then show ?case by simp
next
  case (snoc f fs)
  consider "i < length fs" | "i = length fs" | "length fs < i" by linarith
  then show ?case
    using snoc.IH by cases (simp_all add: indexes_of_snoc nth_append)
qed

lemma set_indexes_of: "set (indexes_of fs) = {i. i < length fs \<and> f_is_key (fs ! i)}"
  using mem_indexes_of by blast

lemma sorted_indexes_of: "sorted_wrt (<) (indexes_of fs)"
  by (induction fs rule: rev_induct) (auto simp: indexes_of_snoc sorted_wrt_append set_indexes_of)

lemma length_keys_of: "length (keys_of fs) = length (indexes_of fs)"
  by (induction fs rule: rev_induct) (auto simp: indexes_of_snoc keys_of_snoc)

lemma keys_of_map:
  "keys_of fs = map (\<lambda>i. \<lparr>kf_name = f_name (fs ! i), kf_kind = f_kind (fs ! i)\<rparr>) (indexes_of fs)"
  by (induction fs rule: rev_induct)
    (simp_all add: indexes_of_snoc keys_of_snoc nth_append set_indexes_of)

text \<open>The type invariant: what every decoded relation satisfies.\<close>

definition wf_relation_data :: "platform \<Rightarrow> RelationData \<Rightarrow> bool" where
  "wf_relation_data P rd \<longleftrightarrow>
     length (r_fields (inner rd)) < 2 ^ 16 \<and>
     utf8_valid P (bytes_of_str (r_name (inner rd))) \<and>
     utf8_valid P (bytes_of_str (r_namespace (inner rd))) \<and>
     (\<forall>f\<in>set (r_fields (inner rd)). utf8_valid P (bytes_of_str (f_name f))) \<and>
     set (key_indexes rd) = {i. i < length (r_fields (inner rd)) \<and> f_is_key (r_fields (inner rd) ! i)} \<and>
     sorted_wrt (<) (key_indexes rd) \<and>
     key_fields rd =
       map (\<lambda>i. \<lparr>kf_name = f_name (r_fields (inner rd) ! i), kf_kind = f_kind (r_fields (inner rd) ! i)\<rparr>)
         (key_indexes rd)"

context utf8_platform begin

lemma parse_field_name:
  "parse_field P d = Ok (Physical f b) \<Longrightarrow> utf8_valid P (bytes_of_str (f_name f))"
  by (auto simp: parse_field_def outcome_inv Let_def split: if_splits dest: extract_string_sound)

lemma parse_fields_inv:
  "parse_fields P data n pos fs = Ok gs \<Longrightarrow> (\<forall>f\<in>set fs. utf8_valid P (bytes_of_str (f_name f))) \<Longrightarrow>
   length gs \<le> length fs + n \<and> (\<forall>f\<in>set gs. utf8_valid P (bytes_of_str (f_name f)))"
proof (induction n arbitrary: pos fs)
  case 0
  then show ?case by simp
next
  case (Suc n)
  from Suc.prems(1) obtain d r where r: "parse_field P d = Ok r"
    and rest: "(case r of Physical f b \<Rightarrow> parse_fields P data n (pos + b) (fs @ [f])
                | Logical b \<Rightarrow> parse_fields P data n (pos + b) fs) = Ok gs"
    by (auto simp: outcome_inv)
  show ?case
  proof (cases r)
    case (Physical f b)
    then have "utf8_valid P (bytes_of_str (f_name f))" using r by (simp add: parse_field_name)
    with Physical rest Suc.prems(2) Suc.IH [of "pos + b" "fs @ [f]"] show ?thesis by simp
  next
    case (Logical b)
    with rest Suc.prems(2) Suc.IH [of "pos + b" fs] show ?thesis by simp
  qed
qed

lemma relation_parse_wf: "relation_parse P data = Ok rd \<Longrightarrow> wf_relation_data P rd"
proof -
  assume a: "relation_parse P data = Ok rd"
  then obtain oid d1 d2 ns rel kind fs pos and cols :: u16 where
    ns: "extract_string P d1 = Ok ns" and rel: "extract_string P d2 = Ok rel"
    and fs: "parse_fields P data (unat cols) pos [] = Ok fs"
    and rd: "rd = \<lparr>inner = \<lparr>relation_oid = oid, r_name = rel, r_namespace = ns, r_fields = fs,
        replica_id = kind\<rparr>, key_fields = keys_of fs, key_indexes = indexes_of fs\<rparr>"
    by (auto simp: relation_parse_def outcome_inv Let_def split: if_splits)
  have "length fs < 2 ^ 16"
    using parse_fields_inv [OF fs] unsigned_less [of cols, where ?'a = nat] by simp
  then show ?thesis
    using parse_fields_inv [OF fs] extract_string_sound [OF ns] extract_string_sound [OF rel]
    by (simp add: wf_relation_data_def rd set_indexes_of sorted_indexes_of keys_of_map)
qed

end

subsection \<open>Inputs on which the decoder fails\<close>

context utf8_platform begin

text \<open>
  A message cut inside its two-byte column count passes the length check, which asks for one byte
  less than the reads below it use.
\<close>

lemma relation_parse_cut_in_column_count:
  fixes oid :: u32
  assumes "name_ok P ns" and "name_ok P rel" and "replica_of_byte repl = Ok kind"
    and "0 < length ns + length rel"
  shows "relation_parse P (b_R # to_be_bytes oid @ ns @ 0 # rel @ 0 # repl # [c]) = Panic"
proof -
  define hdr where "hdr = b_R # to_be_bytes oid"
  have hdr: "length hdr = 5" by (simp add: hdr_def)
  let ?d = "hdr @ ns @ 0 # rel @ 0 # repl # [c]"
  have s1: "extract_string P (drop 5 ?d) = Ok (str_of_bytes ns)"
    using assms(1) by (simp add: hdr extract_string_name)
  have s2: "extract_string P (drop (5 + length ns + 1) ?d) = Ok (str_of_bytes rel)"
    using assms(2) by (simp add: hdr extract_string_name)
  have oid: "read_be ?d 1 4 = Ok oid"
    by (rule read_be_at_32 [where pre = "[b_R]"]) (simp_all add: hdr_def)
  have repl: "(index ?d (5 + length ns + 1 + length rel + 1) :: byte dres) = Ok repl"
    by (simp add: nth_append hdr)
  have cols: "(read_be ?d (5 + length ns + 1 + length rel + 1 + 1) 2 :: u16 dres) = Panic"
    by (simp add: outcome_inv hdr)
  have "relation_parse P ?d = Panic"
    unfolding relation_parse_def
    using oid s1 s2 repl cols assms(3,4) by (simp add: Let_def hdr)
  then show ?thesis by (simp add: hdr_def)
qed

text \<open>
  A column cut inside its type OID or modifier: the check asks for ten bytes, whatever the length of
  the name.
\<close>

lemma parse_field_cut_in_type:
  assumes "name_ok P name" and "flag = 0 \<or> flag = 1" and "length tail < 8" and "8 \<le> length name + length tail"
  shows "parse_field P (flag # name @ 0 # tail) = Panic"
proof -
  let ?d = "flag # name @ 0 # tail"
  have s: "extract_string P (drop 1 ?d) = Ok (str_of_bytes name)"
    using assms(1) by (simp add: extract_string_name)
  have m: "(read_be ?d (1 + length name + 1 + 4) 4 :: u32 dres) = Panic"
    using assms(3) by (simp add: outcome_inv)
  have oid: "(read_be ?d (1 + length name + 1) 4 :: u32 dres) = Panic \<or>
      (\<exists>x. (read_be ?d (1 + length name + 1) 4 :: u32 dres) = Ok x)"
    by (auto simp: outcome_inv)
  show ?thesis
    using s m oid assms(2,4) by (auto simp: parse_field_def Let_def)
qed

end

text \<open>
  A name is read up to its terminator.  On every input \<open>extract_string\<close> returns the bytes before
  the first zero byte as a string if they are UTF-8 (the ASCII fast path accepts nothing the validator
  rejects), the UTF-8 error if they are not, and the truncation error if there is no zero byte.
\<close>

lemma extract_string_reads_c_string:
  assumes "utf8_platform P"
  shows "extract_string P data =
    (case position (\<lambda>b. b = 0) data of
       None \<Rightarrow> Err TruncatedInput
     | Some n \<Rightarrow>
         if utf8_valid P (take n data) then Ok (str_of_bytes (take n data)) else Err NonUtf8Simd)"
proof (cases "position (\<lambda>b. b = 0) data")
  case None
  then show ?thesis by (simp add: extract_string_def utf8_platform.null_word [OF assms])
next
  case (Some n)
  then have "n \<le> length data" by (simp add: position_Some_iff)
  with Some show ?thesis
    using utf8_platform.ascii_valid [OF assms, of "take n data"]
    by (simp add: extract_string_def utf8_platform.null_word [OF assms] ascii_def)
qed

subsection \<open>Properties\<close>

text \<open>
  C15: decoding inverts the wire format of Relation messages: for every relation with valid names, a
  known replica identity and columns of the five supported types (or generated ones, which are
  skipped), the decoder returns the relation with its physical columns in order, whatever follows the
  message, and the key columns with their positions.
\<close>

theorem relation_message_roundtrip:
  assumes "utf8_platform P"
    and "name_ok P ns" and "name_ok P rel" and "replica_of_byte repl = Ok kind"
    and "\<forall>c\<in>set cols. column_ok P c" and "length cols < 2 ^ 16"
  shows "relation_parse P (enc_relation oid ns rel repl cols @ rest) =
    Ok \<lparr>inner = \<lparr>relation_oid = oid, r_name = str_of_bytes rel, r_namespace = str_of_bytes ns,
                 r_fields = fields_of cols, replica_id = kind\<rparr>,
        key_fields = keys_of (fields_of cols),
        key_indexes = indexes_of (fields_of cols)\<rparr>"
  by (rule utf8_platform.relation_roundtrip [OF assms])

theorem relation_message_roundtrip_witness:
  "relation_parse x86_platform
     (enc_relation 7 [112] [117, 115] b_d
       [\<lparr>wc_flag = 1, wc_name = [105, 100], wc_oid = 23, wc_mod = 0\<rparr>,
        \<lparr>wc_flag = 2, wc_name = [103], wc_oid = 99, wc_mod = 0\<rparr>,
        \<lparr>wc_flag = 0, wc_name = [110], wc_oid = 25, wc_mod = 0\<rparr>] @ []) =
   Ok \<lparr>inner = \<lparr>relation_oid = 7, r_name = ''us'', r_namespace = ''p'',
                r_fields = [\<lparr>f_is_key = True, f_name = ''id'', f_kind = FK_Int4\<rparr>,
                            \<lparr>f_is_key = False, f_name = ''n'', f_kind = FK_Text\<rparr>],
                replica_id = Keys\<rparr>,
       key_fields = [\<lparr>kf_name = ''id'', kf_kind = FK_Int4\<rparr>], key_indexes = [0]\<rparr>"
proof -
  let ?cols = "[\<lparr>wc_flag = 1, wc_name = [105, 100], wc_oid = 23, wc_mod = 0\<rparr>,
        \<lparr>wc_flag = 2, wc_name = [103], wc_oid = 99, wc_mod = 0\<rparr>,
        \<lparr>wc_flag = 0, wc_name = [110], wc_oid = 25, wc_mod = 0\<rparr> :: wire_column]"
  have "fields_of ?cols = [\<lparr>f_is_key = True, f_name = ''id'', f_kind = FK_Int4\<rparr>,
      \<lparr>f_is_key = False, f_name = ''n'', f_kind = FK_Text\<rparr>]"
    by (simp add: fields_of_def physical_def field_of_def str_of_bytes_def char_of_byte_def char_of_def bit_Suc_0_iff
        kind_of_oid_def kind_from_oid_mod_def)
  then show ?thesis
    by (subst relation_message_roundtrip [OF x86.utf8_platform_axioms, where kind = Keys])
      (auto simp: name_ok_def x86_platform_def replica_of_byte_def column_ok_def physical_def
        str_of_bytes_def char_of_byte_def char_of_def bit_Suc_0_iff keys_of_def indexes_of_def List.map_filter_def)
qed

text \<open>
  Two length checks of the relation decoder are too weak, so truncated messages panic instead of
  being reported.  A message that ends after the first byte of its two-byte column count passes the check
  of line 49, which asks for one byte less than the code then reads; and a column that ends inside its
  type passes the check of line 151 as soon as its name is long enough for the ten bytes asked for.
\<close>

lemma truncated_relation_panics:
  fixes oid :: u32
  assumes "utf8_platform P"
    and "name_ok P ns" and "name_ok P rel" and "replica_of_byte repl = Ok kind" and "0 < length ns + length rel"
    and "name_ok P name" and "flag = 0 \<or> flag = 1" and "length tail < 8" and "8 \<le> length name + length tail"
  shows "relation_parse P (b_R # to_be_bytes oid @ ns @ 0 # rel @ 0 # repl # [c]) = Panic \<and>
    parse_field P (flag # name @ 0 # tail) = Panic"
  using utf8_platform.relation_parse_cut_in_column_count [OF assms(1-5)]
    utf8_platform.parse_field_cut_in_type [OF assms(1,6-9)] by blast

lemma truncated_relation_panics_witness:
  "relation_parse x86_platform (b_R # to_be_bytes (1 :: u32) @ [112] @ 0 # [117] @ 0 # b_d # [0]) = Panic \<and>
   parse_field x86_platform (1 # [97, 98, 99, 100, 101, 102, 103, 104] @ 0 # []) = Panic"
  by (rule truncated_relation_panics [OF x86.utf8_platform_axioms, where kind = Keys])
    (auto simp: name_ok_def x86_platform_def replica_of_byte_def)

end
