(* ===== verification/Decoder_Fixtures.thy ===== *)
theory Decoder_Fixtures imports Relation_Decoder begin

text \<open>
  The relations the unit tests of \<open>cdc-wal-reader/src/decoder\<close> use (\<open>common.rs\<close>, \<open>delete.rs\<close>,
  \<open>insert.rs\<close>): the concrete inputs on which the properties of the decoders are witnessed.
\<close>

definition get_example_rel :: Relation where
  "get_example_rel =
     \<lparr>relation_oid = 1, r_name = ''users'', r_namespace = ''public'',
      r_fields =
        [\<lparr>f_is_key = True, f_name = ''id'', f_kind = FK_Int4\<rparr>,
         \<lparr>f_is_key = False, f_name = ''name'', f_kind = FK_Text\<rparr>],
      replica_id = Row\<rparr>"

definition get_example_rel_data :: RelationData where
  "get_example_rel_data =
     \<lparr>inner = get_example_rel, key_fields = [\<lparr>kf_name = ''id'', kf_kind = FK_Int4\<rparr>], key_indexes = [0]\<rparr>"

definition get_example_rel_map :: "u32 \<rightharpoonup> RelationData" where
  "get_example_rel_map = [1 \<mapsto> get_example_rel_data]"

definition get_example_rel_keys :: Relation where
  "get_example_rel_keys =
     \<lparr>relation_oid = 1, r_name = ''users'', r_namespace = ''public'',
      r_fields =
        [\<lparr>f_is_key = True, f_name = ''id'', f_kind = FK_Int4\<rparr>,
         \<lparr>f_is_key = False, f_name = ''name'', f_kind = FK_Text\<rparr>],
      replica_id = Keys\<rparr>"

definition get_example_rel_data_keys :: RelationData where
  "get_example_rel_data_keys =
     \<lparr>inner = get_example_rel_keys, key_fields = [\<lparr>kf_name = ''id'', kf_kind = FK_Int4\<rparr>], key_indexes = [0]\<rparr>"

definition get_example_rel_map_keys :: "u32 \<rightharpoonup> RelationData" where
  "get_example_rel_map_keys = [1 \<mapsto> get_example_rel_data_keys]"

definition col_byte_id :: PgValue where
  "col_byte_id = Int4 1"

definition col_text_name :: PgValue where
  "col_text_name = Text ''hello''"

text \<open>\<open>get_tests_rel_data\<close> of \<open>delete.rs\<close>: three columns, the first of them the key.\<close>

definition get_tests_rel :: Relation where
  "get_tests_rel =
     \<lparr>relation_oid = 16386, r_name = ''users'', r_namespace = ''public'',
      r_fields =
        [\<lparr>f_is_key = True, f_name = ''id'', f_kind = FK_Int4\<rparr>,
         \<lparr>f_is_key = False, f_name = ''name'', f_kind = FK_Text\<rparr>,
         \<lparr>f_is_key = False, f_name = ''email'', f_kind = FK_Text\<rparr>],
      replica_id = Keys\<rparr>"

definition get_tests_rel_data :: RelationData where
  "get_tests_rel_data =
     \<lparr>inner = get_tests_rel, key_fields = [\<lparr>kf_name = ''id'', kf_kind = FK_Int4\<rparr>], key_indexes = [0]\<rparr>"

definition get_tests_rel_map :: "u32 \<rightharpoonup> RelationData" where
  "get_tests_rel_map = [16386 \<mapsto> get_tests_rel_data]"

text \<open>\<open>complex_relation\<close> of \<open>insert.rs\<close>.\<close>

definition complex_relation :: RelationData where
  "complex_relation =
     \<lparr>inner =
        \<lparr>relation_oid = 16390, r_name = ''users'', r_namespace = ''public'',
         r_fields =
           [\<lparr>f_is_key = True, f_name = ''id'', f_kind = FK_Int4\<rparr>,
            \<lparr>f_is_key = False, f_name = ''name'', f_kind = FK_Text\<rparr>,
            \<lparr>f_is_key = False, f_name = ''email'', f_kind = FK_Text\<rparr>],
         replica_id = Row\<rparr>,
      key_fields = [\<lparr>kf_name = ''id'', kf_kind = FK_Int4\<rparr>], key_indexes = [0]\<rparr>"

definition complex_relation_map :: "u32 \<rightharpoonup> RelationData" where
  "complex_relation_map = [16390 \<mapsto> complex_relation]"

lemmas fixtures =
  get_example_rel_def get_example_rel_data_def get_example_rel_map_def get_example_rel_keys_def
  get_example_rel_data_keys_def get_example_rel_map_keys_def col_byte_id_def col_text_name_def
  get_tests_rel_def get_tests_rel_data_def get_tests_rel_map_def complex_relation_def
  complex_relation_map_def

text \<open>The fixtures satisfy the invariant of decoded relations.\<close>

lemma ascii_str [simp]: "list_all (\<lambda>c. of_char c < (128 :: nat)) s \<Longrightarrow> utf8_valid x86_platform (bytes_of_str s)"
proof -
  assume "list_all (\<lambda>c. of_char c < (128 :: nat)) s"
  then have "ascii (bytes_of_str s)"
    by (induction s) (auto simp: ascii_def bytes_of_str_def byte_of_char_def word_less_nat_alt unat_of_nat)
  then show ?thesis by (rule x86.ascii_valid)
qed


lemma fixtures_wf:
  "wf_relation_data x86_platform get_example_rel_data"
  "wf_relation_data x86_platform get_example_rel_data_keys"
  "wf_relation_data x86_platform get_tests_rel_data"
  "wf_relation_data x86_platform complex_relation"
  by (auto simp: wf_relation_data_def fixtures less_Suc_eq nth_Cons' split: if_splits)

end
