(* ===== verification/Tuple_Decoder.thy ===== *)
theory Tuple_Decoder imports Decoder_Fixtures begin

text \<open>
  \<open>cdc-wal-reader/src/decoder/tuple_data.rs\<close>: the decoders of one column value, of a row (the O and
  N tuples) and of a replica identity key (the K tuple), with their unrolled loops.  Then the wire
  format of a tuple as an encoder, and what the decoders return on it.
\<close>

subsection \<open>The decoders\<close>

definition simd_from_utf8 :: "platform \<Rightarrow> byte list \<Rightarrow> string dres" where
  "simd_from_utf8 P s = (if utf8_valid P s then Ok (str_of_bytes s) else Err NonUtf8Simd)"

definition parse_i64 :: "nat \<Rightarrow> byte list \<Rightarrow> i64 dres" where
  "parse_i64 l data =
     (if l \<noteq> 8 then Err (WrongFieldKind FK_Int8)
      else if length data < 13 then Err TruncatedInput
      else read_be data 5 8)"

definition parse_binary :: "platform \<Rightarrow> FieldKind \<Rightarrow> nat \<Rightarrow> byte list \<Rightarrow> PgValue dres" where
  "parse_binary P k l data =
     (case k of
        FK_Int4 \<Rightarrow>
          (if l \<noteq> 4 then Err (WrongFieldKind FK_Int4)
           else if length data < 9 then Err TruncatedInput
           else and_then (read_be data 5 4) (\<lambda>n. Ok (Int4 n)))
      | FK_Text \<Rightarrow>
          and_then (slice_range data 5 (5 + l)) (\<lambda>s.
          and_then (simd_from_utf8 P s) (\<lambda>t. Ok (Text t)))
      | FK_Int8 \<Rightarrow> and_then (parse_i64 l data) (\<lambda>n. Ok (Int8 n))
      | FK_Bool \<Rightarrow>
          (if l \<noteq> 1 then Err (WrongFieldKind FK_Bool)
           else if length data < 6 then Err TruncatedInput
           else and_then (index data 5) (\<lambda>b. Ok (Bool (b \<noteq> 0))))
      | FK_Timestamp \<Rightarrow> and_then (parse_i64 l data) (\<lambda>t. Ok (Timestamp t)))"

text \<open>The function is generic over the trait \<open>FieldAccess\<close>; \<open>get_kind\<close> is the method it calls.\<close>

definition parse_value :: "platform \<Rightarrow> ('f \<Rightarrow> FieldKind) \<Rightarrow> byte list \<Rightarrow> 'f \<Rightarrow> bool \<Rightarrow> (PgValue \<times> nat) dres" where
  "parse_value P get_kind data field is_update =
     (if data = [] then Err TruncatedInput
      else
        and_then (index data 0) (\<lambda>tag.
          if tag = b_n then Ok (Null, 1)
          else if tag = b_u then
            (if is_update then Ok (Toasted, 1) else Err ToastedValueOnNonUpdate)
          else if tag = b_t then
            (if length data < 5 then Err TruncatedInput
             else
               and_then (read_be data 1 4) (\<lambda>l32.
                 let l = unat (l32 :: u32) in
                 if length data < 5 + l then Err TruncatedInput
                 else
                   (let final_l = 5 + l in
                    and_then (slice_range data 5 final_l) (\<lambda>s.
                    and_then (simd_from_utf8 P s) (\<lambda>t. Ok (Text t, final_l))))))
          else if tag = b_b then
            (if length data < 5 then Err TruncatedInput
             else
               and_then (read_be data 1 4) (\<lambda>l32.
                 let l = unat (l32 :: u32); final_l = 5 + l in
                 and_then (parse_binary P (get_kind field) l data) (\<lambda>v. Ok (v, final_l))))
          else Err (WrongColTypeKey tag)))"

text \<open>\<open>for field in fields\<close>, the body of the unrolled \<open>num_cols\<close>.\<close>

fun fields_loop :: "platform \<Rightarrow> ('f \<Rightarrow> FieldKind) \<Rightarrow> byte list \<Rightarrow> bool \<Rightarrow>
    'f list \<Rightarrow> nat \<Rightarrow> PgValue list \<Rightarrow> (PgValue list \<times> nat) dres" where
  "fields_loop P get_kind data is_update [] last_pos cols = Ok (cols, last_pos)"
| "fields_loop P get_kind data is_update (f # fs) last_pos cols =
     and_then (slice_from data last_pos) (\<lambda>d.
     and_then (parse_value P get_kind d f is_update) (\<lambda>(v, len).
       fields_loop P get_kind data is_update fs (last_pos + len) (cols @ [v])))"

definition num_cols :: "platform \<Rightarrow> nat \<Rightarrow> byte list \<Rightarrow> Field list \<Rightarrow> bool \<Rightarrow> (PgValue list \<times> nat) dres" where
  "num_cols P N data fs is_update = fields_loop P field_get_kind data is_update (take N fs) 2 []"

text \<open>\<open>for i in 0..n_cols\<close> with \<open>fields[i]\<close>, the fallback of both functions.\<close>

fun index_loop :: "platform \<Rightarrow> ('f \<Rightarrow> FieldKind) \<Rightarrow> byte list \<Rightarrow> 'f list \<Rightarrow> bool \<Rightarrow>
    nat list \<Rightarrow> nat \<Rightarrow> PgValue list \<Rightarrow> (PgValue list \<times> nat) dres" where
  "index_loop P get_kind data fs is_update [] last_pos cols = Ok (cols, last_pos)"
| "index_loop P get_kind data fs is_update (i # is) last_pos cols =
     and_then (slice_from data last_pos) (\<lambda>d.
     and_then (index fs i) (\<lambda>f.
     and_then (parse_value P get_kind d f is_update) (\<lambda>(v, len).
       index_loop P get_kind data fs is_update is (last_pos + len) (cols @ [v]))))"

definition tuple_parse :: "platform \<Rightarrow> byte list \<Rightarrow> Field list \<Rightarrow> bool \<Rightarrow> (PgValue list \<times> nat) dres" where
  "tuple_parse P data fs is_update =
     (if length data < 2 then Err TruncatedInput
      else
        and_then (read_be data 0 2) (\<lambda>n_cols.
          if n_cols > (word_of_nat (length fs) :: u16) then Err CorruptedInput
          else if n_cols = 1 then num_cols P 1 data fs is_update
          else if n_cols = 2 then num_cols P 2 data fs is_update
          else if n_cols = 3 then num_cols P 3 data fs is_update
          else if n_cols = 4 then num_cols P 4 data fs is_update
          else if n_cols = 5 then num_cols P 5 data fs is_update
          else if n_cols = 6 then num_cols P 6 data fs is_update
          else index_loop P field_get_kind data fs is_update [0..<unat n_cols] 2 []))"

text \<open>
  The key decoder's unrolled loop: \<open>is\<close> are the column numbers still to visit.  The early return
  tests \<open>i\<close>, the column number, against the number of keys.
\<close>

fun keys_loop :: "platform \<Rightarrow> byte list \<Rightarrow> KeyField list \<Rightarrow> nat list \<Rightarrow> nat \<Rightarrow>
    nat list \<Rightarrow> nat \<Rightarrow> nat \<Rightarrow> PgValue list \<Rightarrow> (PgValue list \<times> nat) dres" where
  "keys_loop P data fs indexes total_fields [] last_pos key_idx cols = Ok (cols, last_pos)"
| "keys_loop P data fs indexes total_fields (i # is) last_pos key_idx cols =
     and_then (index indexes key_idx) (\<lambda>k.
       if i = k then
         and_then (slice_from data last_pos) (\<lambda>d.
         and_then (index fs key_idx) (\<lambda>f.
         and_then (parse_value P keyfield_get_kind d f False) (\<lambda>(v, len).
           if i < length indexes - 1
           then keys_loop P data fs indexes total_fields is (last_pos + len) (key_idx + 1) (cols @ [v])
           else Ok (cols @ [v], last_pos + len + total_fields - i))))
       else keys_loop P data fs indexes total_fields is (last_pos + 1) key_idx cols)"

definition num_cols_keys :: "platform \<Rightarrow> nat \<Rightarrow> byte list \<Rightarrow> KeyField list \<Rightarrow> nat list \<Rightarrow> nat \<Rightarrow>
    (PgValue list \<times> nat) dres" where
  "num_cols_keys P N data fs indexes total_fields =
     keys_loop P data fs indexes total_fields [0..<N] 2 0 []"

definition parse_keys :: "platform \<Rightarrow> byte list \<Rightarrow> KeyField list \<Rightarrow> nat list \<Rightarrow> nat \<Rightarrow>
    (PgValue list \<times> nat) dres" where
  "parse_keys P data fs indexes total_fields =
     (if length data < 2 then Err TruncatedInput
      else
        and_then (read_be data 0 2) (\<lambda>n_cols :: u16.
          if unat n_cols > total_fields then Err CorruptedInput
          else if n_cols = 1 then num_cols_keys P 1 data fs indexes total_fields
          else if n_cols = 2 then num_cols_keys P 2 data fs indexes total_fields
          else if n_cols = 3 then num_cols_keys P 3 data fs indexes total_fields
          else if n_cols = 4 then num_cols_keys P 4 data fs indexes total_fields
          else if n_cols = 5 then num_cols_keys P 5 data fs indexes total_fields
          else if n_cols = 6 then num_cols_keys P 6 data fs indexes total_fields
          else index_loop P keyfield_get_kind data fs False [0..<unat n_cols] 2 []))"

subsection \<open>One value: bounds and panics\<close>

lemma parse_value_bounds:
  "parse_value P get_kind data f upd = Ok (v, len) \<Longrightarrow> 1 \<le> len \<and> len \<le> length data"
  by (auto simp: parse_value_def parse_binary_def parse_i64_def simd_from_utf8_def outcome_inv Let_def
      Suc_le_eq split: if_splits FieldKind.splits)

lemma parse_value_Panic_iff:
  "parse_value P get_kind data f upd = Panic \<longleftrightarrow>
     5 \<le> length data \<and> data ! 0 = b_b \<and> get_kind f = FK_Text \<and>
     length data < 5 + unat (from_be_bytes (take 4 (drop 1 data)) :: u32)"
  by (cases "get_kind f")
    (auto simp: parse_value_def parse_binary_def parse_i64_def simd_from_utf8_def outcome_inv Let_def
      split: if_splits)

lemma fields_loop_no_panic:
  assumes "\<forall>f\<in>set fs. get_kind f \<noteq> FK_Text" and "last_pos \<le> length data"
  shows "fields_loop P get_kind data upd fs last_pos cols \<noteq> Panic"
  using assms
proof (induction fs arbitrary: last_pos cols)
  case Nil
  then show ?case by simp
next
  case (Cons f fs)
  have "parse_value P get_kind (drop last_pos data) f upd \<noteq> Panic"
    using Cons.prems by (simp add: parse_value_Panic_iff)
  moreover have "last_pos + len \<le> length data"
    if "parse_value P get_kind (drop last_pos data) f upd = Ok (v, len)" for v len
    using parse_value_bounds [OF that] Cons.prems(2) by auto
  ultimately show ?case
    using Cons by (auto simp: outcome_inv)
qed

subsection \<open>The unrolled loops are one loop\<close>

lemma index_loop_fields_loop:
  assumes "a \<le> n" and "n \<le> length fs"
  shows "index_loop P get_kind data fs upd [a..<n] last_pos cols =
    fields_loop P get_kind data upd (drop a (take n fs)) last_pos cols"
  using assms
proof (induction "n - a" arbitrary: a last_pos cols)
  case 0
  then show ?case by simp
next
  case (Suc m)
  then have "a < n" by simp
  then have "[a..<n] = a # [Suc a..<n]" and "drop a (take n fs) = fs ! a # drop (Suc a) (take n fs)"
    using Suc.prems by (simp_all add: upt_conv_Cons Cons_nth_drop_Suc [symmetric])
  moreover have "m = n - Suc a" using Suc.hyps(2) by simp
  ultimately show ?case
    using Suc.hyps(1) [of "Suc a"] Suc.prems \<open>a < n\<close> by simp
qed

text \<open>The specification the six unrolled copies and the fallback implement.\<close>

definition tuple_spec :: "platform \<Rightarrow> byte list \<Rightarrow> Field list \<Rightarrow> bool \<Rightarrow> (PgValue list \<times> nat) dres" where
  "tuple_spec P data fs is_update =
     (if length data < 2 then Err TruncatedInput
      else if length fs < be_nat (take 2 data) then Err CorruptedInput
      else fields_loop P f_kind data is_update (take (be_nat (take 2 data)) fs) 2 [])"

lemma unat_from_be_16:
  "length bs = 2 \<Longrightarrow> unat (from_be_bytes bs :: u16) = be_nat bs"
  using be_nat_less [of bs] by (simp add: from_be_bytes_def unat_of_nat)

lemma unat_from_be_32:
  "length bs = 4 \<Longrightarrow> unat (from_be_bytes bs :: u32) = be_nat bs"
  using be_nat_less [of bs] by (simp add: from_be_bytes_def unat_of_nat)

lemma tuple_parse_spec:
  assumes "length fs < 2 ^ 16"
  shows "tuple_parse P data fs upd = tuple_spec P data fs upd"
proof (cases "length data < 2")
  case True
  then show ?thesis by (simp add: tuple_parse_def tuple_spec_def)
next
  case False
  define n where "n = (from_be_bytes (take 2 data) :: u16)"
  have un: "unat n = be_nat (take 2 data)"
    using False by (simp add: n_def unat_from_be_16)
  have gt: "n > word_of_nat (length fs) \<longleftrightarrow> length fs < unat n"
    using assms by (simp add: word_less_nat_alt unat_of_nat)
  have kinds: "field_get_kind = f_kind" by (simp add: field_get_kind_def fun_eq_iff)
  have idx: "index_loop P f_kind data fs upd [0..<unat n] 2 [] =
      fields_loop P f_kind data upd (take (unat n) fs) 2 []" if "unat n \<le> length fs"
    using that index_loop_fields_loop [of 0 "unat n" fs] by simp
  let ?unrolled = "if n = 1 then num_cols P 1 data fs upd else if n = 2 then num_cols P 2 data fs upd
      else if n = 3 then num_cols P 3 data fs upd else if n = 4 then num_cols P 4 data fs upd
      else if n = 5 then num_cols P 5 data fs upd else if n = 6 then num_cols P 6 data fs upd
      else index_loop P field_get_kind data fs upd [0..<unat n] 2 []"
  consider "n = 1" | "n = 2" | "n = 3" | "n = 4" | "n = 5" | "n = 6"
    | "n \<noteq> 1" "n \<noteq> 2" "n \<noteq> 3" "n \<noteq> 4" "n \<noteq> 5" "n \<noteq> 6" by blast
  then have loop: "?unrolled = fields_loop P f_kind data upd (take (unat n) fs) 2 []"
    if "unat n \<le> length fs"
    using that by cases (simp_all add: idx kinds num_cols_def)
  have "tuple_parse P data fs upd = (if n > word_of_nat (length fs) then Err CorruptedInput else ?unrolled)"
    using False by (simp only: tuple_parse_def n_def read_be_ok and_then.simps drop_0 if_False)
  then have "tuple_parse P data fs upd = (if length fs < unat n then Err CorruptedInput
      else fields_loop P f_kind data upd (take (unat n) fs) 2 [])"
    unfolding gt using loop by (metis not_less)
  then show ?thesis
    using False un by (simp add: tuple_spec_def)
qed

subsection \<open>The wire format of a tuple\<close>

datatype wire_value = WNull | WToasted | WText "byte list" | WBinary "byte list"

fun enc_value :: "wire_value \<Rightarrow> byte list" where
  "enc_value WNull = [b_n]"
| "enc_value WToasted = [b_u]"
| "enc_value (WText bs) = b_t # to_be_bytes (word_of_nat (length bs) :: u32) @ bs"
| "enc_value (WBinary bs) = b_b # to_be_bytes (word_of_nat (length bs) :: u32) @ bs"

definition enc_tuple :: "wire_value list \<Rightarrow> byte list" where
  "enc_tuple ws = to_be_bytes (word_of_nat (length ws) :: u16) @ concat (map enc_value ws)"

fun value_of :: "FieldKind \<Rightarrow> wire_value \<Rightarrow> PgValue" where
  "value_of k WNull = Null"
| "value_of k WToasted = Toasted"
| "value_of k (WText bs) = Text (str_of_bytes bs)"
| "value_of FK_Int4 (WBinary bs) = Int4 (from_be_bytes bs)"
| "value_of FK_Int8 (WBinary bs) = Int8 (from_be_bytes bs)"
| "value_of FK_Timestamp (WBinary bs) = Timestamp (from_be_bytes bs)"
| "value_of FK_Bool (WBinary bs) = Bool (bs \<noteq> [0])"
| "value_of FK_Text (WBinary bs) = Text (str_of_bytes bs)"

fun binary_ok :: "platform \<Rightarrow> FieldKind \<Rightarrow> byte list \<Rightarrow> bool" where
  "binary_ok P FK_Int4 bs = (length bs = 4)"
| "binary_ok P FK_Int8 bs = (length bs = 8)"
| "binary_ok P FK_Timestamp bs = (length bs = 8)"
| "binary_ok P FK_Bool bs = (length bs = 1)"
| "binary_ok P FK_Text bs = (utf8_valid P bs \<and> length bs < 2 ^ 32)"

fun value_ok :: "platform \<Rightarrow> bool \<Rightarrow> FieldKind \<Rightarrow> wire_value \<Rightarrow> bool" where
  "value_ok P upd k WNull = True"
| "value_ok P upd k WToasted = upd"
| "value_ok P upd k (WText bs) = (utf8_valid P bs \<and> length bs < 2 ^ 32)"
| "value_ok P upd k (WBinary bs) = binary_ok P k bs"

lemma binary_ok_length: "binary_ok P k bs \<Longrightarrow> length bs < 2 ^ 32"
  by (cases k) auto

lemma read_len:
  "length bs < 2 ^ 32 \<Longrightarrow>
   read_be (tag # to_be_bytes (word_of_nat (length bs) :: u32) @ bs @ rest) 1 4 =
     Ok (word_of_nat (length bs) :: u32)"
  by (rule read_be_at_32 [where pre = "[tag]"]) auto

lemma parse_binary_ok:
  assumes "binary_ok P k bs" and "data = tag # to_be_bytes (word_of_nat (length bs) :: u32) @ bs @ rest"
  shows "parse_binary P k (length bs) data = Ok (value_of k (WBinary bs))"
proof -
  define hdr where "hdr = tag # to_be_bytes (word_of_nat (length bs) :: u32)"
  have d: "data = hdr @ bs @ rest" and h: "length hdr = 5"
    using assms(2) by (simp_all add: hdr_def)
  show ?thesis
  proof (cases k)
    case FK_Bool
    then obtain b where "bs = [b]"
      using assms(1) by (cases bs) auto
    then show ?thesis using FK_Bool by (simp add: parse_binary_def d h nth_append)
  qed (use assms(1) in \<open>simp_all add: parse_binary_def parse_i64_def simd_from_utf8_def d h\<close>)
qed

lemma parse_value_enc:
  assumes "value_ok P upd (get_kind f) w"
  shows "parse_value P get_kind (enc_value w @ rest) f upd =
    Ok (value_of (get_kind f) w, length (enc_value w))"
proof (cases w)
  case (WText bs)
  then have len: "length bs < 2 ^ 32" using assms by simp
  let ?d = "b_t # to_be_bytes (word_of_nat (length bs) :: u32) @ bs @ rest"
  have u: "unat (word_of_nat (length bs) :: u32) = length bs"
    using len by (simp add: unat_of_nat)
  have "(slice_range ?d 5 (5 + length bs) :: byte list dres) = Ok bs" by simp
  then show ?thesis
    using assms WText read_len [OF len, of b_t rest] u
    by (simp add: parse_value_def simd_from_utf8_def Let_def)
next
  case (WBinary bs)
  then have b: "binary_ok P (get_kind f) bs" using assms by simp
  note len = binary_ok_length [OF b]
  have u: "unat (word_of_nat (length bs) :: u32) = length bs"
    using len by (simp add: unat_of_nat)
  show ?thesis
    using WBinary read_len [OF len, of b_b rest] parse_binary_ok [OF b refl, of b_b rest] u
    by (simp add: parse_value_def Let_def)
qed (use assms in \<open>simp_all add: parse_value_def\<close>)

lemma fields_loop_enc:
  assumes "length ws = length fs" and "\<forall>i<length ws. value_ok P upd (get_kind (fs ! i)) (ws ! i)"
  shows "fields_loop P get_kind (pre @ concat (map enc_value ws) @ rest) upd fs (length pre) cols =
    Ok (cols @ map2 value_of (map get_kind fs) ws, length pre + length (concat (map enc_value ws)))"
  using assms
proof (induction ws fs arbitrary: pre cols rule: list_induct2)
  case Nil
  then show ?case by simp
next
  case (Cons w ws f fs)
  have w: "value_ok P upd (get_kind f) w" and ws: "\<forall>i<length ws. value_ok P upd (get_kind (fs ! i)) (ws ! i)"
    using Cons.prems by (auto simp: All_less_Suc2)
  show ?case
    using Cons.IH [OF ws, of "pre @ enc_value w" "cols @ [value_of (get_kind f) w]"] parse_value_enc [of P upd get_kind f w] w
    by simp
qed

lemma be_nat_16: "n < 2 ^ 16 \<Longrightarrow> be_nat (to_be_bytes (word_of_nat n :: u16)) = n"
  by (simp add: to_be_bytes_def be_nat_be_bytes unat_of_nat)

text \<open>What a row of wire values must satisfy to be a row of the relation.\<close>

definition row_ok :: "platform \<Rightarrow> bool \<Rightarrow> FieldKind list \<Rightarrow> wire_value list \<Rightarrow> bool" where
  "row_ok P upd ks ws \<longleftrightarrow> length ws \<le> length ks \<and> (\<forall>i<length ws. value_ok P upd (ks ! i) (ws ! i))"

definition row_of :: "FieldKind list \<Rightarrow> wire_value list \<Rightarrow> PgValue list" where
  "row_of ks ws = map2 value_of ks ws"

lemma length_row_of: "length ws \<le> length ks \<Longrightarrow> length (row_of ks ws) = length ws"
  by (simp add: row_of_def)

lemma length_enc_tuple [simp]: "length (enc_tuple ws) = 2 + length (concat (map enc_value ws))"
  by (simp add: enc_tuple_def)

lemma tuple_roundtrip:
  assumes "row_ok P upd (map f_kind fs) ws" and "length fs < 2 ^ 16"
  shows "tuple_parse P (enc_tuple ws @ rest) fs upd =
    Ok (row_of (map f_kind fs) ws, length (enc_tuple ws))"
proof -
  let ?pre = "to_be_bytes (word_of_nat (length ws) :: u16)" and ?fs = "take (length ws) fs"
  have n: "be_nat (take 2 (enc_tuple ws @ rest)) = length ws"
    using assms by (simp add: enc_tuple_def be_nat_16 row_ok_def)
  have "fields_loop P f_kind (?pre @ concat (map enc_value ws) @ rest) upd ?fs (length ?pre) [] =
      Ok ([] @ map2 value_of (map f_kind ?fs) ws, length ?pre + length (concat (map enc_value ws)))"
    using assms by (intro fields_loop_enc) (auto simp: row_ok_def)
  moreover have "map2 value_of (map f_kind ?fs) ws = row_of (map f_kind fs) ws"
    using take_zip [of "length ws" "map f_kind fs" ws] by (simp add: row_of_def take_map)
  ultimately show ?thesis
    using assms n by (simp add: tuple_parse_spec tuple_spec_def enc_tuple_def row_ok_def)
qed

subsection \<open>Key tuples\<close>

text \<open>
  In a K tuple the server sends every column, the columns outside the replica identity as nulls of
  one byte.  \<open>key_values\<close> are the columns' wire values, so \<open>map ((!) ws) indexes\<close> the keys'.
\<close>

definition key_tuple_ok :: "platform \<Rightarrow> KeyField list \<Rightarrow> nat list \<Rightarrow> wire_value list \<Rightarrow> bool" where
  "key_tuple_ok P fs indexes ws \<longleftrightarrow>
     sorted_wrt (<) indexes \<and> indexes \<noteq> [] \<and> length fs = length indexes \<and>
     (\<forall>i\<in>set indexes. i < length ws) \<and>
     (\<forall>i<length ws. i \<notin> set indexes \<longrightarrow> ws ! i = WNull) \<and>
     (\<forall>k<length indexes. value_ok P False (kf_kind (fs ! k)) (ws ! (indexes ! k)))"

text \<open>
  The keys the unrolled loop returns: up to the first whose column number is not below the number of
  keys minus one.
\<close>

definition last_read :: "nat list \<Rightarrow> nat" where
  "last_read indexes = length (takeWhile (\<lambda>i. i < length indexes - 1) indexes)"

lemma sorted_wrt_less_nth_ge:
  assumes "sorted_wrt (<) (xs :: nat list)"
  shows "k < length xs \<Longrightarrow> k \<le> xs ! k"
proof (induction k)
  case 0
  then show ?case by simp
next
  case (Suc k)
  then have "xs ! k < xs ! Suc k"
    using assms by (simp add: sorted_wrt_nth_less)
  with Suc show ?case by simp
qed

lemma last_read_less:
  assumes "sorted_wrt (<) indexes" and "indexes \<noteq> []"
  shows "last_read indexes < length indexes"
proof (rule ccontr)
  assume "\<not> ?thesis"
  then have "length (takeWhile (\<lambda>i. i < length indexes - 1) indexes) = length indexes"
    using length_takeWhile_le [of "\<lambda>i. i < length indexes - 1" indexes] by (simp add: last_read_def)
  then have "takeWhile (\<lambda>i. i < length indexes - 1) indexes = indexes"
    by (metis takeWhile_eq_take take_all_iff order_refl)
  then have "last indexes < length indexes - 1"
    using assms(2) by (metis last_in_set set_takeWhileD)
  moreover have "length indexes - 1 \<le> last indexes"
    using sorted_wrt_less_nth_ge [OF assms(1), of "length indexes - 1"] assms(2)
    by (simp add: last_conv_nth)
  ultimately show False by simp
qed

lemma last_read_before: "k < last_read indexes \<Longrightarrow> indexes ! k < length indexes - 1"
  unfolding last_read_def by (metis nth_mem set_takeWhileD takeWhile_nth)

lemma last_read_at:
  "last_read indexes < length indexes \<Longrightarrow> \<not> indexes ! last_read indexes < length indexes - 1"
  unfolding last_read_def by (rule nth_length_takeWhile)

definition enc_values :: "wire_value list \<Rightarrow> byte list" where
  "enc_values ws = concat (map enc_value ws)"

definition key_row :: "KeyField list \<Rightarrow> nat list \<Rightarrow> wire_value list \<Rightarrow> PgValue list" where
  "key_row fs indexes ws = map (\<lambda>k. value_of (kf_kind (fs ! k)) (ws ! (indexes ! k))) [0..<length indexes]"

lemma enc_values_split:
  assumes "i < length ws"
  shows "enc_values ws = enc_values (take i ws) @ enc_value (ws ! i) @ enc_values (drop (Suc i) ws)"
proof -
  have "enc_values ws = enc_values (take i ws @ ws ! i # drop (Suc i) ws)"
    using assms by (simp add: id_take_nth_drop [symmetric])
  then show ?thesis by (simp add: enc_values_def)
qed

lemma enc_values_take_Suc:
  "i < length ws \<Longrightarrow> enc_values (take (Suc i) ws) = enc_values (take i ws) @ enc_value (ws ! i)"
  by (simp add: enc_values_def take_Suc_conv_app_nth)

lemma sorted_wrt_less_nth_mono:
  "sorted_wrt (<) (xs :: nat list) \<Longrightarrow> j \<le> k \<Longrightarrow> k < length xs \<Longrightarrow> xs ! j \<le> xs ! k"
  by (metis le_eq_less_or_eq sorted_wrt_nth_less)

lemma between_keys:
  assumes "sorted_wrt (<) indexes" and "k < length indexes" and "i < indexes ! k"
    and "\<forall>j<k. indexes ! j < i"
  shows "i \<notin> set (indexes :: nat list)"
proof
  assume "i \<in> set indexes"
  then obtain j where j: "j < length indexes" "indexes ! j = i" by (auto simp: in_set_conv_nth)
  with assms(4) have "k \<le> j" by (metis less_irrefl not_le)
  then have "indexes ! k \<le> i" using sorted_wrt_less_nth_mono [OF assms(1)] j by blast
  with assms(3) show False by simp
qed

lemma keys_loop_enc:
  fixes hdr rest :: "byte list"
  defines "pos \<equiv> \<lambda>i ws. 2 + length (enc_values (take i ws))"
  assumes ok: "key_tuple_ok P fs indexes ws" and hdr: "length hdr = 2" and q: "q = last_read indexes"
    and N: "indexes ! q < N" "N \<le> length ws"
    and inv: "k \<le> q" "i \<le> indexes ! k" "\<forall>j<k. indexes ! j < i"
  shows "keys_loop P (hdr @ enc_values ws @ rest) fs indexes total_fields [i..<N] (pos i ws) k cols =
    Ok (cols @ map (\<lambda>j. value_of (kf_kind (fs ! j)) (ws ! (indexes ! j))) [k..<Suc q],
        pos (Suc (indexes ! q)) ws + total_fields - indexes ! q)"
  using inv
proof (induction "N - i" arbitrary: i k cols rule: less_induct)
  case less
  let ?d = "hdr @ enc_values ws @ rest"
  have sorted: "sorted_wrt (<) indexes" and len: "length fs = length indexes"
    using ok by (auto simp: key_tuple_ok_def)
  have ql: "q < length indexes"
    using ok q last_read_less by (auto simp: key_tuple_ok_def)
  have k: "k < length indexes" using less.prems(1) ql by simp
  have "indexes ! k \<le> indexes ! q"
    using sorted_wrt_less_nth_mono [OF sorted less.prems(1) ql] .
  with less.prems(2) N have iN: "i < N" and iw: "i < length ws" by auto
  then have upt: "[i..<N] = i # [Suc i..<N]" by (simp add: upt_conv_Cons)
  have d: "?d = (hdr @ enc_values (take i ws)) @ enc_value (ws ! i) @ enc_values (drop (Suc i) ws) @ rest"
    using enc_values_split [OF iw] by simp
  have sl: "(slice_from ?d (pos i ws) :: byte list dres) =
      Ok (enc_value (ws ! i) @ enc_values (drop (Suc i) ws) @ rest)"
    unfolding d pos_def using slice_from_append [of "hdr @ enc_values (take i ws)"] hdr by simp
  have next_pos: "pos (Suc i) ws = pos i ws + length (enc_value (ws ! i))"
    using iw by (simp add: pos_def enc_values_take_Suc)
  show ?case
  proof (cases "i = indexes ! k")
    case False
    then have "i < indexes ! k" using less.prems(2) by simp
    then have "ws ! i = WNull"
      using between_keys [OF sorted k _ less.prems(3)] ok iw by (auto simp: key_tuple_ok_def)
    then show ?thesis
      using less.hyps [of "Suc i" k cols] less.prems \<open>i < indexes ! k\<close> iN k next_pos
      by (simp add: upt less_Suc_eq)
  next
    case True
    have "value_ok P False (keyfield_get_kind (fs ! k)) (ws ! i)"
      using ok k True by (auto simp: key_tuple_ok_def keyfield_get_kind_def)
    note pv = parse_value_enc [of P False keyfield_get_kind "fs ! k" "ws ! i", OF this]
    show ?thesis
    proof (cases "k = q")
      case kq: True
      then have "\<not> i < length indexes - 1"
        using last_read_at ql q True by simp
      then show ?thesis
        unfolding upt using True kq k len sl pv next_pos
        by (simp add: keyfield_get_kind_def)
    next
      case False
      then have kq: "k < q" using less.prems(1) by simp
      then have "i < length indexes - 1"
        using last_read_before q True by simp
      moreover have "i < indexes ! Suc k"
        using sorted_wrt_nth_less [OF sorted, of k "Suc k"] kq ql True by simp
      moreover have "[k..<Suc q] = k # [Suc k..<Suc q]"
        using kq by (simp add: upt_conv_Cons del: upt_Suc)
      ultimately show ?thesis
        unfolding upt using True kq k len sl pv next_pos less.prems(3) iN
          less.hyps [of "Suc i" "Suc k" "cols @ [value_of (kf_kind (fs ! k)) (ws ! i)]"]
        by (simp add: keyfield_get_kind_def less_Suc_eq del: upt_Suc)
    qed
  qed
qed

lemma enc_tuple_values: "enc_tuple ws = to_be_bytes (word_of_nat (length ws) :: u16) @ enc_values ws"
  by (simp add: enc_tuple_def enc_values_def)

lemma parse_keys_dispatch:
  assumes "length ws < 2 ^ 16" and "length ws \<le> total_fields"
  shows "parse_keys P (enc_tuple ws @ rest) fs indexes total_fields =
    (if 1 \<le> length ws \<and> length ws \<le> 6
     then num_cols_keys P (length ws) (enc_tuple ws @ rest) fs indexes total_fields
     else index_loop P keyfield_get_kind (enc_tuple ws @ rest) fs False [0..<length ws] 2 [])"
proof -
  define n where "n = (word_of_nat (length ws) :: u16)"
  have un: "unat n = length ws" using assms by (simp add: n_def unat_of_nat)
  have rd: "read_be (enc_tuple ws @ rest) 0 2 = Ok n"
    by (rule read_be_at_16 [where pre = "[]"]) (simp_all add: enc_tuple_def n_def)
  have eq: "n = m \<longleftrightarrow> length ws = unat m" for m :: u16
    using un by (metis word_unat_eq_iff)
  consider "length ws = 1" | "length ws = 2" | "length ws = 3" | "length ws = 4" | "length ws = 5"
    | "length ws = 6" | "length ws = 0 \<or> 6 < length ws" by linarith
  then show ?thesis
    using assms by cases (auto simp: parse_keys_def rd un eq)
qed

lemma parse_keys_result:
  assumes ok: "key_tuple_ok P fs indexes ws" and len: "length ws \<le> 6" "length ws \<le> total_fields"
  shows "parse_keys P (enc_tuple ws @ rest) fs indexes total_fields =
    Ok (take (Suc (last_read indexes)) (key_row fs indexes ws),
        2 + length (enc_values (take (Suc (indexes ! last_read indexes)) ws)) + total_fields
          - indexes ! last_read indexes)"
proof -
  define q where "q = last_read indexes"
  have ql: "q < length indexes"
    using ok q_def last_read_less by (auto simp: key_tuple_ok_def)
  then have iq: "indexes ! q < length ws" using ok by (auto simp: key_tuple_ok_def)
  then have "1 \<le> length ws" by simp
  then have "parse_keys P (enc_tuple ws @ rest) fs indexes total_fields =
      num_cols_keys P (length ws) (enc_tuple ws @ rest) fs indexes total_fields"
    using parse_keys_dispatch [of ws total_fields] len by simp
  moreover have "[0..<Suc q] = take (Suc q) [0..<length indexes]"
    using ql by (simp del: upt_Suc)
  ultimately show ?thesis
    using keys_loop_enc [OF ok _ q_def iq order_refl, of "to_be_bytes (word_of_nat (length ws) :: u16)" 0 0 rest total_fields "[]"]
    by (simp add: num_cols_keys_def enc_tuple_values key_row_def take_map q_def [symmetric] enc_values_def
        del: upt_Suc)
qed

lemma last_read_complete_iff:
  assumes "sorted_wrt (<) indexes" and "indexes \<noteq> []"
  shows "last_read indexes = length indexes - 1 \<longleftrightarrow> (\<forall>k<length indexes - 1. indexes ! k = k)"
proof
  assume l: "last_read indexes = length indexes - 1"
  show "\<forall>k<length indexes - 1. indexes ! k = k"
  proof (intro allI impI)
    fix k assume k: "k < length indexes - 1"
    have gap: "k + d < length indexes \<Longrightarrow> indexes ! k + d \<le> indexes ! (k + d)" for d
    proof (induction d)
      case (Suc d)
      then have "indexes ! (k + d) < indexes ! (k + Suc d)"
        using assms(1) by (intro sorted_wrt_nth_less) auto
      with Suc show ?case by simp
    qed simp
    have e: "k + (length indexes - 2 - k) = length indexes - 2" and "length indexes - 2 < length indexes"
      using k by auto
    then have "indexes ! k + (length indexes - 2 - k) \<le> indexes ! (length indexes - 2)"
      using gap [of "length indexes - 2 - k"] by metis
    moreover have "indexes ! (length indexes - 2) < length indexes - 1"
      using last_read_before [of "length indexes - 2" indexes] l k by simp
    ultimately show "indexes ! k = k"
      using sorted_wrt_less_nth_ge [OF assms(1), of k] k e by linarith
  qed
next
  assume p: "\<forall>k<length indexes - 1. indexes ! k = k"
  show "last_read indexes = length indexes - 1"
  proof (rule ccontr)
    assume "last_read indexes \<noteq> length indexes - 1"
    then have "last_read indexes < length indexes - 1"
      using last_read_less [OF assms] by simp
    then show False
      using p last_read_at [OF last_read_less [OF assms]] by simp
  qed
qed

lemma enc_values_nulls: "\<forall>w\<in>set ws. w = WNull \<Longrightarrow> length (enc_values ws) = length ws"
  by (induction ws) (auto simp: enc_values_def)

text \<open>When all keys are read, the size returned is one more than the size of the tuple.\<close>

lemma parse_keys_size:
  assumes ok: "key_tuple_ok P fs indexes ws" and len: "length ws \<le> 6"
    and complete: "\<forall>k<length indexes - 1. indexes ! k = k"
  shows "parse_keys P (enc_tuple ws @ rest) fs indexes (length ws) =
    Ok (key_row fs indexes ws, length (enc_tuple ws) + 1)"
proof -
  define q where "q = last_read indexes"
  have s: "sorted_wrt (<) indexes" "indexes \<noteq> []" using ok by (auto simp: key_tuple_ok_def)
  have q: "q = length indexes - 1"
    using last_read_complete_iff [OF s] complete by (simp add: q_def)
  have iq: "indexes ! q < length ws" using ok q by (auto simp: key_tuple_ok_def)
  have "ws ! i = WNull" if "indexes ! q < i" "i < length ws" for i
  proof -
    have "i \<notin> set indexes"
    proof
      assume "i \<in> set indexes"
      then obtain j where "j < length indexes" "indexes ! j = i" by (auto simp: in_set_conv_nth)
      then have "i \<le> indexes ! q"
        using sorted_wrt_less_nth_mono [OF s(1), of j q] s(2) q by auto
      with that show False by simp
    qed
    then show ?thesis using ok that by (simp add: key_tuple_ok_def)
  qed
  then have "\<forall>w\<in>set (drop (Suc (indexes ! q)) ws). w = WNull"
    by (auto simp: in_set_conv_nth)
  then have tail: "length (enc_values (drop (Suc (indexes ! q)) ws)) = length ws - Suc (indexes ! q)"
    using enc_values_nulls by fastforce
  have "enc_values ws = enc_values (take (Suc (indexes ! q)) ws) @ enc_values (drop (Suc (indexes ! q)) ws)"
    by (metis append_take_drop_id concat_append enc_values_def map_append)
  then have "length (enc_values ws) =
      length (enc_values (take (Suc (indexes ! q)) ws)) + (length ws - Suc (indexes ! q))"
    using tail by simp
  moreover have "length (enc_tuple ws) = 2 + length (enc_values ws)"
    by (simp add: enc_values_def)
  moreover have "take (Suc q) (key_row fs indexes ws) = key_row fs indexes ws"
    using q s(2) by (simp add: key_row_def)
  ultimately show ?thesis
    using parse_keys_result [OF ok len order_refl] iq by (simp add: q_def [symmetric])
qed

lemma index_loop_short:
  assumes "length fs < n" and "length ws = length fs - a" and "a \<le> length fs"
    and "\<forall>i<length ws. value_ok P upd (get_kind (fs ! (a + i))) (ws ! i)"
  shows "index_loop P get_kind (pre @ enc_values ws @ rest) fs upd [a..<n] (length pre) cols = Panic"
  using assms
proof (induction ws arbitrary: a pre cols)
  case Nil
  then have "[a..<n] = a # [Suc a..<n]" "a = length fs" by (simp_all add: upt_conv_Cons)
  then show ?case by (simp add: enc_values_def index_def)
next
  case (Cons w ws)
  then have a: "[a..<n] = a # [Suc a..<n]" "a < length fs" by (simp_all add: upt_conv_Cons)
  have "value_ok P upd (get_kind (fs ! a)) w" using Cons.prems(4) by auto
  note pv = parse_value_enc [of P upd get_kind "fs ! a" w, OF this]
  have "\<forall>i<length ws. value_ok P upd (get_kind (fs ! (Suc a + i))) (ws ! i)"
    using Cons.prems(4) by (auto simp: All_less_Suc2)
  then show ?case
    unfolding a(1)
    using Cons.IH [of "Suc a" "pre @ enc_value w" "cols @ [value_of (get_kind (fs ! a)) w]"] Cons.prems a(2) pv
    by (simp add: enc_values_def)
qed

text \<open>
  Beyond six columns the fallback indexes the key fields by column number: with fewer keys than
  columns it runs off their end.
\<close>

lemma parse_keys_wide:
  assumes "6 < length ws" and "length ws \<le> total_fields" and "length ws < 2 ^ 16"
    and "length fs < length ws" and "\<forall>i<length fs. value_ok P False (kf_kind (fs ! i)) (ws ! i)"
  shows "parse_keys P (enc_tuple ws @ rest) fs indexes total_fields = Panic"
proof -
  let ?hdr = "to_be_bytes (word_of_nat (length ws) :: u16)" and ?ws = "take (length fs) ws"
  have "enc_values ws = enc_values ?ws @ enc_values (drop (length fs) ws)"
    by (metis append_take_drop_id concat_append enc_values_def map_append)
  moreover have "index_loop P keyfield_get_kind
      (?hdr @ enc_values ?ws @ (enc_values (drop (length fs) ws) @ rest)) fs False [0..<length ws] (length ?hdr) []
    = Panic"
    using assms by (intro index_loop_short) (simp_all add: keyfield_get_kind_def)
  ultimately have "index_loop P keyfield_get_kind (enc_tuple ws @ rest) fs False [0..<length ws] 2 [] = Panic"
    by (simp add: enc_tuple_values)
  then show ?thesis using parse_keys_dispatch [of ws total_fields] assms by simp
qed

subsection \<open>Properties\<close>

text \<open>
  C19: the six unrolled copies of the row decoder and its fallback are one loop.  For every relation
  with fewer than 65536 columns, \<open>parse\<close> reads the column count, refuses more columns than the
  relation has, and otherwise decodes that many values one after the other.
\<close>

theorem tuple_parse_is_one_loop:
  assumes "length fs < 2 ^ 16"
  shows "tuple_parse P data fs is_update = tuple_spec P data fs is_update"
  by (rule tuple_parse_spec [OF assms])

theorem tuple_parse_is_one_loop_witness:
  "length (r_fields get_example_rel) < 2 ^ 16 \<and>
   tuple_parse x86_platform [0, 3, b_n, b_n, b_n] (r_fields get_example_rel) False = Err CorruptedInput"
proof
  show "length (r_fields get_example_rel) < 2 ^ 16" by (simp add: get_example_rel_def)
  then show "tuple_parse x86_platform [0, 3, b_n, b_n, b_n] (r_fields get_example_rel) False = Err CorruptedInput"
    by (subst tuple_parse_is_one_loop) (simp_all add: tuple_spec_def be_nat_def get_example_rel_def)
qed

text \<open>
  C20: decoding inverts the wire format of rows: for every row of nulls, TOASTed markers (in updates),
  texts and binary values that fits the relation's columns, \<open>parse\<close> returns its values in order and
  the number of bytes it took, whatever follows.
\<close>

theorem row_roundtrip:
  assumes "row_ok P is_update (map f_kind fs) ws" and "length fs < 2 ^ 16"
  shows "tuple_parse P (enc_tuple ws @ rest) fs is_update =
    Ok (row_of (map f_kind fs) ws, length (enc_tuple ws))"
  by (rule tuple_roundtrip [OF assms])

theorem row_roundtrip_witness:
  "tuple_parse x86_platform (enc_tuple [WBinary [0, 0, 0, 1], WText (bytes_of_str ''hello'')] @ [])
     (r_fields get_example_rel) False = Ok ([Int4 1, Text ''hello''], 21)"
  by (subst row_roundtrip)
    (auto simp: row_ok_def get_example_rel_def less_Suc_eq row_of_def from_be_bytes_def be_nat_def)

text \<open>
  C33: the only inputs on which the decoder of a value panics: a binary value (\<open>b'b'\<close>) in a text column
  whose announced length goes beyond the data.  Every other malformed value is an error.
\<close>

theorem value_panics_exactly_on_cut_binary_text:
  "parse_value P get_kind data field is_update = Panic \<longleftrightarrow>
     5 \<le> length data \<and> data ! 0 = b_b \<and> get_kind field = FK_Text \<and>
     length data < 5 + unat (from_be_bytes (take 4 (drop 1 data)) :: u32)"
  by (rule parse_value_Panic_iff)

end
