(* ===== verification/Message_Decoder.thy ===== *)
theory Message_Decoder imports Tuple_Decoder begin

text \<open>
  \<open>cdc-wal-reader/src/decoder/common.rs\<close>, \<open>insert.rs\<close>, \<open>update.rs\<close> and \<open>delete.rs\<close>: the decoders of
  the row messages, on top of the tuple decoders.  Latency metrics are left out.
\<close>

subsection \<open>The decoders\<close>

type_synonym relation_map = "u32 \<rightharpoonup> RelationData"

definition get_old_tuple_data :: "platform \<Rightarrow> byte list \<Rightarrow> RelationData \<Rightarrow> (PgValue list \<times> nat) dres" where
  "get_old_tuple_data P data relation =
     (if data = [] then Err TruncatedInput
      else
        and_then (index data 0) (\<lambda>tag.
          if tag = b_K then
            (if replica_id (inner relation) \<noteq> Keys then Err (WrongOldTupleKind Keys)
             else
               and_then (slice_from data 1) (\<lambda>d.
               and_then (parse_keys P d (key_fields relation) (key_indexes relation)
                           (length (r_fields (inner relation)))) (\<lambda>(ks, size').
                 Ok (ks, size' + 1))))
          else if tag = b_O then
            (if replica_id (inner relation) \<noteq> Row then Err (WrongOldTupleKind Row)
             else
               and_then (slice_from data 1) (\<lambda>d.
               and_then (tuple_parse P d (r_fields (inner relation)) False) (\<lambda>(r, size').
                 Ok (r, size' + 1))))
          else Err (WrongOldTupleKey tag)))"

definition get_new_tuple_data :: "platform \<Rightarrow> byte list \<Rightarrow> Field list \<Rightarrow> bool \<Rightarrow> PgValue list dres" where
  "get_new_tuple_data P data fs is_update =
     (if data = [] then Err TruncatedInput
      else
        and_then (index data 0) (\<lambda>tag.
          if tag \<noteq> b_N then Err (WrongNewTupleKey tag)
          else
            and_then (slice_from data 1) (\<lambda>d.
            and_then (tuple_parse P d fs is_update) (\<lambda>(tuple, _). Ok tuple))))"

definition insert_parse :: "platform \<Rightarrow> byte list \<Rightarrow> relation_map \<Rightarrow> (ChangeEvent \<times> RelationData) dres" where
  "insert_parse P data rels =
     (if length data < 5 then Err TruncatedInput
      else
        and_then (read_be data 1 4) (\<lambda>oid.
        and_then (ok_or (UnknownRelation oid) (rels oid)) (\<lambda>relation.
        and_then (slice_from data 5) (\<lambda>d.
        and_then (get_new_tuple_data P d (r_fields (inner relation)) False) (\<lambda>r.
          Ok (\<lparr>ev_op = Insert r, ev_rel = relation_oid (inner relation)\<rparr>, relation))))))"

definition delete_parse :: "platform \<Rightarrow> byte list \<Rightarrow> relation_map \<Rightarrow> (ChangeEvent \<times> RelationData) dres" where
  "delete_parse P data rels =
     (if length data < 5 then Err TruncatedInput
      else
        and_then (read_be data 1 4) (\<lambda>oid.
        and_then (ok_or (UnknownRelation oid) (rels oid)) (\<lambda>relation.
        and_then (slice_from data 5) (\<lambda>d.
        and_then (get_old_tuple_data P d relation) (\<lambda>(o', _).
          Ok (\<lparr>ev_op = Delete o', ev_rel = oid\<rparr>, relation))))))"

text \<open>The old tuple of an update, with the error that stands for its absence.\<close>

definition update_old :: "platform \<Rightarrow> byte list \<Rightarrow> RelationData \<Rightarrow> (PgValue list \<times> nat) dres" where
  "update_old P d relation =
     (case get_old_tuple_data P d relation of
        Ok r \<Rightarrow> Ok r
      | Err e \<Rightarrow> (if e = WrongOldTupleKey b_N then Ok ([], 0) else Err e)
      | Panic \<Rightarrow> Panic)"

definition update_parse :: "platform \<Rightarrow> byte list \<Rightarrow> relation_map \<Rightarrow> (ChangeEvent \<times> RelationData) dres" where
  "update_parse P data rels =
     (if length data < 5 then Err TruncatedInput
      else
        and_then (read_be data 1 4) (\<lambda>oid.
        and_then (ok_or (UnknownRelation oid) (rels oid)) (\<lambda>relation.
        and_then (slice_from data 5) (\<lambda>d.
        and_then (update_old P d relation) (\<lambda>(o', old_data_end).
          if length data < old_data_end + 5 then Err TruncatedInput
          else
            and_then (slice_from data (old_data_end + 5)) (\<lambda>d'.
            and_then (get_new_tuple_data P d' (r_fields (inner relation)) True) (\<lambda>new_data.
              Ok (\<lparr>ev_op = Update o' new_data, ev_rel = oid\<rparr>, relation))))))))"

subsection \<open>The relation map\<close>

text \<open>Every relation in the map was decoded from a Relation message and is stored under its OID.\<close>

definition wf_relation_map :: "platform \<Rightarrow> relation_map \<Rightarrow> bool" where
  "wf_relation_map P rels \<longleftrightarrow>
     (\<forall>oid rd. rels oid = Some rd \<longrightarrow> wf_relation_data P rd \<and> relation_oid (inner rd) = oid)"

lemma wf_relation_map_empty [simp]: "wf_relation_map P Map.empty"
  by (simp add: wf_relation_map_def)

lemma wf_relation_map_insert:
  "wf_relation_map P rels \<Longrightarrow> wf_relation_data P rd \<Longrightarrow>
   wf_relation_map P (rels(relation_oid (inner rd) \<mapsto> rd))"
  by (auto simp: wf_relation_map_def)

lemma wf_relation_mapD:
  "wf_relation_map P rels \<Longrightarrow> rels oid = Some rd \<Longrightarrow> wf_relation_data P rd \<and> relation_oid (inner rd) = oid"
  by (simp add: wf_relation_map_def)

lemma wf_fields_bound: "wf_relation_data P rd \<Longrightarrow> length (r_fields (inner rd)) < 2 ^ 16"
  by (simp add: wf_relation_data_def)

subsection \<open>The wire format of row messages\<close>

definition enc_insert :: "u32 \<Rightarrow> wire_value list \<Rightarrow> byte list" where
  "enc_insert oid new = b_I # to_be_bytes oid @ b_N # enc_tuple new"

definition enc_delete :: "u32 \<Rightarrow> byte \<Rightarrow> wire_value list \<Rightarrow> byte list" where
  "enc_delete oid tag olds = b_D # to_be_bytes oid @ tag # enc_tuple olds"

definition enc_update :: "u32 \<Rightarrow> (byte \<times> wire_value list) option \<Rightarrow> wire_value list \<Rightarrow> byte list" where
  "enc_update oid olds new =
     b_U # to_be_bytes oid @ (case olds of None \<Rightarrow> [] | Some (tag, ws) \<Rightarrow> tag # enc_tuple ws) @
     b_N # enc_tuple new"

definition kinds :: "RelationData \<Rightarrow> FieldKind list" where
  "kinds rd = map f_kind (r_fields (inner rd))"

text \<open>Every row message starts the same way; the decoders differ in what follows the OID.\<close>

lemma message_header:
  fixes oid :: u32
  assumes "data = letter # to_be_bytes oid @ d"
  shows "\<not> length data < 5" "read_be data 1 4 = Ok oid" "(slice_from data 5 :: byte list dres) = Ok d"
    "length data = 5 + length d" "drop 5 data = d"
proof -
  have d: "data = (letter # to_be_bytes oid) @ d" "length (letter # to_be_bytes oid) = 5"
    using assms by simp_all
  show "\<not> length data < 5" "length data = 5 + length d" "drop 5 data = d"
    unfolding d(1) using d(2) by simp_all
  show "(slice_from data 5 :: byte list dres) = Ok d"
    unfolding d(1) using slice_from_append [of "letter # to_be_bytes oid" d] d(2) by simp
  show "read_be data 1 4 = Ok oid"
    by (rule read_be_at_32 [where pre = "[letter]" and rest = d]) (simp_all add: assms)
qed

lemma get_new_tuple_data_enc:
  assumes "row_ok P upd (map f_kind fs) ws" and "length fs < 2 ^ 16"
  shows "get_new_tuple_data P (b_N # enc_tuple ws) fs upd = Ok (row_of (map f_kind fs) ws)"
  using tuple_roundtrip [OF assms, of "[]"] by (simp add: get_new_tuple_data_def)

lemma insert_parse_enc:
  assumes "wf_relation_map P rels" and "rels oid = Some rd" and "row_ok P False (kinds rd) ws"
  shows "insert_parse P (enc_insert oid ws) rels =
    Ok (\<lparr>ev_op = Insert (row_of (kinds rd) ws), ev_rel = oid\<rparr>, rd)"
  using wf_relation_mapD [OF assms(1,2)] wf_fields_bound [of P rd] assms
    message_header [of "enc_insert oid ws" b_I oid "b_N # enc_tuple ws"]
    get_new_tuple_data_enc [of P False "r_fields (inner rd)" ws]
  by (simp add: insert_parse_def enc_insert_def kinds_def)

lemma get_old_tuple_data_row:
  assumes "replica_id (inner rd) = Row" and "row_ok P False (kinds rd) ws" and "length (r_fields (inner rd)) < 2 ^ 16"
  shows "get_old_tuple_data P (b_O # enc_tuple ws @ rest) rd =
    Ok (row_of (kinds rd) ws, length (enc_tuple ws) + 1)"
  using tuple_roundtrip [of P False "r_fields (inner rd)" ws rest] assms
  by (simp add: get_old_tuple_data_def kinds_def)

lemma delete_parse_row:
  assumes "wf_relation_map P rels" and "rels oid = Some rd" and "replica_id (inner rd) = Row"
    and "row_ok P False (kinds rd) ws"
  shows "delete_parse P (enc_delete oid b_O ws) rels =
    Ok (\<lparr>ev_op = Delete (row_of (kinds rd) ws), ev_rel = oid\<rparr>, rd)"
  using wf_relation_mapD [OF assms(1,2)] wf_fields_bound [of P rd] assms
    message_header [of "enc_delete oid b_O ws" b_D oid "b_O # enc_tuple ws"]
    get_old_tuple_data_row [of rd P ws "[]"]
  by (simp add: delete_parse_def enc_delete_def)

subsection \<open>Updates\<close>

lemma slice_after:
  assumes "m = pre @ d" and "length pre = n"
  shows "(slice_from m n :: byte list dres) = Ok d" "\<not> length m < n"
  using assms by auto

lemma update_parse_no_old:
  assumes "wf_relation_map P rels" and "rels oid = Some rd" and "row_ok P True (kinds rd) ws"
  shows "update_parse P (enc_update oid None ws) rels =
    Ok (\<lparr>ev_op = Update [] (row_of (kinds rd) ws), ev_rel = oid\<rparr>, rd)"
proof -
  let ?d = "b_N # enc_tuple ws"
  have "update_old P ?d rd = Ok ([], 0)"
    by (simp add: update_old_def get_old_tuple_data_def)
  then show ?thesis
    using wf_relation_mapD [OF assms(1,2)] wf_fields_bound [of P rd] assms
      message_header [of "enc_update oid None ws" b_U oid ?d]
      get_new_tuple_data_enc [of P True "r_fields (inner rd)" ws]
    by (simp add: update_parse_def enc_update_def kinds_def)
qed

lemma update_parse_row:
  assumes "wf_relation_map P rels" and "rels oid = Some rd" and "replica_id (inner rd) = Row"
    and "row_ok P False (kinds rd) olds" and "row_ok P True (kinds rd) ws"
  shows "update_parse P (enc_update oid (Some (b_O, olds)) ws) rels =
    Ok (\<lparr>ev_op = Update (row_of (kinds rd) olds) (row_of (kinds rd) ws), ev_rel = oid\<rparr>, rd)"
proof -
  let ?new = "b_N # enc_tuple ws"
  let ?d = "b_O # enc_tuple olds @ ?new"
  let ?m = "enc_update oid (Some (b_O, olds)) ws"
  have bound: "length (r_fields (inner rd)) < 2 ^ 16"
    using wf_relation_mapD [OF assms(1,2)] wf_fields_bound by blast
  have old: "update_old P ?d rd = Ok (row_of (kinds rd) olds, length (enc_tuple olds) + 1)"
    using get_old_tuple_data_row [OF assms(3,4) bound] by (simp add: update_old_def)
  have new: "get_new_tuple_data P ?new (r_fields (inner rd)) True = Ok (row_of (kinds rd) ws)"
    using get_new_tuple_data_enc [of P True "r_fields (inner rd)" ws] assms(5) bound by (simp add: kinds_def)
  have hdr: "?m = b_U # to_be_bytes oid @ ?d" by (simp add: enc_update_def)
  have "?m = (b_U # to_be_bytes oid @ b_O # enc_tuple olds) @ ?new"
    and "length (b_U # to_be_bytes oid @ b_O # enc_tuple olds) = length (enc_tuple olds) + 1 + 5"
    by (simp_all add: hdr)
  note rest = slice_after [OF this]
  show ?thesis
    unfolding update_parse_def
    using message_header(1-3) [OF hdr] assms(2) old rest new by (simp del: length_enc_tuple)
qed

subsection \<open>Key tuples\<close>

definition keys_ok :: "platform \<Rightarrow> RelationData \<Rightarrow> wire_value list \<Rightarrow> bool" where
  "keys_ok P rd ws \<longleftrightarrow>
     replica_id (inner rd) = Keys \<and> length ws = length (r_fields (inner rd)) \<and>
     key_tuple_ok P (key_fields rd) (key_indexes rd) ws"

definition key_values :: "RelationData \<Rightarrow> wire_value list \<Rightarrow> PgValue list" where
  "key_values rd ws = key_row (key_fields rd) (key_indexes rd) ws"

text \<open>The relations whose key the decoder reads in full: all but the last key column come first.\<close>

definition leading_keys :: "RelationData \<Rightarrow> bool" where
  "leading_keys rd \<longleftrightarrow> (\<forall>k<length (key_indexes rd) - 1. key_indexes rd ! k = k)"

lemma get_old_tuple_data_keys:
  assumes "keys_ok P rd ws" and "length ws \<le> 6"
  shows "\<exists>size'. get_old_tuple_data P (b_K # enc_tuple ws @ rest) rd =
    Ok (take (Suc (last_read (key_indexes rd))) (key_values rd ws), size')"
  using assms parse_keys_result [of P "key_fields rd" "key_indexes rd" ws "length (r_fields (inner rd))" rest]
  by (simp add: get_old_tuple_data_def keys_ok_def key_values_def)

lemma get_old_tuple_data_leading:
  assumes "keys_ok P rd ws" and "length ws \<le> 6" and "leading_keys rd"
  shows "get_old_tuple_data P (b_K # enc_tuple ws @ rest) rd =
    Ok (key_values rd ws, length (enc_tuple ws) + 2)"
  using assms parse_keys_size [of P "key_fields rd" "key_indexes rd" ws rest]
  by (simp add: get_old_tuple_data_def keys_ok_def key_values_def leading_keys_def)

lemma delete_parse_keys_take:
  assumes "rels oid = Some rd" and "keys_ok P rd ws" and "length ws \<le> 6"
  shows "delete_parse P (enc_delete oid b_K ws) rels =
    Ok (\<lparr>ev_op = Delete (take (Suc (last_read (key_indexes rd))) (key_values rd ws)), ev_rel = oid\<rparr>, rd)"
  using get_old_tuple_data_keys [OF assms(2,3), of "[]"] assms(1)
    message_header [of "enc_delete oid b_K ws" b_D oid "b_K # enc_tuple ws"]
  by (auto simp: delete_parse_def enc_delete_def)

lemma length_key_values: "length (key_values rd ws) = length (key_indexes rd)"
  by (simp add: key_values_def key_row_def)

lemma delete_parse_keys_complete_iff:
  assumes "rels oid = Some rd" and "keys_ok P rd ws" and "length ws \<le> 6"
  shows "delete_parse P (enc_delete oid b_K ws) rels =
      Ok (\<lparr>ev_op = Delete (key_values rd ws), ev_rel = oid\<rparr>, rd) \<longleftrightarrow> leading_keys rd"
proof -
  let ?n = "length (key_indexes rd)" and ?q = "last_read (key_indexes rd)"
  have s: "sorted_wrt (<) (key_indexes rd)" "key_indexes rd \<noteq> []"
    using assms(2) by (auto simp: keys_ok_def key_tuple_ok_def)
  have q: "?q < ?n" using last_read_less [OF s] .
  have "take (Suc ?q) (key_values rd ws) = key_values rd ws \<longleftrightarrow> ?q = ?n - 1"
  proof
    assume "take (Suc ?q) (key_values rd ws) = key_values rd ws"
    then have "length (take (Suc ?q) (key_values rd ws)) = ?n" by (simp add: length_key_values)
    then show "?q = ?n - 1" using q by (simp add: length_key_values)
  qed (use q in \<open>simp add: length_key_values\<close>)
  also have "\<dots> \<longleftrightarrow> leading_keys rd"
    unfolding leading_keys_def by (rule last_read_complete_iff [OF s])
  finally show ?thesis by (simp add: delete_parse_keys_take [where rels = rels, OF assms])
qed

lemma update_parse_keys_rejected:
  assumes "rels oid = Some rd" and "keys_ok P rd ws" and "length ws \<le> 6" and "leading_keys rd"
    and "length new < 256"
  shows "update_parse P (enc_update oid (Some (b_K, ws)) new) rels = Err (WrongNewTupleKey 0)"
proof -
  let ?m = "enc_update oid (Some (b_K, ws)) new" and ?pos = "length (enc_tuple ws) + 2"
  let ?n = "word_of_nat (length new) :: u16"
  let ?cut = "word_of_nat (length new) # enc_values new :: byte list"
  have old: "update_old P (b_K # enc_tuple ws @ b_N # enc_tuple new) rd = Ok (key_values rd ws, ?pos)"
    using get_old_tuple_data_leading [OF assms(2-4)] by (simp add: update_old_def)
  have hdr: "?m = b_U # to_be_bytes oid @ b_K # enc_tuple ws @ b_N # enc_tuple new"
    by (simp add: enc_update_def)
  have "unat ?n = length new" using assms(5) by (simp add: unat_of_nat)
  then have "to_be_bytes ?n = [0, word_of_nat (length new)]"
    using assms(5) by (simp add: to_be_bytes_def numeral_2_eq_2)
  then have new: "enc_tuple new = 0 # ?cut" by (simp add: enc_tuple_values)
  have "?m = (b_U # to_be_bytes oid @ b_K # enc_tuple ws @ [b_N]) @ 0 # ?cut"
    and "length (b_U # to_be_bytes oid @ b_K # enc_tuple ws @ [b_N]) = ?pos + 5"
    by (simp_all add: hdr new)
  note rest = slice_after [OF this]
  show ?thesis
    unfolding update_parse_def
    using message_header(1-3) [OF hdr] assms(1) old rest
    by (simp add: get_new_tuple_data_def del: length_enc_tuple)
qed

lemma delete_parse_keys_wide:
  assumes "wf_relation_map P rels" and "rels oid = Some rd" and "replica_id (inner rd) = Keys"
    and "length ws = length (r_fields (inner rd))" and "6 < length ws" and "length (key_fields rd) < length ws"
    and "\<forall>i<length (key_fields rd). value_ok P False (kf_kind (key_fields rd ! i)) (ws ! i)"
  shows "delete_parse P (enc_delete oid b_K ws) rels = Panic"
  using wf_relation_mapD [OF assms(1,2)] wf_fields_bound [of P rd] assms
    parse_keys_wide [of ws "length (r_fields (inner rd))" "key_fields rd" P "[]" "key_indexes rd"]
    message_header [of "enc_delete oid b_K ws" b_D oid "b_K # enc_tuple ws"]
  by (simp add: delete_parse_def enc_delete_def get_old_tuple_data_def)

subsection \<open>Properties\<close>

lemma fixture_maps_wf:
  "wf_relation_map x86_platform get_example_rel_map"
  "wf_relation_map x86_platform get_example_rel_map_keys"
  "wf_relation_map x86_platform get_tests_rel_map"
  "wf_relation_map x86_platform complex_relation_map"
  using fixtures_wf
  by (auto simp: wf_relation_map_def get_example_rel_map_def get_example_rel_map_keys_def
      get_tests_rel_map_def complex_relation_map_def get_example_rel_data_def get_example_rel_def
      get_example_rel_data_keys_def get_example_rel_keys_def get_tests_rel_data_def get_tests_rel_def
      complex_relation_def split: if_splits)

text \<open>
  C21: a row message decodes to the change it carries, under the relation's OID and with the relation's
  data: an Insert to its row; an Update, TOASTed markers of the new row included, to an update with an
  empty old row when the server sent none; and for a relation whose identity is the whole row an Update
  with its full old row and a Delete to exactly these rows.
\<close>

theorem row_messages_roundtrip:
  assumes "wf_relation_map P rels" and "rels oid = Some rd"
    and "row_ok P False (kinds rd) ws" and "row_ok P True (kinds rd) news"
  shows "insert_parse P (enc_insert oid ws) rels =
      Ok (\<lparr>ev_op = Insert (row_of (kinds rd) ws), ev_rel = oid\<rparr>, rd) \<and>
    update_parse P (enc_update oid None news) rels =
      Ok (\<lparr>ev_op = Update [] (row_of (kinds rd) news), ev_rel = oid\<rparr>, rd) \<and>
    (replica_id (inner rd) = Row \<longrightarrow>
      update_parse P (enc_update oid (Some (b_O, ws)) news) rels =
        Ok (\<lparr>ev_op = Update (row_of (kinds rd) ws) (row_of (kinds rd) news), ev_rel = oid\<rparr>, rd) \<and>
      delete_parse P (enc_delete oid b_O ws) rels =
        Ok (\<lparr>ev_op = Delete (row_of (kinds rd) ws), ev_rel = oid\<rparr>, rd))"
  using insert_parse_enc [OF assms(1-3)] update_parse_no_old [OF assms(1,2,4)]
    update_parse_row [OF assms(1,2) _ assms(3,4)] delete_parse_row [OF assms(1,2) _ assms(3)]
  by simp

theorem row_messages_roundtrip_witness:
  "insert_parse x86_platform (enc_insert 1 [WBinary [0, 0, 0, 1], WText (bytes_of_str ''hello'')])
     get_example_rel_map =
   Ok (\<lparr>ev_op = Insert [col_byte_id, col_text_name], ev_rel = 1\<rparr>, get_example_rel_data) \<and>
   update_parse x86_platform
     (enc_update 1 (Some (b_O, [WBinary [0, 0, 0, 1], WText (bytes_of_str ''hello'')]))
       [WBinary [0, 0, 0, 1], WToasted]) get_example_rel_map =
   Ok (\<lparr>ev_op = Update [col_byte_id, col_text_name] [col_byte_id, Toasted], ev_rel = 1\<rparr>, get_example_rel_data) \<and>
   delete_parse x86_platform (enc_delete 1 b_O [WBinary [0, 0, 0, 1], WText (bytes_of_str ''hello'')])
     get_example_rel_map =
   Ok (\<lparr>ev_op = Delete [col_byte_id, col_text_name], ev_rel = 1\<rparr>, get_example_rel_data)"
proof -
  let ?ws = "[WBinary [0, 0, 0, 1], WText (bytes_of_str ''hello'')]" and ?news = "[WBinary [0, 0, 0, 1], WToasted]"
  have "row_ok x86_platform True (kinds get_example_rel_data) ?news"
    "row_ok x86_platform False (kinds get_example_rel_data) ?ws"
    "get_example_rel_map 1 = Some get_example_rel_data" "replica_id (inner get_example_rel_data) = Row"
    by (auto simp: row_ok_def kinds_def fixtures less_Suc_eq)
  then show ?thesis
    using row_messages_roundtrip [OF fixture_maps_wf(1), of 1 get_example_rel_data ?ws ?news]
    by (auto simp: kinds_def fixtures row_of_def from_be_bytes_def be_nat_def)
qed

text \<open>
  C39: a Delete message with a key tuple, for a relation of at most six columns, decodes to the delete of
  its complete key exactly when all key columns but the last are the first columns of the relation.
  For any other composite key the decoder returns a proper prefix of the key: its early return compares
  the column number, not the key's number, with the number of keys (\<open>tuple_data.rs\<close> line 97).
\<close>

theorem delete_key_message_complete_iff:
  assumes "rels oid = Some rd" and "keys_ok P rd ws" and "length ws \<le> 6"
  shows "delete_parse P (enc_delete oid b_K ws) rels =
      Ok (\<lparr>ev_op = Delete (key_values rd ws), ev_rel = oid\<rparr>, rd) \<longleftrightarrow> leading_keys rd"
  by (rule delete_parse_keys_complete_iff [where rels = rels, OF assms])

theorem delete_key_message_complete_iff_witness:
  "delete_parse x86_platform (enc_delete 16386 b_K [WBinary [0, 0, 0, 4], WNull, WNull]) get_tests_rel_map =
   Ok (\<lparr>ev_op = Delete [Int4 4], ev_rel = 16386\<rparr>, get_tests_rel_data)"
proof -
  let ?ws = "[WBinary [0, 0, 0, 4], WNull, WNull]"
  have "keys_ok x86_platform get_tests_rel_data ?ws" "leading_keys get_tests_rel_data"
    "get_tests_rel_map 16386 = Some get_tests_rel_data"
    by (auto simp: keys_ok_def key_tuple_ok_def leading_keys_def fixtures less_Suc_eq)
  moreover have "key_values get_tests_rel_data ?ws = [Int4 4]"
    by (simp add: key_values_def key_row_def fixtures from_be_bytes_def be_nat_def)
  ultimately show ?thesis
    using delete_key_message_complete_iff [of get_tests_rel_map 16386 get_tests_rel_data x86_platform ?ws] by simp
qed

text \<open>
  C40: for a relation of at most six columns whose key columns come first, an Update message that
  carries the old key (the key changed) and a new row of fewer than 256 columns is refused: the size
  reported for the key tuple is one byte too large (\<open>tuple_data.rs\<close> line 100 adds \<open>total_fields - i\<close> for
  the \<open>total_fields - i - 1\<close> nulls left), so the decoder looks for the letter N one byte after it and
  finds the high byte of the column count, which is zero.
\<close>

theorem update_with_old_key_refused:
  assumes "rels oid = Some rd" and "keys_ok P rd ws" and "length ws \<le> 6" and "leading_keys rd"
    and "length new < 256"
  shows "update_parse P (enc_update oid (Some (b_K, ws)) new) rels = Err (WrongNewTupleKey 0)"
  by (rule update_parse_keys_rejected [where rels = rels, OF assms])

theorem update_with_old_key_refused_witness:
  "update_parse x86_platform
     (enc_update 16386 (Some (b_K, [WBinary [0, 0, 0, 4], WNull, WNull])) [WBinary [0, 0, 0, 5], WNull, WNull])
     get_tests_rel_map = Err (WrongNewTupleKey 0)"
  by (rule update_with_old_key_refused [where rd = get_tests_rel_data])
    (auto simp: keys_ok_def key_tuple_ok_def leading_keys_def fixtures less_Suc_eq)

text \<open>
  A Delete message with a key tuple panics for every relation of more than six columns that has
  fewer key columns than columns: the fallback loop of \<open>parse_keys\<close> looks up key fields by column
  number (\<open>tuple_data.rs\<close> line 133).
\<close>

lemma delete_key_of_wide_relation_panics:
  assumes "wf_relation_map P rels" and "rels oid = Some rd" and "replica_id (inner rd) = Keys"
    and "length ws = length (r_fields (inner rd))" and "6 < length ws" and "length (key_fields rd) < length ws"
    and "\<forall>i<length (key_fields rd). value_ok P False (kf_kind (key_fields rd ! i)) (ws ! i)"
  shows "delete_parse P (enc_delete oid b_K ws) rels = Panic"
  by (rule delete_parse_keys_wide [OF assms])

definition wide_rel_data :: RelationData where
  "wide_rel_data =
     \<lparr>inner = \<lparr>relation_oid = 9, r_name = ''wide'', r_namespace = ''public'',
               r_fields = \<lparr>f_is_key = True, f_name = ''id'', f_kind = FK_Int4\<rparr> #
                 replicate 6 \<lparr>f_is_key = False, f_name = ''c'', f_kind = FK_Int4\<rparr>,
               replica_id = Keys\<rparr>,
      key_fields = [\<lparr>kf_name = ''id'', kf_kind = FK_Int4\<rparr>], key_indexes = [0]\<rparr>"

lemma delete_key_of_wide_relation_panics_witness:
  "delete_parse x86_platform (enc_delete 9 b_K (WBinary [0, 0, 0, 1] # replicate 6 WNull)) [9 \<mapsto> wide_rel_data] = Panic"
proof -
  have "f_is_key ((a # replicate 6 b) ! i) \<longleftrightarrow> i = 0" if "i < 7" "f_is_key a" "\<not> f_is_key b" for a b :: Field and i
    using that by (cases i) simp_all
  then have "wf_relation_data x86_platform wide_rel_data"
    by (auto simp: wf_relation_data_def wide_rel_data_def)
  then have "wf_relation_map x86_platform [9 \<mapsto> wide_rel_data]"
    by (simp add: wf_relation_map_def) (simp add: wide_rel_data_def)
  then show ?thesis
    by (rule delete_key_of_wide_relation_panics [where rd = wide_rel_data]) (auto simp: wide_rel_data_def)
qed

end
