(* ===== verification/Decoder_Safety.thy ===== *)
theory Decoder_Safety imports Message_Decoder begin

text \<open>
  What the row decoders guarantee on every input, not only on well-formed messages: the errors of a
  bad header, the types of the decoded values, and the absence of panics where no column is text.
\<close>

subsection \<open>Types of decoded values\<close>

text \<open>
  A value that may stand in a column of a kind: text comes in any column (the server may send any
  type in text form), and TOASTed values only in updates.
\<close>

fun has_kind :: "platform \<Rightarrow> bool \<Rightarrow> FieldKind \<Rightarrow> PgValue \<Rightarrow> bool" where
  "has_kind P upd k Null = True"
| "has_kind P upd k Toasted = upd"
| "has_kind P upd k (Text s) = utf8_valid P (bytes_of_str s)"
| "has_kind P upd k (Int4 n) = (k = FK_Int4)"
| "has_kind P upd k (Int8 n) = (k = FK_Int8)"
| "has_kind P upd k (Bool b) = (k = FK_Bool)"
| "has_kind P upd k (Timestamp t) = (k = FK_Timestamp)"

definition values_have_kinds :: "platform \<Rightarrow> bool \<Rightarrow> FieldKind list \<Rightarrow> PgValue list \<Rightarrow> bool" where
  "values_have_kinds P upd ks vs \<longleftrightarrow>
     length vs \<le> length ks \<and> (\<forall>i<length vs. has_kind P upd (ks ! i) (vs ! i))"

lemma values_have_kinds_Nil [simp]: "values_have_kinds P upd ks []"
  by (simp add: values_have_kinds_def)

lemma values_have_kinds_snoc:
  "values_have_kinds P upd ks vs \<Longrightarrow> length vs < length ks \<Longrightarrow> has_kind P upd (ks ! length vs) v \<Longrightarrow>
   values_have_kinds P upd ks (vs @ [v])"
  by (auto simp: values_have_kinds_def nth_append less_Suc_eq)

lemma parse_value_kind:
  "parse_value P get_kind data f upd = Ok (v, len) \<Longrightarrow> has_kind P upd (get_kind f) v"
  by (cases "get_kind f")
    (auto simp: parse_value_def parse_binary_def parse_i64_def simd_from_utf8_def outcome_inv Let_def
      split: if_splits)

lemma index_loop_kinds:
  assumes "index_loop P get_kind data fs upd [a..<n] pos cols = Ok (vs, e)"
    and "values_have_kinds P upd (map get_kind fs) cols" and "length cols = a"
  shows "values_have_kinds P upd (map get_kind fs) vs"
  using assms
proof (induction "n - a" arbitrary: a pos cols)
  case 0
  then show ?case by simp
next
  case (Suc m)
  then have a: "[a..<n] = a # [Suc a..<n]" by (simp add: upt_conv_Cons)
  from Suc.prems(1) obtain v len where v: "parse_value P get_kind (drop pos data) (fs ! a) upd = Ok (v, len)"
    and i: "a < length fs"
    and rest: "index_loop P get_kind data fs upd [Suc a..<n] (pos + len) (cols @ [v]) = Ok (vs, e)"
    by (auto simp: a outcome_inv)
  have "values_have_kinds P upd (map get_kind fs) (cols @ [v])"
    using Suc.prems(2,3) i parse_value_kind [OF v] by (intro values_have_kinds_snoc) simp_all
  then show ?case
    using Suc.hyps(1) [of "Suc a" "pos + len" "cols @ [v]"] Suc.hyps(2) Suc.prems(3) rest by simp
qed

lemma keys_loop_kinds:
  assumes "keys_loop P data fs indexes total_fields js pos key_idx cols = Ok (vs, e)"
    and "values_have_kinds P False (map keyfield_get_kind fs) cols" and "length cols = key_idx"
  shows "values_have_kinds P False (map keyfield_get_kind fs) vs"
  using assms
proof (induction js arbitrary: pos key_idx cols)
  case Nil
  then show ?case by simp
next
  case (Cons i js)
  show ?case
  proof (cases "i = indexes ! key_idx")
    case False
    then show ?thesis using Cons by (auto simp: outcome_inv)
  next
    case True
    with Cons.prems(1) obtain v len where
      v: "parse_value P keyfield_get_kind (drop pos data) (fs ! key_idx) False = Ok (v, len)"
      and k: "key_idx < length fs"
      and rest: "(if i < length indexes - 1
         then keys_loop P data fs indexes total_fields js (pos + len) (key_idx + 1) (cols @ [v])
         else Ok (cols @ [v], pos + len + total_fields - i)) = Ok (vs, e)"
      by (auto simp: outcome_inv)
    have c: "values_have_kinds P False (map keyfield_get_kind fs) (cols @ [v])"
      using Cons.prems(2,3) k parse_value_kind [OF v] by (intro values_have_kinds_snoc) simp_all
    show ?thesis
      using rest c Cons.IH [of "pos + len" "key_idx + 1" "cols @ [v]"] Cons.prems(3)
      by (auto split: if_splits)
  qed
qed

lemma tuple_parse_kinds:
  assumes "tuple_parse P data fs upd = Ok (vs, e)" and "length fs < 2 ^ 16"
  shows "values_have_kinds P upd (map f_kind fs) vs"
proof -
  let ?n = "be_nat (take 2 data)"
  have n: "?n \<le> length fs" and "fields_loop P f_kind data upd (take ?n fs) 2 [] = Ok (vs, e)"
    using assms by (auto simp: tuple_parse_spec tuple_spec_def split: if_splits)
  then have "index_loop P f_kind data fs upd [0..<?n] 2 [] = Ok (vs, e)"
    by (simp add: index_loop_fields_loop)
  then show ?thesis by (rule index_loop_kinds) simp_all
qed

lemma parse_keys_kinds:
  assumes "parse_keys P data fs indexes total_fields = Ok (vs, e)"
  shows "values_have_kinds P False (map keyfield_get_kind fs) vs"
proof -
  have "(\<exists>N. num_cols_keys P N data fs indexes total_fields = Ok (vs, e)) \<or>
      (\<exists>n. index_loop P keyfield_get_kind data fs False [0..<n] 2 [] = Ok (vs, e))"
    using assms
    by (auto simp: parse_keys_def and_then_Ok_iff split: if_split_asm)
  then show ?thesis
    using keys_loop_kinds [where cols = "[]" and key_idx = 0]
      index_loop_kinds [where cols = "[]" and a = 0 and get_kind = keyfield_get_kind]
    unfolding num_cols_keys_def by fastforce
qed

subsection \<open>Events that conform to their relation\<close>

definition old_conforms :: "platform \<Rightarrow> RelationData \<Rightarrow> PgValue list \<Rightarrow> bool" where
  "old_conforms P rd olds \<longleftrightarrow>
     (case replica_id (inner rd) of
        Row \<Rightarrow> values_have_kinds P False (kinds rd) olds
      | Keys \<Rightarrow> values_have_kinds P False (map keyfield_get_kind (key_fields rd)) olds)"

fun op_conforms :: "platform \<Rightarrow> RelationData \<Rightarrow> Op \<Rightarrow> bool" where
  "op_conforms P rd (Insert vs) = values_have_kinds P False (kinds rd) vs"
| "op_conforms P rd (Update olds vs) = (old_conforms P rd olds \<and> values_have_kinds P True (kinds rd) vs)"
| "op_conforms P rd (Delete olds) = old_conforms P rd olds"

definition conforms :: "platform \<Rightarrow> relation_map \<Rightarrow> ChangeEvent \<Rightarrow> RelationData \<Rightarrow> bool" where
  "conforms P rels ev rd \<longleftrightarrow> rels (ev_rel ev) = Some rd \<and> op_conforms P rd (ev_op ev)"

lemma old_tuple_conforms:
  assumes "get_old_tuple_data P data rd = Ok (olds, e)" and "length (r_fields (inner rd)) < 2 ^ 16"
  shows "old_conforms P rd olds"
proof (cases "replica_id (inner rd)")
  case Keys
  then obtain d e' where "parse_keys P d (key_fields rd) (key_indexes rd) (length (r_fields (inner rd))) = Ok (olds, e')"
    using assms by (auto simp: get_old_tuple_data_def outcome_inv split: if_splits)
  then show ?thesis by (simp add: old_conforms_def Keys parse_keys_kinds)
next
  case Row
  then obtain d e' where "tuple_parse P d (r_fields (inner rd)) False = Ok (olds, e')"
    using assms by (auto simp: get_old_tuple_data_def outcome_inv split: if_splits)
  then show ?thesis using assms(2) by (simp add: old_conforms_def kinds_def Row tuple_parse_kinds)
qed

lemma new_tuple_kinds:
  "get_new_tuple_data P data (r_fields (inner rd)) upd = Ok vs \<Longrightarrow> length (r_fields (inner rd)) < 2 ^ 16 \<Longrightarrow>
   values_have_kinds P upd (kinds rd) vs"
  by (auto simp: get_new_tuple_data_def outcome_inv kinds_def tuple_parse_kinds split: if_splits)

lemma insert_parse_conforms:
  assumes "wf_relation_map P rels" and "insert_parse P data rels = Ok (ev, rd)"
  shows "conforms P rels ev rd"
proof -
  from assms(2) obtain oid d vs where rd: "rels oid = Some rd"
    and vs: "get_new_tuple_data P d (r_fields (inner rd)) False = Ok vs"
    and ev: "ev = \<lparr>ev_op = Insert vs, ev_rel = relation_oid (inner rd)\<rparr>"
    by (auto simp: insert_parse_def outcome_inv split: if_splits)
  have wf: "wf_relation_data P rd" "relation_oid (inner rd) = oid"
    using wf_relation_mapD [OF assms(1) rd] by auto
  then show ?thesis
    using rd ev new_tuple_kinds [OF vs wf_fields_bound [OF wf(1)]] by (simp add: conforms_def)
qed

lemma delete_parse_conforms:
  assumes "wf_relation_map P rels" and "delete_parse P data rels = Ok (ev, rd)"
  shows "conforms P rels ev rd"
proof -
  from assms(2) obtain oid d olds e where rd: "rels oid = Some rd"
    and olds: "get_old_tuple_data P d rd = Ok (olds, e)"
    and ev: "ev = \<lparr>ev_op = Delete olds, ev_rel = oid\<rparr>"
    by (auto simp: delete_parse_def outcome_inv split: if_splits)
  have "wf_relation_data P rd"
    using wf_relation_mapD [OF assms(1) rd] by auto
  then show ?thesis
    using rd ev old_tuple_conforms [OF olds] wf_fields_bound by (simp add: conforms_def)
qed

lemma update_old_conforms:
  assumes "update_old P data rd = Ok (olds, e)" and "length (r_fields (inner rd)) < 2 ^ 16"
  shows "old_conforms P rd olds"
proof (cases "get_old_tuple_data P data rd")
  case (Ok x)
  then show ?thesis using assms old_tuple_conforms [of P data rd olds e] by (simp add: update_old_def)
next
  case (Err x)
  then have "olds = []" using assms by (auto simp: update_old_def split: if_splits)
  then show ?thesis by (simp add: old_conforms_def split: ReplicaKind.split)
qed (use assms in \<open>simp add: update_old_def\<close>)

lemma update_parse_conforms:
  assumes "wf_relation_map P rels" and "update_parse P data rels = Ok (ev, rd)"
  shows "conforms P rels ev rd"
proof -
  from assms(2) obtain oid d d' olds e vs where rd: "rels oid = Some rd"
    and olds: "update_old P d rd = Ok (olds, e)"
    and vs: "get_new_tuple_data P d' (r_fields (inner rd)) True = Ok vs"
    and ev: "ev = \<lparr>ev_op = Update olds vs, ev_rel = oid\<rparr>"
    by (auto simp: update_parse_def outcome_inv split: if_splits)
  have bound: "length (r_fields (inner rd)) < 2 ^ 16"
    using wf_relation_mapD [OF assms(1) rd] wf_fields_bound by auto
  show ?thesis
    using rd ev update_old_conforms [OF olds bound] new_tuple_kinds [OF vs bound] by (simp add: conforms_def)
qed

subsection \<open>Errors of the header\<close>

definition header_oid :: "byte list \<Rightarrow> u32" where
  "header_oid data = from_be_bytes (take 4 (drop 1 data))"

lemma row_parse_short:
  assumes "length data < 5"
  shows "insert_parse P data rels = Err TruncatedInput" "delete_parse P data rels = Err TruncatedInput"
    "update_parse P data rels = Err TruncatedInput"
  using assms by (simp_all add: insert_parse_def delete_parse_def update_parse_def)

lemma row_parse_unknown:
  assumes "5 \<le> length data" and "rels (header_oid data) = None"
  shows "insert_parse P data rels = Err (UnknownRelation (header_oid data))"
    "delete_parse P data rels = Err (UnknownRelation (header_oid data))"
    "update_parse P data rels = Err (UnknownRelation (header_oid data))"
  using assms by (simp_all add: insert_parse_def delete_parse_def update_parse_def header_oid_def)

subsection \<open>Panics\<close>

text \<open>
  The only read of a row's bytes that is not checked is the binary form of a text column; a relation
  without text columns and with a full row as its identity cannot make the row decoders panic.
\<close>

definition no_text :: "RelationData \<Rightarrow> bool" where
  "no_text rd \<longleftrightarrow> (\<forall>f\<in>set (r_fields (inner rd)). f_kind f \<noteq> FK_Text)"

lemma tuple_parse_no_panic:
  assumes "\<forall>f\<in>set fs. f_kind f \<noteq> FK_Text" and "length fs < 2 ^ 16"
  shows "tuple_parse P data fs upd \<noteq> Panic"
proof -
  have "fields_loop P f_kind data upd (take n fs) 2 [] \<noteq> Panic" if "2 \<le> length data" for n
    using assms(1) that by (intro fields_loop_no_panic) (auto dest: in_set_takeD)
  then show ?thesis by (simp add: tuple_parse_spec [OF assms(2)] tuple_spec_def)
qed

lemma get_new_tuple_data_no_panic:
  assumes "\<forall>f\<in>set fs. f_kind f \<noteq> FK_Text" and "length fs < 2 ^ 16"
  shows "get_new_tuple_data P data fs upd \<noteq> Panic"
  using tuple_parse_no_panic [OF assms]
  by (auto simp: get_new_tuple_data_def outcome_inv Suc_le_eq split: prod.splits)

lemma get_old_tuple_data_no_panic:
  assumes "no_text rd" and "length (r_fields (inner rd)) < 2 ^ 16" and "replica_id (inner rd) = Row"
  shows "get_old_tuple_data P data rd \<noteq> Panic"
  using tuple_parse_no_panic [of "r_fields (inner rd)"] assms
  by (auto simp: get_old_tuple_data_def no_text_def outcome_inv Suc_le_eq split: prod.splits)

lemma insert_parse_no_panic:
  assumes "wf_relation_map P rels" and "\<forall>rd\<in>ran rels. no_text rd"
  shows "insert_parse P data rels \<noteq> Panic"
proof -
  have "get_new_tuple_data P d (r_fields (inner rd)) False \<noteq> Panic" if "rels oid = Some rd" for oid rd d
    using get_new_tuple_data_no_panic [of "r_fields (inner rd)"] wf_relation_mapD [OF assms(1) that]
      wf_fields_bound assms(2) that by (auto simp: no_text_def ran_def)
  then show ?thesis by (auto simp: insert_parse_def outcome_inv)
qed

lemma delete_parse_no_panic:
  assumes "wf_relation_map P rels" and "\<forall>rd\<in>ran rels. no_text rd \<and> replica_id (inner rd) = Row"
  shows "delete_parse P data rels \<noteq> Panic"
proof -
  have "get_old_tuple_data P d rd \<noteq> Panic" if "rels oid = Some rd" for oid rd d
    using wf_relation_mapD [OF assms(1) that] wf_fields_bound assms(2) that
    by (intro get_old_tuple_data_no_panic) (auto simp: ran_def)
  then show ?thesis by (auto simp: delete_parse_def outcome_inv split: prod.splits)
qed

lemma update_parse_no_panic:
  assumes "wf_relation_map P rels" and "\<forall>rd\<in>ran rels. no_text rd \<and> replica_id (inner rd) = Row"
  shows "update_parse P data rels \<noteq> Panic"
proof -
  have old: "update_old P d rd \<noteq> Panic" if "rels oid = Some rd" for oid rd d
    using wf_relation_mapD [OF assms(1) that] wf_fields_bound assms(2) that
      get_old_tuple_data_no_panic [of rd P d]
    by (auto simp: ran_def update_old_def split: outcome.splits)
  have new: "get_new_tuple_data P d (r_fields (inner rd)) True \<noteq> Panic" if "rels oid = Some rd" for oid rd d
    using get_new_tuple_data_no_panic [of "r_fields (inner rd)"] wf_relation_mapD [OF assms(1) that]
      wf_fields_bound assms(2) that by (auto simp: no_text_def ran_def)
  show ?thesis using old new by (auto simp: update_parse_def outcome_inv split: prod.splits)
qed

subsection \<open>Properties\<close>



text \<open>
  C32: when no relation has a text column and every relation's identity is the whole row, no input at
  all makes a row decoder panic; every malformed message ends in an error.
\<close>

theorem row_decoders_do_not_panic:
  assumes "wf_relation_map P rels" and "\<forall>rd\<in>ran rels. no_text rd \<and> replica_id (inner rd) = Row"
  shows "insert_parse P data rels \<noteq> Panic \<and> delete_parse P data rels \<noteq> Panic \<and> update_parse P data rels \<noteq> Panic"
  using insert_parse_no_panic [OF assms(1)] delete_parse_no_panic [OF assms] update_parse_no_panic [OF assms]
    assms(2) by blast

definition counter_rel_data :: RelationData where
  "counter_rel_data =
     \<lparr>inner = \<lparr>relation_oid = 3, r_name = ''counter'', r_namespace = ''public'',
               r_fields = [\<lparr>f_is_key = False, f_name = ''n'', f_kind = FK_Int8\<rparr>], replica_id = Row\<rparr>,
      key_fields = [], key_indexes = []\<rparr>"

theorem row_decoders_do_not_panic_witness:
  "insert_parse x86_platform [b_I, 0, 0, 0, 3, b_N, 0, 1, b_b, 255, 255, 255, 255] [3 \<mapsto> counter_rel_data] \<noteq> Panic"
proof -
  have "wf_relation_data x86_platform counter_rel_data"
    by (auto simp: wf_relation_data_def counter_rel_data_def less_Suc_eq)
  then have "wf_relation_map x86_platform [3 \<mapsto> counter_rel_data]"
    by (simp add: wf_relation_map_def) (simp add: counter_rel_data_def)
  moreover have "\<forall>rd\<in>ran [3 \<mapsto> counter_rel_data]. no_text rd \<and> replica_id (inner rd) = Row"
    by (simp add: no_text_def) (simp add: counter_rel_data_def)
  ultimately show ?thesis using row_decoders_do_not_panic by blast
qed

text \<open>
  The row decoders agree on bad headers: fewer than five bytes are a truncated input, and a
  relation OID the map does not hold is reported as such, before anything after the OID is looked at.
\<close>

lemma bad_row_headers_refused:
  "(length data < 5 \<longrightarrow>
      insert_parse P data rels = Err TruncatedInput \<and> delete_parse P data rels = Err TruncatedInput \<and>
      update_parse P data rels = Err TruncatedInput) \<and>
   (5 \<le> length data \<and> rels (header_oid data) = None \<longrightarrow>
      insert_parse P data rels = Err (UnknownRelation (header_oid data)) \<and>
      delete_parse P data rels = Err (UnknownRelation (header_oid data)) \<and>
      update_parse P data rels = Err (UnknownRelation (header_oid data)))"
  using row_parse_short [of data P rels] row_parse_unknown [of data rels P] by blast

end
