(* ===== verification/Wal_Reader.thy ===== *)
theory Wal_Reader imports Decoder_Safety "HOL-Library.Sublist" begin

text \<open>
  \<open>cdc-wal-reader/src/lib.rs\<close>: the loop that reads the write-ahead log and drives a \<open>Producer\<close>.  The
  first part is the code over an arbitrary producer; then the trait's contract as a locale, with the
  lemmas about the loop that rest on it.
\<close>

subsection \<open>The trait Producer\<close>

text \<open>
  The methods act on a state of the implementor and return \<open>Result<(), String>\<close>: \<^term>\<open>Inl e\<close> is
  \<open>Err(e)\<close>.  (The methods that take \<open>&self\<close> reach their state through the client they hold.)
\<close>

type_synonym pres = "string + unit"

record 'p producer =
  p_start_transaction :: "'p \<Rightarrow> pres \<times> 'p"
  p_send :: "Relation \<Rightarrow> ChangeEvent \<Rightarrow> 'p \<Rightarrow> pres \<times> 'p"
  p_on_relation :: "Relation \<Rightarrow> 'p \<Rightarrow> pres \<times> 'p"
  p_commit_transaction :: "u64 \<Rightarrow> 'p \<Rightarrow> pres \<times> 'p"
  p_abort_transaction :: "'p \<Rightarrow> pres \<times> 'p"

definition is_err :: "pres \<Rightarrow> bool" where
  "is_err r = (case r of Inl e \<Rightarrow> True | Inr u \<Rightarrow> False)"

lemma is_err_simps [simp]: "is_err (Inl e)" "\<not> is_err (Inr u)"
  by (simp_all add: is_err_def)

subsection \<open>The replication client\<close>

text \<open>
  What \<open>client.recv()\<close> of the \<open>pgwire_replication\<close> crate yields, as far as the loop looks at it: an
  event, the end of the connection, or an error.  LSNs are \<open>u64\<close>; the last constructor of
  \<open>ReplicationEvent\<close> stands for the remaining ones (\<open>ev => debug!(..)\<close>).
\<close>

datatype ReplicationEvent =
    XLogData (wal_end: u64) (xlog_data: "byte list")
  | Begin (final_lsn: u64) (xid: u32) (begin_time_micros: i64)
  | Commit (commit_lsn: u64) (commit_end_lsn: u64) (commit_time_micros: i64)
  | KeepAlive
  | Message bool u64 string "byte list"
  | OtherEvent

datatype recv = Event ReplicationEvent | Closed | Failed string

record PostgresConfig =
  pg_host :: string
  pg_user :: string
  pg_password :: string
  pg_slotname :: string
  pg_dbname :: string
  pg_publication :: string
  pg_port :: u16

definition default_port :: u16 where
  "default_port = 5432"

record ReplicationConfig =
  rc_host :: string
  rc_user :: string
  rc_password :: string
  rc_database :: string
  rc_slot :: string
  rc_publication :: string
  rc_start_lsn :: u64
  rc_binary :: bool
  rc_port :: u16

definition replication_config :: "PostgresConfig \<Rightarrow> u64 \<Rightarrow> ReplicationConfig" where
  "replication_config own_config last_lsn =
     \<lparr>rc_host = pg_host own_config, rc_user = pg_user own_config, rc_password = pg_password own_config,
      rc_database = pg_dbname own_config, rc_slot = pg_slotname own_config,
      rc_publication = pg_publication own_config, rc_start_lsn = last_lsn, rc_binary = True,
      rc_port = pg_port own_config\<rparr>"

subsection \<open>The loop\<close>

text \<open>
  The metrics the loop records: the counters \<open>cdc_events_produced_total\<close> (per operation and table) and
  \<open>cdc_produce_errors_total\<close> (per stage), and the gauge \<open>cdc_lsn_committed\<close>.
\<close>

datatype metric = EventsProduced string string | ProduceErrors string | LsnCommitted u64

text \<open>
  The loop's local variables, the producer's state, and the effects on the outside: the metrics and
  the LSNs given to \<open>client.update_applied_lsn\<close>.
\<close>

record 'p wal =
  w_producer :: 'p
  relation_map :: relation_map
  currently_in_transaction :: bool
  applied_lsns :: "u64 list"
  metrics :: "metric list"

text \<open>\<open>None\<close>: the thread panics.\<close>

definition send_to_producer ::
    "'p producer \<Rightarrow> (ChangeEvent \<times> RelationData) dres \<Rightarrow> 'p wal \<Rightarrow> 'p wal option" where
  "send_to_producer ops event_res st =
     (case event_res of
        Ok (event, relation) \<Rightarrow>
          (let m = metrics st @ [EventsProduced (op_str (ev_op event)) (r_name (inner relation))];
               (r, p) = p_send ops (inner relation) event (w_producer st)
           in if is_err r
              then (let (_, p') = p_abort_transaction ops p
                    in Some (st\<lparr>w_producer := p', metrics := m @ [ProduceErrors ''send''],
                                currently_in_transaction := False\<rparr>))
              else Some (st\<lparr>w_producer := p, metrics := m\<rparr>))
      | Err e \<Rightarrow> Some st
      | Panic \<Rightarrow> None)"

definition on_relation_message :: "platform \<Rightarrow> 'p producer \<Rightarrow> byte list \<Rightarrow> 'p wal \<Rightarrow> 'p wal option" where
  "on_relation_message P ops data st =
     (case relation_parse P data of
        Ok relation \<Rightarrow>
          (let (_, p) = p_on_relation ops (inner relation) (w_producer st)
           in Some (st\<lparr>w_producer := p,
                       relation_map := (relation_map st)(relation_oid (inner relation) \<mapsto> relation)\<rparr>))
      | Err e \<Rightarrow> Some st
      | Panic \<Rightarrow> None)"

definition on_xlog_data :: "platform \<Rightarrow> 'p producer \<Rightarrow> byte list \<Rightarrow> 'p wal \<Rightarrow> 'p wal option" where
  "on_xlog_data P ops data st =
     (case data of
        [] \<Rightarrow> None
      | tag # _ \<Rightarrow>
          if tag = b_R then on_relation_message P ops data st
          else if tag = b_I then
            (if currently_in_transaction st
             then send_to_producer ops (insert_parse P data (relation_map st)) st else Some st)
          else if tag = b_D then
            (if currently_in_transaction st
             then send_to_producer ops (delete_parse P data (relation_map st)) st else Some st)
          else if tag = b_U then
            (if currently_in_transaction st
             then send_to_producer ops (update_parse P data (relation_map st)) st else Some st)
          else Some st)"

definition on_begin :: "'p producer \<Rightarrow> 'p wal \<Rightarrow> 'p wal" where
  "on_begin ops st =
     (let st1 = (if currently_in_transaction st
                 then st\<lparr>w_producer := snd (p_abort_transaction ops (w_producer st))\<rparr>
                 else st\<lparr>currently_in_transaction := True\<rparr>)
      in st1\<lparr>w_producer := snd (p_start_transaction ops (w_producer st1))\<rparr>)"

definition on_commit :: "'p producer \<Rightarrow> u64 \<Rightarrow> u64 \<Rightarrow> 'p wal \<Rightarrow> 'p wal" where
  "on_commit ops lsn end_lsn st =
     (if currently_in_transaction st
      then (let st1 = st\<lparr>currently_in_transaction := False\<rparr>;
                (r, p) = p_commit_transaction ops end_lsn (w_producer st1)
            in if is_err r
               then st1\<lparr>w_producer := p, metrics := metrics st1 @ [ProduceErrors ''commit'']\<rparr>
               else st1\<lparr>w_producer := p, applied_lsns := applied_lsns st1 @ [lsn],
                        metrics := metrics st1 @ [LsnCommitted lsn]\<rparr>)
      else st)"

fun wal_step :: "platform \<Rightarrow> 'p producer \<Rightarrow> 'p wal \<Rightarrow> ReplicationEvent \<Rightarrow> 'p wal option" where
  "wal_step P ops st (XLogData we data) = on_xlog_data P ops data st"
| "wal_step P ops st (Begin fl x t) = Some (on_begin ops st)"
| "wal_step P ops st (Commit lsn end_lsn t) = Some (on_commit ops lsn end_lsn st)"
| "wal_step P ops st KeepAlive = Some st"
| "wal_step P ops st (Message tr l pre c) = Some st"
| "wal_step P ops st OtherEvent = Some st"

datatype wal_exit = Waiting | Finished | WalError string | Panicked

text \<open>
  The loop over the results of \<open>recv\<close>; when the list is used up the loop waits for more.  The final
  abort is only reached when the connection is closed: the error of \<open>recv\<close> leaves with \<open>?\<close>.
\<close>

fun wal_loop :: "platform \<Rightarrow> 'p producer \<Rightarrow> 'p wal \<Rightarrow> recv list \<Rightarrow> 'p wal \<times> wal_exit" where
  "wal_loop P ops st [] = (st, Waiting)"
| "wal_loop P ops st (Event ev # rs) =
     (case wal_step P ops st ev of
        None \<Rightarrow> (st, Panicked)
      | Some st' \<Rightarrow> wal_loop P ops st' rs)"
| "wal_loop P ops st (Closed # rs) =
     (if currently_in_transaction st
      then (st\<lparr>w_producer := snd (p_abort_transaction ops (w_producer st))\<rparr>, Finished)
      else (st, Finished))"
| "wal_loop P ops st (Failed e # rs) = (st, WalError e)"

definition initial_wal :: "'p \<Rightarrow> 'p wal" where
  "initial_wal p = \<lparr>w_producer = p, relation_map = Map.empty, currently_in_transaction = False,
                    applied_lsns = [], metrics = []\<rparr>"

text \<open>\<open>connect\<close> is \<open>ReplicationClient::connect\<close>: an error, or the results of the client's \<open>recv\<close>.\<close>

definition start_wal_input :: "platform \<Rightarrow> (ReplicationConfig \<Rightarrow> string + recv list) \<Rightarrow> 'p producer \<Rightarrow>
    PostgresConfig \<Rightarrow> u64 \<Rightarrow> 'p \<Rightarrow> 'p wal \<times> wal_exit" where
  "start_wal_input P connect ops own_config last_lsn p =
     (case connect (replication_config own_config last_lsn) of
        Inl e \<Rightarrow> (initial_wal p, WalError e)
      | Inr rs \<Rightarrow> wal_loop P ops (initial_wal p) rs)"

subsection \<open>Reachable states\<close>

text \<open>The loop as a transition system: the states it can be in between two events.\<close>

inductive wal_reach :: "platform \<Rightarrow> 'p producer \<Rightarrow> 'p \<Rightarrow> 'p wal \<Rightarrow> bool" for P ops p where
  reach_init: "wal_reach P ops p (initial_wal p)"
| reach_step: "wal_reach P ops p st \<Longrightarrow> wal_step P ops st ev = Some st' \<Longrightarrow> wal_reach P ops p st'"

text \<open>What the loop leaves behind: a reachable state, or one whose open transaction was aborted at the end.\<close>

lemma wal_loop_reach:
  assumes "wal_loop P ops st rs = (st', ex)" and "wal_reach P ops p st"
  shows "wal_reach P ops p st' \<or>
    (ex = Finished \<and> (\<exists>st''. wal_reach P ops p st'' \<and> currently_in_transaction st'' \<and>
       st' = st''\<lparr>w_producer := snd (p_abort_transaction ops (w_producer st''))\<rparr>))"
  using assms
  by (induction P ops st rs rule: wal_loop.induct) (auto split: option.splits if_splits intro: reach_step)

lemma wal_step_relation_map:
  assumes "wal_step P ops st ev = Some st'"
  shows "relation_map st' = relation_map st \<or>
    (\<exists>data rd. relation_parse P data = Ok rd \<and>
       relation_map st' = (relation_map st)(relation_oid (inner rd) \<mapsto> rd))"
proof -
  have send: "relation_map st' = relation_map st" if "send_to_producer ops res st = Some st'" for res
    using that by (auto simp: send_to_producer_def Let_def split_beta split: outcome.splits if_splits)
  have rel: "\<exists>data rd. relation_parse P data = Ok rd \<and>
      relation_map st' = (relation_map st)(relation_oid (inner rd) \<mapsto> rd)"
    if "on_relation_message P ops data st = Some st'" "st' \<noteq> st" for data
    using that by (force simp: on_relation_message_def Let_def split_beta split: outcome.splits)
  show ?thesis
    using assms send rel
    by (cases ev)
      (auto simp: on_xlog_data_def on_begin_def on_commit_def Let_def split_beta split: list.splits if_splits)
qed

lemma wal_reach_relation_map:
  assumes "utf8_platform P" and "wal_reach P ops p st"
  shows "wf_relation_map P (relation_map st)"
  using assms(2)
proof induction
  case reach_init
  then show ?case by (simp add: initial_wal_def)
next
  case (reach_step st ev st')
  from wal_step_relation_map [OF reach_step.hyps(2)] show ?case
  proof
    assume "relation_map st' = relation_map st"
    then show ?thesis using reach_step.IH by simp
  next
    assume "\<exists>data rd. relation_parse P data = Ok rd \<and>
       relation_map st' = (relation_map st)(relation_oid (inner rd) \<mapsto> rd)"
    then show ?thesis
      using reach_step.IH utf8_platform.relation_parse_wf [OF assms(1)] wf_relation_map_insert by metis
  qed
qed

subsection \<open>The order of the calls\<close>

text \<open>The calls the loop makes, recorded by a wrapper around any producer.\<close>

datatype call =
    StartCall
  | SendCall Relation ChangeEvent
  | RelationCall Relation
  | CommitCall u64
  | AbortCall

definition record_call :: "call \<Rightarrow> ('p \<Rightarrow> pres \<times> 'p) \<Rightarrow> 'p \<times> call list \<Rightarrow> pres \<times> 'p \<times> call list" where
  "record_call c m s = (let (r, p) = m (fst s) in (r, p, snd s @ [c]))"

definition traced :: "'p producer \<Rightarrow> ('p \<times> call list) producer" where
  "traced ops =
     \<lparr>p_start_transaction = record_call StartCall (p_start_transaction ops),
      p_send = (\<lambda>rel ev. record_call (SendCall rel ev) (p_send ops rel ev)),
      p_on_relation = (\<lambda>rel. record_call (RelationCall rel) (p_on_relation ops rel)),
      p_commit_transaction = (\<lambda>lsn. record_call (CommitCall lsn) (p_commit_transaction ops lsn)),
      p_abort_transaction = record_call AbortCall (p_abort_transaction ops)\<rparr>"

text \<open>
  The protocol: the flag says whether a transaction has been started and neither committed nor
  aborted; a transaction is only started outside one, and sends, commits and aborts happen inside one.
\<close>

fun protocol :: "bool \<Rightarrow> call list \<Rightarrow> bool option" where
  "protocol b [] = Some b"
| "protocol b (StartCall # cs) = (if b then None else protocol True cs)"
| "protocol b (SendCall rel ev # cs) = (if b then protocol True cs else None)"
| "protocol b (RelationCall rel # cs) = protocol b cs"
| "protocol b (CommitCall lsn # cs) = (if b then protocol False cs else None)"
| "protocol b (AbortCall # cs) = (if b then protocol False cs else None)"

lemma protocol_append: "protocol b (cs @ ds) = (case protocol b cs of None \<Rightarrow> None | Some b' \<Rightarrow> protocol b' ds)"
  by (induction b cs rule: protocol.induct) auto

lemma protocol_snoc [simp]:
  "protocol b cs = Some b' \<Longrightarrow> protocol b (cs @ ds) = protocol b' ds"
  by (simp add: protocol_append)

lemma snd_record_call [simp]: "snd (snd (record_call c m s)) = snd s @ [c]"
  by (simp add: record_call_def split_beta)

lemma traced_log:
  "snd (snd (p_start_transaction (traced ops) s)) = snd s @ [StartCall]"
  "snd (snd (p_send (traced ops) rel ev s)) = snd s @ [SendCall rel ev]"
  "snd (snd (p_on_relation (traced ops) rel s)) = snd s @ [RelationCall rel]"
  "snd (snd (p_commit_transaction (traced ops) lsn s)) = snd s @ [CommitCall lsn]"
  "snd (snd (p_abort_transaction (traced ops) s)) = snd s @ [AbortCall]"
  by (simp_all add: traced_def)

definition follows_protocol :: "('p \<times> call list) wal \<Rightarrow> bool" where
  "follows_protocol st \<longleftrightarrow> protocol False (snd (w_producer st)) = Some (currently_in_transaction st)"

lemma send_follows_protocol:
  assumes "send_to_producer (traced ops) res st = Some st'" and "follows_protocol st"
    and "currently_in_transaction st"
  shows "follows_protocol st'"
  using assms
  by (auto simp: send_to_producer_def follows_protocol_def Let_def split_beta traced_log
      split: outcome.splits if_splits)

lemma wal_step_follows_protocol:
  assumes "wal_step P (traced ops) st ev = Some st'" and "follows_protocol st"
  shows "follows_protocol st'"
proof (cases ev)
  case (XLogData we data)
  then have step: "on_xlog_data P (traced ops) data st = Some st'" using assms(1) by simp
  then obtain tag rest where d: "data = tag # rest" by (auto simp: on_xlog_data_def split: list.splits)
  show ?thesis
  proof (cases "tag = b_R")
    case True
    then show ?thesis
      using step assms(2)
      by (auto simp: d on_xlog_data_def on_relation_message_def follows_protocol_def Let_def split_beta
          traced_log split: outcome.splits)
  next
    case False
    then have "st' = st \<or> (currently_in_transaction st \<and>
        (\<exists>res. send_to_producer (traced ops) res st = Some st'))"
      using step by (auto simp: d on_xlog_data_def split: if_splits)
    then show ?thesis using send_follows_protocol assms(2) by metis
  qed
next
  case (Begin fl x t)
  then show ?thesis
    using assms by (auto simp: on_begin_def follows_protocol_def Let_def traced_log)
next
  case (Commit lsn end_lsn t)
  then show ?thesis
    using assms by (auto simp: on_commit_def follows_protocol_def Let_def split_beta traced_log split: if_splits)
qed (use assms in auto)

lemma wal_reach_follows_protocol: "wal_reach P (traced ops) (p, []) st \<Longrightarrow> follows_protocol st"
proof (induction rule: wal_reach.induct)
  case reach_init
  then show ?case by (simp add: initial_wal_def follows_protocol_def)
next
  case (reach_step st ev st')
  then show ?case by (blast intro: wal_step_follows_protocol)
qed

lemma wal_loop_protocol:
  assumes "wal_loop P (traced ops) (initial_wal (p, [])) rs = (st, ex)"
  shows "\<exists>b. protocol False (snd (w_producer st)) = Some b \<and> (ex = Finished \<longrightarrow> \<not> b)"
proof -
  have "\<exists>b. protocol False (snd (w_producer st)) = Some b \<and> (ex = Finished \<longrightarrow> \<not> b)"
    if "wal_loop P (traced ops) st0 rs = (st, ex)" "follows_protocol st0" for st0
    using that
  proof (induction rs arbitrary: st0)
    case Nil
    then show ?case by (auto simp: follows_protocol_def)
  next
    case (Cons r rs)
    show ?case
    proof (cases r)
      case (Event ev)
      then show ?thesis
        using Cons wal_step_follows_protocol by (force simp: follows_protocol_def split: option.splits)
    next
      case Closed
      then show ?thesis
        using Cons by (auto simp: follows_protocol_def traced_log split: if_splits)
    next
      case (Failed e)
      then show ?thesis using Cons by (auto simp: follows_protocol_def)
    qed
  qed
  then show ?thesis using assms by (simp add: initial_wal_def follows_protocol_def)
qed

subsection \<open>Properties\<close>

text \<open>A producer that accepts every call, for the witnesses.\<close>

definition accepting_producer :: "unit producer" where
  "accepting_producer =
     \<lparr>p_start_transaction = (\<lambda>p. (Inr (), p)), p_send = (\<lambda>rel ev p. (Inr (), p)),
      p_on_relation = (\<lambda>rel p. (Inr (), p)), p_commit_transaction = (\<lambda>lsn p. (Inr (), p)),
      p_abort_transaction = (\<lambda>p. (Inr (), p))\<rparr>"

text \<open>
  C9: whatever the server sends and however the producer's calls turn out, the loop calls the producer
  in the order of the transaction protocol: a transaction is only started when none is open on the
  loop's books, events are only sent and commits and aborts only made inside one, and when the
  connection is closed no transaction is left without a commit or an abort.
\<close>

theorem producer_calls_follow_protocol:
  assumes "wal_loop P (traced ops) (initial_wal (p, [])) rs = (st, ex)"
  shows "\<exists>b. protocol False (snd (w_producer st)) = Some b \<and> (ex = Finished \<longrightarrow> \<not> b)"
  by (rule wal_loop_protocol [OF assms])

theorem producer_calls_follow_protocol_witness:
  "\<exists>st. wal_loop x86_platform (traced accepting_producer) (initial_wal ((), []))
      [Event (Begin 9 1 0), Event (Begin 10 2 0), Closed] = (st, Finished) \<and>
    snd (w_producer st) = [StartCall, AbortCall, StartCall, AbortCall] \<and>
    (\<exists>b. protocol False (snd (w_producer st)) = Some b \<and> (Finished = Finished \<longrightarrow> \<not> b))"
proof -
  obtain st where run: "wal_loop x86_platform (traced accepting_producer) (initial_wal ((), []))
      [Event (Begin 9 1 0), Event (Begin 10 2 0), Closed] = (st, Finished)"
    and calls: "snd (w_producer st) = [StartCall, AbortCall, StartCall, AbortCall]"
    by (simp add: on_begin_def initial_wal_def Let_def traced_log)
  from producer_calls_follow_protocol [OF run] run calls show ?thesis by blast
qed

text \<open>
  C17: in every state the loop reaches, the relation map holds only relations that were decoded from
  Relation messages, each well-formed and stored under its own OID, so the row decoders always work on
  consistent relation data.
\<close>

theorem relation_map_stays_well_formed:
  assumes "utf8_platform P" and "wal_reach P ops p st"
  shows "wf_relation_map P (relation_map st)"
  by (rule wal_reach_relation_map [OF assms])

theorem relation_map_stays_well_formed_witness:
  "\<exists>st. wal_reach x86_platform accepting_producer () st \<and> relation_map st 7 \<noteq> None \<and>
     wf_relation_map x86_platform (relation_map st)"
proof -
  let ?m = "enc_relation 7 [112] [117] b_f [] @ []"
  have "relation_parse x86_platform ?m =
    Ok \<lparr>inner = \<lparr>relation_oid = 7, r_name = str_of_bytes [117], r_namespace = str_of_bytes [112],
                 r_fields = fields_of [], replica_id = Row\<rparr>,
        key_fields = keys_of (fields_of []), key_indexes = indexes_of (fields_of [])\<rparr>"
    by (rule x86.relation_roundtrip) (auto simp: name_ok_def x86_platform_def replica_of_byte_def)
  then obtain st where st: "wal_step x86_platform accepting_producer (initial_wal ()) (XLogData 0 ?m) = Some st"
    "relation_map st 7 \<noteq> None"
    by (simp add: on_xlog_data_def on_relation_message_def enc_relation_def split_beta)
  have reach: "wal_reach x86_platform accepting_producer () st"
    by (rule reach_step [OF reach_init st(1)])
  with st(2) relation_map_stays_well_formed [OF x86.utf8_platform_axioms reach] show ?thesis by blast
qed

text \<open>
  An empty XLogData message ends the program in every state: the code notices it (\<open>Got empty data\<close>)
  but then subscripts the data all the same.
\<close>

lemma empty_xlog_data_panics:
  "wal_loop P ops st (Event (XLogData we []) # rs) = (st, Panicked)"
  by (simp add: on_xlog_data_def)

end
