(* ===== verification/Wal_Transactions.thy ===== *)
theory Wal_Transactions imports Wal_Reader begin

text \<open>
  The contract of the trait \<open>Producer\<close> as a locale, and what the loop of \<open>cdc-wal-reader/src/lib.rs\<close>
  achieves over any producer that keeps it: a transaction of the database is published whole or not
  at all, its LSN is acknowledged only when it was, and with a producer that does not fail every
  transaction is published once, in order.
\<close>

subsection \<open>What a stream of messages means\<close>

text \<open>The specification of a transaction's contents: the items a consumer should see, in order.\<close>

datatype item = EventItem Relation ChangeEvent | RelationItem Relation

fun is_event :: "item \<Rightarrow> bool" where
  "is_event (EventItem rel ev) = True"
| "is_event (RelationItem rel) = False"

definition row_items :: "(ChangeEvent \<times> RelationData) dres \<Rightarrow> item list option" where
  "row_items res =
     (case res of
        Ok (ev, rd) \<Rightarrow> Some [EventItem (inner rd) ev]
      | Err e \<Rightarrow> Some []
      | Panic \<Rightarrow> None)"

definition message_items :: "platform \<Rightarrow> relation_map \<Rightarrow> byte list \<Rightarrow> (item list \<times> relation_map) option" where
  "message_items P rels data =
     (case data of
        [] \<Rightarrow> None
      | tag # _ \<Rightarrow>
          if tag = b_R then
            (case relation_parse P data of
               Ok rd \<Rightarrow> Some ([RelationItem (inner rd)], rels(relation_oid (inner rd) \<mapsto> rd))
             | Err e \<Rightarrow> Some ([], rels)
             | Panic \<Rightarrow> None)
          else if tag = b_I then map_option (\<lambda>is. (is, rels)) (row_items (insert_parse P data rels))
          else if tag = b_D then map_option (\<lambda>is. (is, rels)) (row_items (delete_parse P data rels))
          else if tag = b_U then map_option (\<lambda>is. (is, rels)) (row_items (update_parse P data rels))
          else Some ([], rels))"

fun tx_items :: "platform \<Rightarrow> relation_map \<Rightarrow> byte list list \<Rightarrow> (item list \<times> relation_map) option" where
  "tx_items P rels [] = Some ([], rels)"
| "tx_items P rels (m # ms) =
     (case message_items P rels m of
        None \<Rightarrow> None
      | Some (is, rels') \<Rightarrow>
          (case tx_items P rels' ms of
             None \<Rightarrow> None
           | Some (js, rels'') \<Rightarrow> Some (is @ js, rels'')))"

text \<open>A transaction as the server streams it.\<close>

record transaction =
  tx_xid :: u32
  tx_time :: i64
  tx_messages :: "(u64 \<times> byte list) list"
  tx_lsn :: u64
  tx_end_lsn :: u64

definition tx_events :: "transaction \<Rightarrow> ReplicationEvent list" where
  "tx_events tx =
     Begin (tx_lsn tx) (tx_xid tx) (tx_time tx) #
     map (\<lambda>(w, d). XLogData w d) (tx_messages tx) @
     [Commit (tx_lsn tx) (tx_end_lsn tx) (tx_time tx)]"

definition tx_contents :: "platform \<Rightarrow> relation_map \<Rightarrow> transaction \<Rightarrow> (item list \<times> relation_map) option" where
  "tx_contents P rels tx = tx_items P rels (map snd (tx_messages tx))"

fun stream_contents :: "platform \<Rightarrow> relation_map \<Rightarrow> transaction list \<Rightarrow> (item list list \<times> relation_map) option" where
  "stream_contents P rels [] = Some ([], rels)"
| "stream_contents P rels (tx # txs) =
     (case tx_contents P rels tx of
        None \<Rightarrow> None
      | Some (is, rels') \<Rightarrow>
          (case stream_contents P rels' txs of
             None \<Rightarrow> None
           | Some (iss, rels'') \<Rightarrow> Some (is # iss, rels'')))"

text \<open>Several steps of the loop.\<close>

fun wal_steps :: "platform \<Rightarrow> 'p producer \<Rightarrow> 'p wal \<Rightarrow> ReplicationEvent list \<Rightarrow> 'p wal option" where
  "wal_steps P ops st [] = Some st"
| "wal_steps P ops st (ev # evs) =
     (case wal_step P ops st ev of None \<Rightarrow> None | Some st' \<Rightarrow> wal_steps P ops st' evs)"

lemma wal_steps_append:
  "wal_steps P ops st (xs @ ys) =
     (case wal_steps P ops st xs of None \<Rightarrow> None | Some st' \<Rightarrow> wal_steps P ops st' ys)"
  by (induction P ops st xs rule: wal_steps.induct) (auto split: option.splits)

lemma wal_loop_steps:
  "wal_steps P ops st evs = Some st' \<Longrightarrow>
   wal_loop P ops st (map Event evs @ rs) = wal_loop P ops st' rs"
  by (induction P ops st evs rule: wal_steps.induct) (auto split: option.splits)

lemma message_event:
  assumes "message_items P rels m = Some ([EventItem rel ev], rels')"
    and "relation_map st = rels" and "currently_in_transaction st"
  shows "rels' = rels \<and> (\<exists>rd. inner rd = rel \<and>
    wal_step P ops st (XLogData w m) = send_to_producer ops (Ok (ev, rd)) st)"
proof -
  obtain tag rest where m: "m = tag # rest" using assms(1) by (auto simp: message_items_def split: list.splits)
  have row: "\<exists>rd. res = Ok (ev, rd) \<and> inner rd = rel" if "row_items res = Some [EventItem rel ev]" for res
    using that by (auto simp: row_items_def split: outcome.splits)
  consider "tag = b_R" | "tag = b_I" | "tag = b_D" | "tag = b_U" | "tag \<notin> {b_R, b_I, b_D, b_U}" by blast
  then show ?thesis
    using assms by cases (auto simp: m message_items_def on_xlog_data_def split: outcome.splits dest!: row)
qed

text \<open>Relation records may be missing from a published batch (their failure does not abort), events may not.\<close>

definition thinned :: "item list \<Rightarrow> item list \<Rightarrow> bool" where
  "thinned items items' \<longleftrightarrow> subseq items' items \<and> filter is_event items' = filter is_event items"

lemma thinned_Nil [simp]: "thinned [] []"
  by (simp add: thinned_def)

lemma thinned_snoc: "thinned items items' \<Longrightarrow> thinned (items @ [i]) (items' @ [i])"
  by (simp add: thinned_def list_emb_append_mono)

lemma thinned_snoc_relation: "thinned items items' \<Longrightarrow> thinned (items @ [RelationItem rel]) items'"
  by (simp add: thinned_def subseq_rev_drop_many)

subsection \<open>The contract\<close>

text \<open>
  A producer publishes batches of records: \<open>pending\<close> are those of the open transaction, \<open>published\<close>
  the committed batches.  A call that fails publishes nothing, except that a failed commit may have
  taken effect.
\<close>

locale producer =
  fixes ops :: "'p producer"
    and is_open :: "'p \<Rightarrow> bool"
    and pending :: "'p \<Rightarrow> 'r list"
    and published :: "'p \<Rightarrow> 'r list list"
    and entry :: "item \<Rightarrow> 'r"
    and lsn_entry :: "u64 \<Rightarrow> 'r"
  assumes start_ok: "p_start_transaction ops p = (Inr u, p') \<Longrightarrow>
      is_open p' \<and> pending p' = [] \<and> published p' = published p"
    and start_err: "p_start_transaction ops p = (Inl e, p') \<Longrightarrow>
      (is_open p' \<longrightarrow> is_open p) \<and> published p' = published p"
    and send_ok: "p_send ops rel ev p = (Inr u, p') \<Longrightarrow>
      is_open p \<and> is_open p' \<and> pending p' = pending p @ [entry (EventItem rel ev)] \<and> published p' = published p"
    and send_err: "p_send ops rel ev p = (Inl e, p') \<Longrightarrow> published p' = published p"
    and relation_ok: "p_on_relation ops rel p = (Inr u, p') \<Longrightarrow>
      is_open p \<and> is_open p' \<and> pending p' = pending p @ [entry (RelationItem rel)] \<and> published p' = published p"
    and relation_err: "p_on_relation ops rel p = (Inl e, p') \<Longrightarrow>
      (is_open p' \<longrightarrow> is_open p \<and> pending p' \<in> {pending p, pending p @ [entry (RelationItem rel)]}) \<and>
      published p' = published p"
    and commit_ok: "p_commit_transaction ops lsn p = (Inr u, p') \<Longrightarrow>
      is_open p \<and> \<not> is_open p' \<and> published p' = published p @ [pending p @ [lsn_entry lsn]]"
    and commit_err: "p_commit_transaction ops lsn p = (Inl e, p') \<Longrightarrow>
      published p' = published p \<or> (is_open p \<and> published p' = published p @ [pending p @ [lsn_entry lsn]])"
    and abort_published: "published (snd (p_abort_transaction ops p)) = published p"
begin

text \<open>What holds between two messages of a transaction whose items so far are \<open>items\<close>.\<close>

definition mid_tx :: "'r list list \<Rightarrow> u64 list \<Rightarrow> relation_map \<Rightarrow> item list \<Rightarrow> 'p wal \<Rightarrow> bool" where
  "mid_tx L A rels items st \<longleftrightarrow>
     published (w_producer st) = L \<and> applied_lsns st = A \<and> relation_map st = rels \<and>
     (currently_in_transaction st \<longrightarrow> is_open (w_producer st) \<longrightarrow>
       (\<exists>items'. thinned items items' \<and> pending (w_producer st) = map entry items'))"

lemma mid_tx_send:
  assumes "mid_tx L A rels items st" and "row_items res = Some is" and "currently_in_transaction st"
  shows "\<exists>st'. send_to_producer ops res st = Some st' \<and> mid_tx L A rels (items @ is) st'"
proof (cases res)
  case (Ok x)
  obtain ev rd where x: "x = (ev, rd)" by (cases x)
  obtain r p where rp: "p_send ops (inner rd) ev (w_producer st) = (r, p)"
    by (cases "p_send ops (inner rd) ev (w_producer st)")
  have "is": "is = [EventItem (inner rd) ev]" using assms(2) by (simp add: row_items_def Ok x)
  show ?thesis
  proof (cases r)
    case (Inl e)
    then show ?thesis
      using send_err [of "inner rd" ev "w_producer st" e p] rp assms(1) abort_published
      by (auto simp: send_to_producer_def Ok x mid_tx_def Let_def split_beta)
  next
    case (Inr u)
    then have ok: "is_open (w_producer st)" "published p = published (w_producer st)"
      "pending p = pending (w_producer st) @ [entry (EventItem (inner rd) ev)]"
      using send_ok rp by metis+
    then obtain items' where "thinned items items'" "pending (w_producer st) = map entry items'"
      using assms by (auto simp: mid_tx_def)
    then show ?thesis
      using assms(1) rp Inr ok thinned_snoc [of items items' "EventItem (inner rd) ev"]
      by (auto simp: send_to_producer_def Ok x "is" mid_tx_def Let_def
          intro!: exI [of _ "items' @ [EventItem (inner rd) ev]"])
  qed
qed (use assms in \<open>auto simp: row_items_def send_to_producer_def\<close>)

lemma mid_tx_skip:
  assumes "mid_tx L A rels items st" and "\<not> currently_in_transaction st"
  shows "mid_tx L A rels items' st"
  using assms by (simp add: mid_tx_def)

lemma mid_tx_relation:
  assumes "mid_tx L A rels items st" and "relation_parse P data = Ok rd"
  shows "\<exists>st'. on_relation_message P ops data st = Some st' \<and>
    mid_tx L A (rels(relation_oid (inner rd) \<mapsto> rd)) (items @ [RelationItem (inner rd)]) st'"
proof -
  obtain r p where rp: "p_on_relation ops (inner rd) (w_producer st) = (r, p)"
    by (cases "p_on_relation ops (inner rd) (w_producer st)")
  let ?i = "RelationItem (inner rd)"
  have pub: "published p = published (w_producer st)"
    and pend: "is_open p \<Longrightarrow> is_open (w_producer st) \<and>
      pending p \<in> {pending (w_producer st), pending (w_producer st) @ [entry ?i]}"
    using relation_ok [of "inner rd" "w_producer st" _ p] relation_err [of "inner rd" "w_producer st" _ p] rp
    by (cases r; auto)+
  have "\<exists>items'. thinned (items @ [?i]) items' \<and> pending p = map entry items'"
    if "currently_in_transaction st" "is_open p"
  proof -
    from pend that obtain items' where t: "thinned items items'" "pending (w_producer st) = map entry items'"
      using assms(1) by (auto simp: mid_tx_def)
    then show ?thesis
      using pend [OF that(2)] thinned_snoc [OF t(1), of ?i] thinned_snoc_relation [OF t(1)]
      by (auto intro: exI [of _ "items' @ [?i]"])
  qed
  then show ?thesis
    using assms rp pub by (auto simp: on_relation_message_def mid_tx_def)
qed

lemma mid_tx_message:
  assumes "mid_tx L A rels items st" and "message_items P rels m = Some (is, rels')"
  shows "\<exists>st'. wal_step P ops st (XLogData w m) = Some st' \<and> mid_tx L A rels' (items @ is) st'"
proof -
  obtain tag rest where m: "m = tag # rest" using assms(2) by (auto simp: message_items_def split: list.splits)
  have rels: "relation_map st = rels" using assms(1) by (simp add: mid_tx_def)
  have row: "\<exists>st'. (if currently_in_transaction st then send_to_producer ops res st else Some st) = Some st' \<and>
      mid_tx L A rels (items @ is) st'" if "row_items res = Some is" for res
    using mid_tx_send [OF assms(1) that] mid_tx_skip [OF assms(1)] by auto
  consider "tag = b_R" | "tag = b_I" | "tag = b_D" | "tag = b_U" | "tag \<notin> {b_R, b_I, b_D, b_U}" by blast
  then show ?thesis
  proof cases
    case 1
    then show ?thesis
      using assms mid_tx_relation [OF assms(1)]
      by (auto simp: m message_items_def on_xlog_data_def on_relation_message_def split: outcome.splits)
  next
    case 5
    then show ?thesis
      using assms by (auto simp: m message_items_def on_xlog_data_def)
  qed (use assms(2) row in \<open>auto simp: m rels message_items_def on_xlog_data_def\<close>)
qed

lemma mid_tx_messages:
  assumes "mid_tx L A rels items st" and "tx_items P rels (map snd ms) = Some (is, rels')"
  shows "\<exists>st'. wal_steps P ops st (map (\<lambda>(w, d). XLogData w d) ms) = Some st' \<and> mid_tx L A rels' (items @ is) st'"
  using assms
proof (induction ms arbitrary: st items rels "is")
  case Nil
  then show ?case by simp
next
  case (Cons x ms)
  obtain w m where x: "x = (w, m)" by (cases x)
  from Cons.prems(2) obtain is1 rels1 is2 where
    m: "message_items P rels m = Some (is1, rels1)" and rest: "tx_items P rels1 (map snd ms) = Some (is2, rels')"
    and "is": "is = is1 @ is2"
    by (auto simp: x split: option.splits)
  obtain st1 where st1: "wal_step P ops st (XLogData w m) = Some st1" "mid_tx L A rels1 (items @ is1) st1"
    using mid_tx_message [OF Cons.prems(1) m] by blast
  obtain st2 where "wal_steps P ops st1 (map (\<lambda>(w, d). XLogData w d) ms) = Some st2"
    "mid_tx L A rels' ((items @ is1) @ is2) st2"
    using Cons.IH [OF st1(2) rest] by blast
  then show ?case using st1 by (simp add: x "is")
qed

lemma mid_tx_begin:
  assumes "\<not> currently_in_transaction st" and "\<not> is_open (w_producer st)"
  shows "mid_tx (published (w_producer st)) (applied_lsns st) (relation_map st) [] (on_begin ops st)"
proof -
  obtain r p where rp: "p_start_transaction ops (w_producer st) = (r, p)"
    by (cases "p_start_transaction ops (w_producer st)")
  then show ?thesis
    using assms start_ok [of "w_producer st" _ p] start_err [of "w_producer st" _ p]
    by (cases r) (auto simp: on_begin_def mid_tx_def intro: exI [of _ "[]"])
qed

text \<open>A transaction cut off by the end of the connection publishes and acknowledges nothing.\<close>

lemma interrupted_transaction:
  assumes "\<not> currently_in_transaction st" and "\<not> is_open (w_producer st)"
    and "tx_items P (relation_map st) (map snd ms) = Some (items, rels')"
  shows "\<exists>st'. wal_loop P ops st (map Event (Begin final x t # map (\<lambda>(w, d). XLogData w d) ms) @ [Closed]) =
      (st', Finished) \<and>
    published (w_producer st') = published (w_producer st) \<and> applied_lsns st' = applied_lsns st"
proof -
  obtain st1 where st1: "wal_steps P ops (on_begin ops st) (map (\<lambda>(w, d). XLogData w d) ms) = Some st1"
    and mid: "mid_tx (published (w_producer st)) (applied_lsns st) rels' items st1"
    using mid_tx_messages [OF mid_tx_begin [OF assms(1,2)] assms(3)] by auto
  have "wal_steps P ops st (Begin final x t # map (\<lambda>(w, d). XLogData w d) ms) = Some st1"
    by (simp add: st1)
  from wal_loop_steps [OF this, of "[Closed]"] show ?thesis
    using mid abort_published by (auto simp: mid_tx_def)
qed

end

subsection \<open>A producer whose aborts succeed\<close>

text \<open>
  What became of a transaction: the records of it that were published, and whether its LSN was
  acknowledged.  Either nothing was published, or all its events in order, with or without the end LSN;
  only with it can it have been acknowledged.
\<close>

type_synonym 'r fate = "'r list \<times> bool"

definition fate_of :: "(item \<Rightarrow> 'r) \<Rightarrow> (u64 \<Rightarrow> 'r) \<Rightarrow> transaction \<times> item list \<Rightarrow> 'r fate \<Rightarrow> bool" where
  "fate_of entry lsn_entry tx f \<longleftrightarrow>
     f = ([], False) \<or>
     (\<exists>items'. thinned (snd tx) items' \<and>
        (f = (map entry items', False) \<or>
         (\<exists>acked. f = (map entry items' @ [lsn_entry (tx_end_lsn (fst tx))], acked))))"

definition acknowledged :: "(transaction \<times> item list) list \<Rightarrow> 'r fate list \<Rightarrow> u64 list" where
  "acknowledged txs fates = map (\<lambda>(tx, f). tx_lsn (fst tx)) (filter (\<lambda>(tx, f). snd f) (zip txs fates))"

definition records_of :: "'r fate list \<Rightarrow> 'r list" where
  "records_of fates = concat (map fst fates)"

definition lost :: "'r fate list \<Rightarrow> 'r fate list" where
  "lost fates = map (\<lambda>_. ([], False)) fates"

lemma records_of_simps [simp]:
  "records_of [] = []" "records_of (f # fs) = fst f @ records_of fs" "records_of (fs @ gs) = records_of fs @ records_of gs"
  by (simp_all add: records_of_def)

lemma lost_simps [simp]:
  "length (lost fates) = length fates" "records_of (lost fates) = []" "\<forall>f\<in>set (lost fates). \<not> snd f"
  "set (lost fates) \<subseteq> {([], False)}"
  by (auto simp: lost_def records_of_def)

lemma fate_of_lost: "fate_of entry lsn_entry tx ([], False)"
  by (simp add: fate_of_def)

lemma fates_lost:
  assumes "list_all2 (fate_of entry lsn_entry) txs (fates @ carry)"
  shows "list_all2 (fate_of entry lsn_entry) txs (fates @ lost carry)"
proof -
  have "list_all2 (fate_of entry lsn_entry) ts (lost carry)" if "length ts = length carry" for ts
    using that by (simp add: list_all2_conv_all_nth lost_def fate_of_lost)
  then show ?thesis using assms by (auto simp: list_all2_append2 dest: list_all2_lengthD)
qed

lemma acknowledged_append:
  "length txs = length fates \<Longrightarrow>
   acknowledged (txs @ txs') (fates @ fates') = acknowledged txs fates @ acknowledged txs' fates'"
  by (simp add: acknowledged_def)

lemma acknowledged_carry:
  assumes "\<forall>f\<in>set carry. \<not> snd f"
  shows "acknowledged txs (fates @ carry) = acknowledged (take (length fates) txs) fates"
proof -
  have "filter (\<lambda>(tx, f). snd f) (zip ts carry) = []" for ts :: "(transaction \<times> item list) list"
    using assms by (auto simp: filter_empty_conv dest: set_zip_rightD)
  then show ?thesis by (simp add: acknowledged_def zip_append2)
qed

lemma acknowledged_lost:
  "\<forall>f\<in>set carry. \<not> snd f \<Longrightarrow> acknowledged txs (fates @ lost carry) = acknowledged txs (fates @ carry)"
  by (simp add: acknowledged_carry)

text \<open>
  After an abort no transaction is open.  A start or commit that fails may leave the open one as it was,
  with the end LSN in it if only the commit proper failed.
\<close>

locale aborting_producer = producer +
  assumes start_err_open: "p_start_transaction ops p = (Inl e, p') \<Longrightarrow> is_open p' \<Longrightarrow> pending p' = pending p"
    and commit_err_open: "p_commit_transaction ops lsn p = (Inl e, p') \<Longrightarrow> is_open p' \<Longrightarrow>
      is_open p \<and> pending p' \<in> {pending p, pending p @ [lsn_entry lsn]} \<and> published p' = published p"
    and abort_closes: "\<not> is_open (snd (p_abort_transaction ops p))"
begin

text \<open>
  The transactions so far have found their fates: those in \<open>groups\<close> are published, group by group, those
  in \<open>carry\<close> are still in the open transaction of the producer, if it has one, before the items of the
  transaction under way.
\<close>

definition carried :: "'b list list \<Rightarrow> u64 list \<Rightarrow> (transaction \<times> item list) list \<Rightarrow> item list \<Rightarrow> 'a wal \<Rightarrow> bool" where
  "carried L A txs items st \<longleftrightarrow>
     (\<exists>groups carry.
        published (w_producer st) = L @ map records_of groups \<and>
        list_all2 (fate_of entry lsn_entry) txs (concat groups @ carry) \<and> (\<forall>f\<in>set carry. \<not> snd f) \<and>
        applied_lsns st = A @ acknowledged txs (concat groups @ carry) \<and>
        (is_open (w_producer st) \<longrightarrow>
          (\<exists>items'. thinned items items' \<and> pending (w_producer st) = records_of carry @ map entry items')))"

definition under_way :: "'b list list \<Rightarrow> u64 list \<Rightarrow> (transaction \<times> item list) list \<Rightarrow> relation_map \<Rightarrow> item list \<Rightarrow>
    'a wal \<Rightarrow> bool" where
  "under_way L A txs rels items st \<longleftrightarrow>
     carried L A txs items st \<and> relation_map st = rels \<and>
     (is_open (w_producer st) \<longrightarrow> currently_in_transaction st)"

lemma carried_closed:
  assumes "carried L A txs items st" and "\<not> is_open (w_producer st')"
    and "published (w_producer st') = published (w_producer st)" and "applied_lsns st' = applied_lsns st"
  shows "carried L A txs items' st'"
  using assms unfolding carried_def by auto

lemma under_way_send:
  assumes "under_way L A txs rels items st" and "row_items res = Some is" and "currently_in_transaction st"
  shows "\<exists>st'. send_to_producer ops res st = Some st' \<and> under_way L A txs rels (items @ is) st'"
proof (cases res)
  case (Ok x)
  obtain ev rd where x: "x = (ev, rd)" by (cases x)
  obtain r p where rp: "p_send ops (inner rd) ev (w_producer st) = (r, p)"
    by (cases "p_send ops (inner rd) ev (w_producer st)")
  have "is": "is = [EventItem (inner rd) ev]" using assms(2) by (simp add: row_items_def Ok x)
  show ?thesis
  proof (cases r)
    case (Inl e)
    let ?p = "snd (p_abort_transaction ops p)"
    obtain st' where st': "send_to_producer ops res st = Some st'" "w_producer st' = ?p"
      "relation_map st' = relation_map st" "applied_lsns st' = applied_lsns st" "\<not> currently_in_transaction st'"
      by (simp add: send_to_producer_def Ok x Let_def rp Inl split_beta)
    have "published ?p = published (w_producer st)" "\<not> is_open ?p"
      using send_err [of "inner rd" ev "w_producer st" e p] rp Inl abort_published abort_closes by simp_all
    then have "carried L A txs (items @ is) st'"
      using carried_closed [of L A txs items st st'] assms(1) st' by (simp add: under_way_def)
    then show ?thesis using st' assms(1) \<open>\<not> is_open ?p\<close> by (auto simp: under_way_def)
  next
    case (Inr u)
    have ok: "is_open (w_producer st)" "published p = published (w_producer st)"
      "pending p = pending (w_producer st) @ [entry (EventItem (inner rd) ev)]"
      using send_ok [of "inner rd" ev "w_producer st" u p] rp Inr by simp_all
    obtain st' where st': "send_to_producer ops res st = Some st'" "w_producer st' = p"
      "relation_map st' = relation_map st" "applied_lsns st' = applied_lsns st" "currently_in_transaction st'"
      using assms(3) by (simp add: send_to_producer_def Ok x Let_def rp Inr)
    have "thinned (items @ is) (items' @ is)" if "thinned items items'" for items'
      using thinned_snoc [OF that] by (simp add: "is")
    then have "carried L A txs (items @ is) st'"
      using assms(1) ok st' unfolding under_way_def carried_def
      by (elim conjE exE) (rule exI, rule exI, fastforce simp: "is")
    then show ?thesis using st' assms(1) by (auto simp: under_way_def)
  qed
qed (use assms in \<open>auto simp: row_items_def send_to_producer_def\<close>)

lemma under_way_skip:
  assumes "under_way L A txs rels items st" and "\<not> currently_in_transaction st"
  shows "under_way L A txs rels items' st"
  using assms carried_closed [of L A txs items st st items'] by (auto simp: under_way_def)

lemma under_way_relation:
  assumes "under_way L A txs rels items st" and "relation_parse P data = Ok rd"
  shows "\<exists>st'. on_relation_message P ops data st = Some st' \<and>
    under_way L A txs (rels(relation_oid (inner rd) \<mapsto> rd)) (items @ [RelationItem (inner rd)]) st'"
proof -
  let ?i = "RelationItem (inner rd)"
  obtain r p where rp: "p_on_relation ops (inner rd) (w_producer st) = (r, p)"
    by (cases "p_on_relation ops (inner rd) (w_producer st)")
  have pub: "published p = published (w_producer st)"
    and pend: "is_open p \<Longrightarrow> is_open (w_producer st) \<and>
      pending p \<in> {pending (w_producer st), pending (w_producer st) @ [entry ?i]}"
    using relation_ok [of "inner rd" "w_producer st" _ p] relation_err [of "inner rd" "w_producer st" _ p] rp
    by (cases r; auto)+
  obtain st' where st': "on_relation_message P ops data st = Some st'" "w_producer st' = p"
    "relation_map st' = (relation_map st)(relation_oid (inner rd) \<mapsto> rd)" "applied_lsns st' = applied_lsns st"
    "currently_in_transaction st' = currently_in_transaction st"
    using assms(2) by (simp add: on_relation_message_def rp)
  obtain groups carry where c: "published p = L @ map records_of groups"
    "list_all2 (fate_of entry lsn_entry) txs (concat groups @ carry)" "\<forall>f\<in>set carry. \<not> snd f"
    "applied_lsns st = A @ acknowledged txs (concat groups @ carry)"
    "is_open (w_producer st) \<Longrightarrow> \<exists>items'. thinned items items' \<and> pending (w_producer st) = records_of carry @ map entry items'"
    using assms(1) pub unfolding under_way_def carried_def by auto
  have "\<exists>items'. thinned (items @ [?i]) items' \<and> pending p = records_of carry @ map entry items'" if "is_open p"
  proof -
    from pend [OF that] c(5) obtain items' where t: "thinned items items'"
      "pending (w_producer st) = records_of carry @ map entry items'" by blast
    then show ?thesis
      using pend [OF that] thinned_snoc [OF t(1), of ?i] thinned_snoc_relation [OF t(1)]
      by (auto intro: exI [of _ "items' @ [?i]"])
  qed
  then have "carried L A txs (items @ [?i]) st'"
    unfolding carried_def using c(1-4) st'(2,4) by (intro exI [of _ groups] exI [of _ carry]) simp
  then show ?thesis using st' assms(1) pend by (auto simp: under_way_def)
qed

lemma under_way_message:
  assumes "under_way L A txs rels items st" and "message_items P rels m = Some (is, rels')"
  shows "\<exists>st'. wal_step P ops st (XLogData w m) = Some st' \<and> under_way L A txs rels' (items @ is) st'"
proof -
  obtain tag rest where m: "m = tag # rest" using assms(2) by (auto simp: message_items_def split: list.splits)
  have rels: "relation_map st = rels" using assms(1) by (simp add: under_way_def)
  have row: "\<exists>st'. (if currently_in_transaction st then send_to_producer ops res st else Some st) = Some st' \<and>
      under_way L A txs rels (items @ is) st'" if "row_items res = Some is" for res
    using under_way_send [OF assms(1) that] under_way_skip [OF assms(1)] by auto
  consider "tag = b_R" | "tag = b_I" | "tag = b_D" | "tag = b_U" | "tag \<notin> {b_R, b_I, b_D, b_U}" by blast
  then show ?thesis
  proof cases
    case 1
    then show ?thesis
      using assms under_way_relation [OF assms(1)]
      by (auto simp: m message_items_def on_xlog_data_def on_relation_message_def split: outcome.splits)
  next
    case 5
    then show ?thesis
      using assms by (auto simp: m message_items_def on_xlog_data_def)
  qed (use assms(2) row in \<open>auto simp: m rels message_items_def on_xlog_data_def\<close>)
qed

lemma under_way_messages:
  assumes "under_way L A txs rels items st" and "tx_items P rels (map snd ms) = Some (is, rels')"
  shows "\<exists>st'. wal_steps P ops st (map (\<lambda>(w, d). XLogData w d) ms) = Some st' \<and>
    under_way L A txs rels' (items @ is) st'"
  using assms
proof (induction ms arbitrary: st items rels "is")
  case Nil
  then show ?case by simp
next
  case (Cons x ms)
  obtain w m where x: "x = (w, m)" by (cases x)
  from Cons.prems(2) obtain is1 rels1 is2 where
    m: "message_items P rels m = Some (is1, rels1)" and rest: "tx_items P rels1 (map snd ms) = Some (is2, rels')"
    and "is": "is = is1 @ is2"
    by (auto simp: x split: option.splits)
  obtain st1 where st1: "wal_step P ops st (XLogData w m) = Some st1" "under_way L A txs rels1 (items @ is1) st1"
    using under_way_message [OF Cons.prems(1) m] by blast
  obtain st2 where "wal_steps P ops st1 (map (\<lambda>(w, d). XLogData w d) ms) = Some st2"
    "under_way L A txs rels' ((items @ is1) @ is2) st2"
    using Cons.IH [OF st1(2) rest] by blast
  then show ?case using st1 by (simp add: x "is")
qed

text \<open>A start that succeeds although a transaction was open gives that one up.\<close>

lemma under_way_begin:
  assumes "carried L A txs [] st" and "\<not> currently_in_transaction st"
  shows "under_way L A txs (relation_map st) [] (on_begin ops st)"
proof -
  obtain r p where rp: "p_start_transaction ops (w_producer st) = (r, p)"
    by (cases "p_start_transaction ops (w_producer st)")
  let ?st' = "on_begin ops st"
  have st': "w_producer ?st' = p" "relation_map ?st' = relation_map st" "applied_lsns ?st' = applied_lsns st"
    "currently_in_transaction ?st'"
    using assms(2) rp by (simp_all add: on_begin_def)
  obtain groups carry where c: "published (w_producer st) = L @ map records_of groups"
    "list_all2 (fate_of entry lsn_entry) txs (concat groups @ carry)" "\<forall>f\<in>set carry. \<not> snd f"
    "applied_lsns st = A @ acknowledged txs (concat groups @ carry)"
    "is_open (w_producer st) \<Longrightarrow> \<exists>items'. thinned [] items' \<and> pending (w_producer st) = records_of carry @ map entry items'"
    using assms(1) unfolding carried_def by auto
  have "carried L A txs [] ?st'"
  proof (cases r)
    case (Inl e)
    have "published p = published (w_producer st)" "is_open p \<Longrightarrow> is_open (w_producer st) \<and> pending p = pending (w_producer st)"
      using start_err [of "w_producer st" e p] start_err_open [of "w_producer st" e p] rp Inl by auto
    then show ?thesis
      unfolding carried_def using c st' by (intro exI [of _ groups] exI [of _ carry]) auto
  next
    case (Inr u)
    have "published p = published (w_producer st)" "pending p = []"
      using start_ok [of "w_producer st" u p] rp Inr by simp_all
    then show ?thesis
      unfolding carried_def using c(1-4) st' fates_lost [OF c(2)] acknowledged_lost [OF c(3)]
      by (intro exI [of _ groups] exI [of _ "lost carry"]) (auto intro: exI [of _ "[]"])
  qed
  then show ?thesis using st' by (simp add: under_way_def)
qed

lemma carried_commit:
  assumes "under_way L A txs rels items st" and "st' = on_commit ops (tx_lsn tx) (tx_end_lsn tx) st"
  shows "carried L A (txs @ [(tx, items)]) [] st' \<and> relation_map st' = rels \<and> \<not> currently_in_transaction st'"
proof -
  obtain groups carry where c: "published (w_producer st) = L @ map records_of groups"
    "list_all2 (fate_of entry lsn_entry) txs (concat groups @ carry)" "\<forall>f\<in>set carry. \<not> snd f"
    "applied_lsns st = A @ acknowledged txs (concat groups @ carry)"
    "is_open (w_producer st) \<Longrightarrow> \<exists>items'. thinned items items' \<and> pending (w_producer st) = records_of carry @ map entry items'"
    using assms(1) unfolding under_way_def carried_def by auto
  note len = list_all2_lengthD [OF c(2)]
  have one: "list_all2 (fate_of entry lsn_entry) (txs @ [(tx, items)]) ((concat groups @ carry) @ [f])"
    if "fate_of entry lsn_entry (tx, items) f" for f
    using that c(2) by (simp add: list_all2_appendI del: append_assoc)
  let ?lsn = "lsn_entry (tx_end_lsn tx)"
  have kept: "carried L A (txs @ [(tx, items)]) [] st'"
    if "published (w_producer st') = published (w_producer st)" "applied_lsns st' = applied_lsns st"
      and "fate_of entry lsn_entry (tx, items) (out, False)"
      and "is_open (w_producer st') \<Longrightarrow> pending (w_producer st') = records_of carry @ out" for out
  proof -
    have "\<forall>f\<in>set (carry @ [(out, False)]). \<not> snd f" using c(3) by simp
    then show ?thesis
      unfolding carried_def using that c(1,4) one [OF that(3)] acknowledged_append [OF len, of "[(tx, items)]" "[(out, False)]"]
      by (intro exI [of _ groups] exI [of _ "carry @ [(out, False)]"])
        (auto simp: acknowledged_def intro: exI [of _ "[]"])
  qed
  have grouped: "carried L A (txs @ [(tx, items)]) [] st'"
    if "published (w_producer st') = published (w_producer st) @ [records_of carry @ out]"
      and "applied_lsns st' = applied_lsns st @ (if acked then [tx_lsn tx] else [])"
      and "fate_of entry lsn_entry (tx, items) (out, acked)" and "\<not> is_open (w_producer st')" for out acked
  proof -
    have "concat (groups @ [carry @ [(out, acked)]]) @ [] = (concat groups @ carry) @ [(out, acked)]" by simp
    then show ?thesis
      unfolding carried_def using that c(1,4) one [OF that(3)] acknowledged_append [OF len, of "[(tx, items)]" "[(out, acked)]"]
      by (intro exI [of _ "groups @ [carry @ [(out, acked)]]"] exI [of _ "[]"]) (auto simp: acknowledged_def)
  qed
  have rels: "relation_map st = rels" using assms(1) by (simp add: under_way_def)
  show ?thesis
  proof (cases "currently_in_transaction st")
    case False
    then have "st' = st" "\<not> is_open (w_producer st)" using assms by (auto simp: on_commit_def under_way_def)
    then show ?thesis using kept [of "[]"] False rels by (simp add: fate_of_lost)
  next
    case True
    obtain r p where rp: "p_commit_transaction ops (tx_end_lsn tx) (w_producer st) = (r, p)"
      by (cases "p_commit_transaction ops (tx_end_lsn tx) (w_producer st)")
    show ?thesis
    proof (cases r)
      case (Inr u)
      have st': "w_producer st' = p" "applied_lsns st' = applied_lsns st @ [tx_lsn tx]" "relation_map st' = rels"
        "\<not> currently_in_transaction st'"
        using True rp Inr assms(2) rels by (simp_all add: on_commit_def)
      have ok: "is_open (w_producer st)" "\<not> is_open p"
        "published p = published (w_producer st) @ [pending (w_producer st) @ [?lsn]]"
        using commit_ok [of "tx_end_lsn tx" "w_producer st" u p] rp Inr by simp_all
      obtain items' where t: "thinned items items'" "pending (w_producer st) = records_of carry @ map entry items'"
        using c(5) [OF ok(1)] by blast
      have "fate_of entry lsn_entry (tx, items) (map entry items' @ [?lsn], True)"
        using t(1) by (auto simp: fate_of_def)
      from grouped [OF _ _ this] show ?thesis using st' ok t(2) by simp
    next
      case (Inl e)
      have st': "w_producer st' = p" "applied_lsns st' = applied_lsns st" "relation_map st' = rels"
        "\<not> currently_in_transaction st'"
        using True rp Inl assms(2) rels by (simp_all add: on_commit_def)
      show ?thesis
      proof (cases "is_open p")
        case True
        then have op: "is_open (w_producer st)" "pending p \<in> {pending (w_producer st), pending (w_producer st) @ [?lsn]}"
          "published p = published (w_producer st)"
          using commit_err_open [of "tx_end_lsn tx" "w_producer st" e p] rp Inl by simp_all
        obtain items' where t: "thinned items items'" "pending (w_producer st) = records_of carry @ map entry items'"
          using c(5) [OF op(1)] by blast
        obtain out where out: "pending p = records_of carry @ out" "out \<in> {map entry items', map entry items' @ [?lsn]}"
          using op(2) t(2) by auto
        have "fate_of entry lsn_entry (tx, items) (out, False)" using t(1) out(2) by (auto simp: fate_of_def)
        from kept [OF _ _ this] show ?thesis using st' op(3) out(1) by simp
      next
        case False
        consider (none) "published p = published (w_producer st)"
          | (all) "is_open (w_producer st)" "published p = published (w_producer st) @ [pending (w_producer st) @ [?lsn]]"
          using commit_err [of "tx_end_lsn tx" "w_producer st" e p] rp Inl by auto
        then show ?thesis
        proof cases
          case none
          then show ?thesis using kept [of "[]"] st' False by (simp add: fate_of_lost)
        next
          case all
          obtain items' where t: "thinned items items'" "pending (w_producer st) = records_of carry @ map entry items'"
            using c(5) [OF all(1)] by blast
          have "fate_of entry lsn_entry (tx, items) (map entry items' @ [?lsn], False)"
            using t(1) by (auto simp: fate_of_def)
          from grouped [OF _ _ this] show ?thesis using st' all False t(2) by simp
        qed
      qed
    qed
  qed
qed

text \<open>The whole stream: every transaction finds its fate, whatever fails on the way.\<close>

lemma carried_stream:
  assumes "carried L A done [] st" and "\<not> currently_in_transaction st"
    and "stream_contents P (relation_map st) txs = Some (iss, rels')"
  shows "\<exists>st'. wal_steps P ops st (concat (map tx_events txs)) = Some st' \<and>
    carried L A (done @ zip txs iss) [] st' \<and> relation_map st' = rels' \<and> \<not> currently_in_transaction st'"
  using assms
proof (induction txs arbitrary: st iss "done")
  case Nil
  then show ?case by simp
next
  case (Cons tx txs)
  from Cons.prems(3) obtain items rels1 iss' where
    c: "tx_contents P (relation_map st) tx = Some (items, rels1)"
      "stream_contents P rels1 txs = Some (iss', rels')" "iss = items # iss'"
    by (auto split: option.splits)
  obtain st1 where st1: "wal_steps P ops (on_begin ops st) (map (\<lambda>(w, d). XLogData w d) (tx_messages tx)) = Some st1"
    "under_way L A done rels1 items st1"
    using under_way_messages [OF under_way_begin [OF Cons.prems(1,2)] c(1) [unfolded tx_contents_def]] by auto
  let ?st2 = "on_commit ops (tx_lsn tx) (tx_end_lsn tx) st1"
  have step: "wal_steps P ops st (tx_events tx) = Some ?st2" by (simp add: tx_events_def wal_steps_append st1(1))
  have st2: "carried L A (done @ [(tx, items)]) [] ?st2" "relation_map ?st2 = rels1" "\<not> currently_in_transaction ?st2"
    using carried_commit [OF st1(2) refl] by simp_all
  from Cons.IH [OF st2(1,3)] c(2) st2(2) show ?case using step by (simp add: wal_steps_append c(3))
qed

lemma fates_of_run:
  assumes "\<not> is_open p" and "stream_contents P Map.empty txs = Some (iss, rels')"
  shows "\<exists>st groups given_up. wal_loop P ops (initial_wal p) (map Event (concat (map tx_events txs)) @ [Closed]) = (st, Finished) \<and>
    list_all2 (fate_of entry lsn_entry) (zip txs iss) (concat groups @ given_up) \<and> set given_up \<subseteq> {([], False)} \<and>
    published (w_producer st) = published p @ map records_of groups \<and>
    applied_lsns st = acknowledged (zip txs iss) (concat groups @ given_up)"
proof -
  have "carried (published p) [] [] [] (initial_wal p)"
    unfolding carried_def using assms(1)
    by (intro exI [of _ "[]"]) (simp add: initial_wal_def acknowledged_def)
  from carried_stream [OF this, of P txs] assms(2) obtain st where
    st: "wal_steps P ops (initial_wal p) (concat (map tx_events txs)) = Some st" "\<not> currently_in_transaction st"
    and "carried (published p) [] (zip txs iss) [] st"
    by (auto simp: initial_wal_def)
  then obtain groups carry where c: "published (w_producer st) = published p @ map records_of groups"
    "list_all2 (fate_of entry lsn_entry) (zip txs iss) (concat groups @ carry)" "\<forall>f\<in>set carry. \<not> snd f"
    "applied_lsns st = acknowledged (zip txs iss) (concat groups @ carry)"
    unfolding carried_def by auto
  have "wal_loop P ops (initial_wal p) (map Event (concat (map tx_events txs)) @ [Closed]) = (st, Finished)"
    using wal_loop_steps [OF st(1), of "[Closed]"] st(2) by simp
  then show ?thesis
    using c(1,4) fates_lost [OF c(2)] acknowledged_lost [OF c(3)]
    by (intro exI [of _ st] exI [of _ groups] exI [of _ "lost carry"]) simp
qed

end

subsection \<open>A producer that does not fail\<close>

text \<open>The calls of the client that the transactions take: a start, one per item, and two for the commit.\<close>

definition stream_calls :: "item list list \<Rightarrow> nat" where
  "stream_calls iss = sum_list (map (\<lambda>items. length items + 3) iss)"

text \<open>
  A producer that will not fail in the next \<open>n\<close> calls of its client is \<open>ready n\<close>: inside a transaction
  every call succeeds then, for the items it can encode.  A commit takes two calls, one of them for the
  end LSN.
\<close>

locale reliable_producer = producer +
  fixes encodable :: "item \<Rightarrow> bool" and ready :: "nat \<Rightarrow> 'a \<Rightarrow> bool"
  assumes start_reliable: "\<not> is_open p \<Longrightarrow> ready (Suc n) p \<Longrightarrow> p_start_transaction ops p = (r, p') \<Longrightarrow>
      r = Inr () \<and> ready n p'"
    and send_reliable: "is_open p \<Longrightarrow> ready (Suc n) p \<Longrightarrow> encodable (EventItem rel ev) \<Longrightarrow>
      p_send ops rel ev p = (r, p') \<Longrightarrow> r = Inr () \<and> ready n p'"
    and relation_reliable: "is_open p \<Longrightarrow> ready (Suc n) p \<Longrightarrow> encodable (RelationItem rel) \<Longrightarrow>
      p_on_relation ops rel p = (r, p') \<Longrightarrow> r = Inr () \<and> ready n p'"
    and commit_reliable: "is_open p \<Longrightarrow> ready (Suc (Suc n)) p \<Longrightarrow> p_commit_transaction ops lsn p = (r, p') \<Longrightarrow>
      r = Inr () \<and> ready n p'"
begin

definition in_tx :: "nat \<Rightarrow> 'b list list \<Rightarrow> u64 list \<Rightarrow> relation_map \<Rightarrow> item list \<Rightarrow> 'a wal \<Rightarrow> bool" where
  "in_tx n L A rels items st \<longleftrightarrow>
     ready n (w_producer st) \<and> published (w_producer st) = L \<and> applied_lsns st = A \<and> relation_map st = rels \<and>
     currently_in_transaction st \<and> is_open (w_producer st) \<and> pending (w_producer st) = map entry items"

lemma in_tx_send:
  assumes "in_tx (length is + n) L A rels items st" and "row_items res = Some is" and "\<forall>i\<in>set is. encodable i"
  shows "\<exists>st'. send_to_producer ops res st = Some st' \<and> in_tx n L A rels (items @ is) st'"
proof (cases res)
  case (Ok x)
  obtain ev rd where x: "x = (ev, rd)" by (cases x)
  obtain r p where rp: "p_send ops (inner rd) ev (w_producer st) = (r, p)"
    by (cases "p_send ops (inner rd) ev (w_producer st)")
  have "is": "is = [EventItem (inner rd) ev]" using assms(2) by (simp add: row_items_def Ok x)
  have r: "r = Inr ()" "ready n p"
    using send_reliable [of "w_producer st" n "inner rd" ev r p] assms(1,3) rp "is" by (simp_all add: in_tx_def)
  show ?thesis
    using send_ok [of "inner rd" ev "w_producer st" "()" p] rp r assms(1)
    by (auto simp: send_to_producer_def Ok x "is" in_tx_def Let_def)
qed (use assms in \<open>auto simp: row_items_def send_to_producer_def\<close>)

lemma in_tx_relation:
  assumes "in_tx (Suc n) L A rels items st" and "relation_parse P data = Ok rd" and "encodable (RelationItem (inner rd))"
  shows "\<exists>st'. on_relation_message P ops data st = Some st' \<and>
    in_tx n L A (rels(relation_oid (inner rd) \<mapsto> rd)) (items @ [RelationItem (inner rd)]) st'"
proof -
  obtain r p where rp: "p_on_relation ops (inner rd) (w_producer st) = (r, p)"
    by (cases "p_on_relation ops (inner rd) (w_producer st)")
  have "r = Inr ()" "ready n p"
    using relation_reliable [of "w_producer st" n "inner rd" r p] assms(1,3) rp by (simp_all add: in_tx_def)
  then show ?thesis
    using relation_ok [of "inner rd" "w_producer st" "()" p] rp assms
    by (auto simp: on_relation_message_def in_tx_def)
qed

lemma in_tx_message:
  assumes "in_tx (length is + n) L A rels items st" and "message_items P rels m = Some (is, rels')"
    and "\<forall>i\<in>set is. encodable i"
  shows "\<exists>st'. wal_step P ops st (XLogData w m) = Some st' \<and> in_tx n L A rels' (items @ is) st'"
proof -
  obtain tag rest where m: "m = tag # rest" using assms(2) by (auto simp: message_items_def split: list.splits)
  have rels: "relation_map st = rels" "currently_in_transaction st"
    using assms(1) by (simp_all add: in_tx_def)
  note row = in_tx_send [OF assms(1) _ assms(3)]
  consider "tag = b_R" | "tag = b_I" | "tag = b_D" | "tag = b_U" | "tag \<notin> {b_R, b_I, b_D, b_U}" by blast
  then show ?thesis
  proof cases
    case 1
    then show ?thesis
      using assms in_tx_relation [of n L A rels items st]
      by (auto simp: m message_items_def on_xlog_data_def on_relation_message_def split: outcome.splits)
  next
    case 5
    then show ?thesis
      using assms by (auto simp: m message_items_def on_xlog_data_def)
  qed (use assms(2) row in \<open>auto simp: m rels message_items_def on_xlog_data_def\<close>)
qed

lemma in_tx_messages:
  assumes "in_tx (length is + n) L A rels items st" and "tx_items P rels (map snd ms) = Some (is, rels')"
    and "\<forall>i\<in>set is. encodable i"
  shows "\<exists>st'. wal_steps P ops st (map (\<lambda>(w, d). XLogData w d) ms) = Some st' \<and> in_tx n L A rels' (items @ is) st'"
  using assms
proof (induction ms arbitrary: st items rels "is")
  case Nil
  then show ?case by simp
next
  case (Cons x ms)
  obtain w m where x: "x = (w, m)" by (cases x)
  from Cons.prems(2) obtain is1 rels1 is2 where
    m: "message_items P rels m = Some (is1, rels1)" and rest: "tx_items P rels1 (map snd ms) = Some (is2, rels')"
    and "is": "is = is1 @ is2"
    by (auto simp: x split: option.splits)
  obtain st1 where st1: "wal_step P ops st (XLogData w m) = Some st1" "in_tx (length is2 + n) L A rels1 (items @ is1) st1"
    using in_tx_message [of is1 "length is2 + n" L A rels items st P m rels1 w, OF _ m] Cons.prems(1,3) "is"
    by (auto simp: add.assoc)
  obtain st2 where "wal_steps P ops st1 (map (\<lambda>(w, d). XLogData w d) ms) = Some st2"
    "in_tx n L A rels' ((items @ is1) @ is2) st2"
    using Cons.IH [OF st1(2) rest] Cons.prems(3) "is" by auto
  then show ?case using st1 by (simp add: x "is")
qed

text \<open>Between transactions: the flag is down and the producer has no open transaction.\<close>

definition idle :: "'a wal \<Rightarrow> bool" where
  "idle st \<longleftrightarrow> \<not> currently_in_transaction st \<and> \<not> is_open (w_producer st)"

lemma reliable_begin:
  assumes "idle st" and "ready (Suc n) (w_producer st)"
  shows "in_tx n (published (w_producer st)) (applied_lsns st) (relation_map st) [] (on_begin ops st)"
proof -
  obtain r p where rp: "p_start_transaction ops (w_producer st) = (r, p)"
    by (cases "p_start_transaction ops (w_producer st)")
  have "r = Inr ()" "ready n p" using start_reliable [of "w_producer st" n r p] rp assms by (simp_all add: idle_def)
  then show ?thesis
    using start_ok [of "w_producer st" "()" p] rp assms(1) by (auto simp: on_begin_def in_tx_def idle_def)
qed

lemma reliable_transaction:
  assumes "idle st" and "tx_contents P (relation_map st) tx = Some (items, rels')"
    and "\<forall>i\<in>set items. encodable i" and "ready (length items + 3 + n) (w_producer st)"
  shows "\<exists>st'. wal_steps P ops st (tx_events tx) = Some st' \<and> idle st' \<and> relation_map st' = rels' \<and>
    ready n (w_producer st') \<and>
    published (w_producer st') =
      published (w_producer st) @ [map entry items @ [lsn_entry (tx_end_lsn tx)]] \<and>
    applied_lsns st' = applied_lsns st @ [tx_lsn tx]"
proof -
  have "ready (Suc (length items + Suc (Suc n))) (w_producer st)" using assms(4) by (simp add: numeral_3_eq_3)
  note started = reliable_begin [OF assms(1) this]
  obtain st1 where st1: "wal_steps P ops (on_begin ops st) (map (\<lambda>(w, d). XLogData w d) (tx_messages tx)) = Some st1"
    and mid: "in_tx (Suc (Suc n)) (published (w_producer st)) (applied_lsns st) rels' items st1"
    using in_tx_messages [OF started assms(2) [unfolded tx_contents_def] assms(3)] by auto
  let ?elsn = "tx_end_lsn tx"
  let ?st' = "on_commit ops (tx_lsn tx) ?elsn st1"
  obtain r' p' where rp': "p_commit_transaction ops ?elsn (w_producer st1) = (r', p')"
    by (cases "p_commit_transaction ops ?elsn (w_producer st1)")
  have "r' = Inr ()" "ready n p'"
    using commit_reliable [of "w_producer st1" n ?elsn r' p'] rp' mid by (simp_all add: in_tx_def)
  then have "idle ?st' \<and> relation_map ?st' = rels' \<and> ready n (w_producer ?st') \<and>
      published (w_producer ?st') =
        published (w_producer st) @ [map entry items @ [lsn_entry ?elsn]] \<and>
      applied_lsns ?st' = applied_lsns st @ [tx_lsn tx]"
    using commit_ok [of ?elsn "w_producer st1" "()" p'] rp' mid by (auto simp: on_commit_def in_tx_def idle_def)
  moreover have "wal_steps P ops st (tx_events tx) = Some ?st'"
    by (simp add: tx_events_def wal_steps_append st1)
  ultimately show ?thesis by blast
qed

theorem reliable_stream:
  assumes "idle st" and "stream_contents P (relation_map st) txs = Some (iss, rels')"
    and "\<forall>items\<in>set iss. \<forall>i\<in>set items. encodable i" and "ready (stream_calls iss + n) (w_producer st)"
  shows "\<exists>st'. wal_steps P ops st (concat (map tx_events txs)) = Some st' \<and> idle st' \<and> relation_map st' = rels' \<and>
    ready n (w_producer st') \<and>
    published (w_producer st') = published (w_producer st) @
      map2 (\<lambda>tx items. map entry items @ [lsn_entry (tx_end_lsn tx)]) txs iss \<and>
    applied_lsns st' = applied_lsns st @ map tx_lsn txs"
  using assms
proof (induction txs arbitrary: st iss)
  case Nil
  then show ?case by (simp add: stream_calls_def)
next
  case (Cons tx txs)
  from Cons.prems(2) obtain items rels1 iss' where
    c: "tx_contents P (relation_map st) tx = Some (items, rels1)"
      "stream_contents P rels1 txs = Some (iss', rels')" "iss = items # iss'"
    by (auto split: option.splits)
  have "ready (length items + 3 + (stream_calls iss' + n)) (w_producer st)"
    using Cons.prems(4) by (simp add: c(3) stream_calls_def add.assoc)
  from reliable_transaction [OF Cons.prems(1) c(1) _ this] Cons.prems(3) c(3) obtain st1 where
    st1: "wal_steps P ops st (tx_events tx) = Some st1" "idle st1" "relation_map st1 = rels1"
      "ready (stream_calls iss' + n) (w_producer st1)"
      "published (w_producer st1) =
        published (w_producer st) @ [map entry items @ [lsn_entry (tx_end_lsn tx)]]"
      "applied_lsns st1 = applied_lsns st @ [tx_lsn tx]"
    by auto
  from Cons.IH [OF st1(2)] c(2,3) st1(3,4) Cons.prems(3) obtain st2 where
    "wal_steps P ops st1 (concat (map tx_events txs)) = Some st2" "idle st2" "relation_map st2 = rels'"
    "ready n (w_producer st2)"
    "published (w_producer st2) = published (w_producer st1) @
      map2 (\<lambda>tx items. map entry items @ [lsn_entry (tx_end_lsn tx)]) txs iss'"
    "applied_lsns st2 = applied_lsns st1 @ map tx_lsn txs"
    by auto
  then show ?case using st1 by (simp add: wal_steps_append c(3))
qed

end

end
