(* ===== verification/Example_Stream.thy ===== *)
theory Example_Stream imports Wal_Transactions begin

text \<open>
  A stream of two transactions on one table, on which the properties of the publishing pipeline are
  witnessed: the first announces the table and inserts a row, the second inserts another row.
\<close>

definition counters_columns :: "wire_column list" where
  "counters_columns = [\<lparr>wc_flag = 1, wc_name = bytes_of_str ''id'', wc_oid = 23, wc_mod = 0\<rparr>]"

definition counters_message :: "byte list" where
  "counters_message = enc_relation 7 (bytes_of_str ''public'') (bytes_of_str ''counters'') b_d counters_columns"

definition counters_rel :: Relation where
  "counters_rel =
     \<lparr>relation_oid = 7, r_name = ''counters'', r_namespace = ''public'',
      r_fields = [\<lparr>f_is_key = True, f_name = ''id'', f_kind = FK_Int4\<rparr>], replica_id = Keys\<rparr>"

definition counters_rel_data :: RelationData where
  "counters_rel_data =
     \<lparr>inner = counters_rel, key_fields = [\<lparr>kf_name = ''id'', kf_kind = FK_Int4\<rparr>], key_indexes = [0]\<rparr>"

definition insert_message :: "byte \<Rightarrow> byte list" where
  "insert_message n = enc_insert 7 [WBinary [0, 0, 0, n]]"

definition insert_event :: "byte \<Rightarrow> ChangeEvent" where
  "insert_event n = \<lparr>ev_op = Insert [Int4 (word_of_nat (unat n))], ev_rel = 7\<rparr>"

definition example_stream :: "transaction list" where
  "example_stream =
     [\<lparr>tx_xid = 1, tx_time = 0, tx_messages = [(90, counters_message), (91, insert_message 1)],
       tx_lsn = 100, tx_end_lsn = 101\<rparr>,
      \<lparr>tx_xid = 2, tx_time = 0, tx_messages = [(190, insert_message 2)], tx_lsn = 200, tx_end_lsn = 201\<rparr>]"

definition example_items :: "item list list" where
  "example_items =
     [[RelationItem counters_rel, EventItem counters_rel (insert_event 1)],
      [EventItem counters_rel (insert_event 2)]]"

lemma counters_parse: "relation_parse x86_platform counters_message = Ok counters_rel_data"
proof -
  have "fields_of counters_columns = [\<lparr>f_is_key = True, f_name = ''id'', f_kind = FK_Int4\<rparr>]"
    by (simp add: counters_columns_def fields_of_def physical_def field_of_def kind_of_oid_def
        kind_from_oid_mod_def)
  moreover have "name_ok x86_platform (bytes_of_str s)" if "s \<in> {''public'', ''counters'', ''id''}" for s
    using that by (auto simp: name_ok_def) (auto simp: bytes_of_str_def byte_of_char_def)
  then have "\<forall>c\<in>set counters_columns. column_ok x86_platform c"
    "name_ok x86_platform (bytes_of_str ''public'')" "name_ok x86_platform (bytes_of_str ''counters'')"
    by (auto simp: counters_columns_def column_ok_def physical_def)
  ultimately show ?thesis
    using x86.relation_roundtrip [of "bytes_of_str ''public''" "bytes_of_str ''counters''" b_d Keys
        counters_columns 7 "[]"]
    by (simp add: counters_message_def counters_rel_data_def counters_rel_def replica_of_byte_def
        counters_columns_def keys_of_def indexes_of_def List.map_filter_def)
qed

lemma counters_wf: "wf_relation_map x86_platform [7 \<mapsto> counters_rel_data]"
  using x86.relation_parse_wf [OF counters_parse]
  by (simp add: wf_relation_map_def) (simp add: counters_rel_data_def counters_rel_def)

lemma insert_message_parse:
  "insert_parse x86_platform (insert_message n) [7 \<mapsto> counters_rel_data] = Ok (insert_event n, counters_rel_data)"
proof -
  have "row_ok x86_platform False (kinds counters_rel_data) [WBinary [0, 0, 0, n]]"
    by (simp add: row_ok_def kinds_def counters_rel_data_def counters_rel_def)
  then show ?thesis
    unfolding insert_message_def
    by (subst insert_parse_enc [OF counters_wf, where rd = counters_rel_data])
      (simp_all add: row_of_def kinds_def counters_rel_data_def counters_rel_def insert_event_def
        from_be_bytes_def be_nat_def)
qed

lemma message_tags:
  "\<exists>r. counters_message = b_R # r" "\<exists>r. insert_message n = b_I # r"
  by (simp_all add: counters_message_def enc_relation_def insert_message_def enc_insert_def)

lemma message_items_example:
  "message_items x86_platform rels counters_message =
     Some ([RelationItem counters_rel], rels(7 \<mapsto> counters_rel_data))"
  "message_items x86_platform [7 \<mapsto> counters_rel_data] (insert_message n) =
     Some ([EventItem counters_rel (insert_event n)], [7 \<mapsto> counters_rel_data])"
proof -
  have i: "inner counters_rel_data = counters_rel" "relation_oid counters_rel = 7"
    by (simp_all add: counters_rel_data_def counters_rel_def)
  obtain r where r: "counters_message = b_R # r" using message_tags by blast
  show "message_items x86_platform rels counters_message =
      Some ([RelationItem counters_rel], rels(7 \<mapsto> counters_rel_data))"
    using counters_parse by (simp add: message_items_def r i)
  obtain r' where r': "insert_message n = b_I # r'" using message_tags by blast
  show "message_items x86_platform [7 \<mapsto> counters_rel_data] (insert_message n) =
      Some ([EventItem counters_rel (insert_event n)], [7 \<mapsto> counters_rel_data])"
    using insert_message_parse [of n] by (simp add: message_items_def r' row_items_def i)
qed

lemma example_contents:
  "stream_contents x86_platform Map.empty example_stream = Some (example_items, [7 \<mapsto> counters_rel_data])"
  by (simp add: example_stream_def tx_contents_def message_items_example example_items_def)

lemma example_steps:
  "wal_step x86_platform ops st (XLogData w counters_message) =
     on_relation_message x86_platform ops counters_message st"
  "wal_step x86_platform ops st (XLogData w (insert_message n)) =
     (if currently_in_transaction st
      then send_to_producer ops (insert_parse x86_platform (insert_message n) (relation_map st)) st else Some st)"
proof -
  have step: "wal_step x86_platform ops st (XLogData w (tag # r)) =
      (if tag = b_R then on_relation_message x86_platform ops (tag # r) st
       else if tag = b_I \<and> currently_in_transaction st
       then send_to_producer ops (insert_parse x86_platform (tag # r) (relation_map st)) st
       else if tag = b_I then Some st
       else wal_step x86_platform ops st (XLogData w (tag # r)))" for tag r
    by (simp add: on_xlog_data_def)
  show "wal_step x86_platform ops st (XLogData w counters_message) =
     on_relation_message x86_platform ops counters_message st"
    using message_tags(1) step by (metis (mono_tags))
  show "wal_step x86_platform ops st (XLogData w (insert_message n)) =
     (if currently_in_transaction st
      then send_to_producer ops (insert_parse x86_platform (insert_message n) (relation_map st)) st else Some st)"
    using message_tags(2) [of n] by (elim exE) (simp add: on_xlog_data_def)
qed

end
