(* ===== verification/Kafka_Producer.thy ===== *)
theory Kafka_Producer imports Example_Stream begin

text \<open>
  \<open>cdc-producer/src/main.rs\<close>: the implementation of \<open>Producer\<close> by a transactional Kafka client, the
  recovery of the last LSN, and the creation of the topics.  The client, the admin API and the Avro
  serializer are third-party code: they are parameters.
\<close>

subsection \<open>Records and the client\<close>

record FutureRecord =
  fr_topic :: string
  fr_key :: "byte list"
  fr_payload :: "byte list"

text \<open>
  The calls of \<open>rdkafka\<close>'s \<open>FutureProducer\<close> the code makes, on the client's state.  An error is its
  \<open>to_string()\<close>, which is all the code uses; the timeouts the code passes are the client's business.
\<close>

record 'k rdkafka =
  k_begin_transaction :: "'k \<Rightarrow> pres \<times> 'k"
  k_send :: "FutureRecord \<Rightarrow> 'k \<Rightarrow> pres \<times> 'k"
  k_commit_transaction :: "'k \<Rightarrow> pres \<times> 'k"
  k_abort_transaction :: "'k \<Rightarrow> pres \<times> 'k"

record avro =
  into_avro_event :: "ChangeEvent \<Rightarrow> string + byte list"
  into_avro_relation :: "Relation \<Rightarrow> string + byte list"

record KafkaConfig =
  kc_brokers :: string
  kc_topic :: string
  kc_key :: string

definition default_topic :: string where
  "default_topic = ''cdc''"

text \<open>The fields of \<open>KafkaProducer\<close> but the client, whose state the methods pass along.\<close>

record KafkaProducer =
  kp_topic :: string
  kp_lsn_topic :: string
  kp_rel_topic :: string
  kp_key :: string

definition kafka_producer_fields :: "KafkaConfig \<Rightarrow> KafkaProducer" where
  "kafka_producer_fields config =
     \<lparr>kp_topic = kc_topic config, kp_lsn_topic = kc_topic config @ ''.lsn'',
      kp_rel_topic = kc_topic config @ ''.relations'', kp_key = kc_key config\<rparr>"

definition client_settings :: "KafkaConfig \<Rightarrow> (string \<times> string) list" where
  "client_settings config =
     [(''bootstrap.servers'', kc_brokers config),
      (''message.timeout.ms'', ''5000''),
      (''transactional.id'', ''cdc-producer-1''),
      (''enable.idempotence'', ''true'')]"

definition kafka_producer_new :: "((string \<times> string) list \<Rightarrow> string + 'k) \<Rightarrow> ('k \<Rightarrow> pres \<times> 'k) \<Rightarrow>
    KafkaConfig \<Rightarrow> string + KafkaProducer \<times> 'k" where
  "kafka_producer_new create init_transactions config =
     (case create (client_settings config) of
        Inl e \<Rightarrow> Inl e
      | Inr k \<Rightarrow>
          (case init_transactions k of
             (Inl e, _) \<Rightarrow> Inl e
           | (Inr _, k') \<Rightarrow> Inr (kafka_producer_fields config, k')))"

subsection \<open>The methods\<close>

definition kp_start_transaction :: "'k rdkafka \<Rightarrow> 'k \<Rightarrow> pres \<times> 'k" where
  "kp_start_transaction cl k = k_begin_transaction cl k"

definition event_topic :: "string \<Rightarrow> string \<Rightarrow> string \<Rightarrow> string" where
  "event_topic topic namespace name = topic @ ''.events.'' @ namespace @ ''.'' @ name"

definition kp_send :: "KafkaProducer \<Rightarrow> avro \<Rightarrow> 'k rdkafka \<Rightarrow> Relation \<Rightarrow> ChangeEvent \<Rightarrow> 'k \<Rightarrow> pres \<times> 'k" where
  "kp_send self codec cl relation event k =
     (case into_avro_event codec event of
        Inl e \<Rightarrow> (Inl e, k)
      | Inr payload \<Rightarrow>
          k_send cl
            \<lparr>fr_topic = event_topic (kp_topic self) (r_namespace relation) (r_name relation),
             fr_key = bytes_of_str (kp_key self), fr_payload = payload\<rparr> k)"

definition kp_on_relation :: "KafkaProducer \<Rightarrow> avro \<Rightarrow> 'k rdkafka \<Rightarrow> Relation \<Rightarrow> 'k \<Rightarrow> pres \<times> 'k" where
  "kp_on_relation self codec cl relation k =
     (case into_avro_relation codec relation of
        Inl e \<Rightarrow> (Inl e, k)
      | Inr relation_bin \<Rightarrow>
          k_send cl
            \<lparr>fr_topic = kp_rel_topic self, fr_key = to_be_bytes (relation_oid relation),
             fr_payload = relation_bin\<rparr> k)"

definition lsn_record :: "KafkaProducer \<Rightarrow> u64 \<Rightarrow> FutureRecord" where
  "lsn_record self lsn =
     \<lparr>fr_topic = kp_lsn_topic self, fr_key = bytes_of_str ''lsn'', fr_payload = to_be_bytes lsn\<rparr>"

definition kp_commit_transaction :: "KafkaProducer \<Rightarrow> 'k rdkafka \<Rightarrow> u64 \<Rightarrow> 'k \<Rightarrow> pres \<times> 'k" where
  "kp_commit_transaction self cl lsn k =
     (case k_send cl (lsn_record self lsn) k of
        (Inl e, k') \<Rightarrow> (Inl e, k')
      | (Inr _, k') \<Rightarrow> k_commit_transaction cl k')"

definition kp_abort_transaction :: "'k rdkafka \<Rightarrow> 'k \<Rightarrow> pres \<times> 'k" where
  "kp_abort_transaction cl k = k_abort_transaction cl k"

definition kafka_producer :: "KafkaProducer \<Rightarrow> avro \<Rightarrow> 'k rdkafka \<Rightarrow> 'k producer" where
  "kafka_producer self codec cl =
     \<lparr>p_start_transaction = kp_start_transaction cl,
      p_send = kp_send self codec cl,
      p_on_relation = kp_on_relation self codec cl,
      p_commit_transaction = kp_commit_transaction self cl,
      p_abort_transaction = kp_abort_transaction cl\<rparr>"

text \<open>The record of an item, and the items that have one.\<close>

definition encodable :: "avro \<Rightarrow> item \<Rightarrow> bool" where
  "encodable codec i =
     (case i of
        EventItem rel ev \<Rightarrow> \<not> is_err (map_sum id (\<lambda>_. ()) (into_avro_event codec ev))
      | RelationItem rel \<Rightarrow> \<not> is_err (map_sum id (\<lambda>_. ()) (into_avro_relation codec rel)))"

definition item_record :: "KafkaProducer \<Rightarrow> avro \<Rightarrow> item \<Rightarrow> FutureRecord" where
  "item_record self codec i =
     (case i of
        EventItem rel ev \<Rightarrow>
          \<lparr>fr_topic = event_topic (kp_topic self) (r_namespace rel) (r_name rel),
           fr_key = bytes_of_str (kp_key self), fr_payload = projr (into_avro_event codec ev)\<rparr>
      | RelationItem rel \<Rightarrow>
          \<lparr>fr_topic = kp_rel_topic self, fr_key = to_be_bytes (relation_oid rel),
           fr_payload = projr (into_avro_relation codec rel)\<rparr>)"

subsection \<open>The client's contract\<close>

text \<open>
  What the documentation of Kafka's transactional producer promises: a batch of records becomes
  visible to \<open>read_committed\<close> consumers when its transaction commits, and not otherwise; records can
  only be sent inside a transaction; a commit that reports an error may still have taken effect.
\<close>

locale transactional_client =
  fixes cl :: "'k rdkafka"
    and k_open :: "'k \<Rightarrow> bool"
    and k_pending :: "'k \<Rightarrow> FutureRecord list"
    and k_batches :: "'k \<Rightarrow> FutureRecord list list"
  assumes begin_ok: "k_begin_transaction cl k = (Inr u, k') \<Longrightarrow>
      k_open k' \<and> k_pending k' = [] \<and> k_batches k' = k_batches k"
    and begin_err: "k_begin_transaction cl k = (Inl e, k') \<Longrightarrow>
      (k_open k' \<longrightarrow> k_open k) \<and> k_batches k' = k_batches k"
    and send_ok: "k_send cl r k = (Inr u, k') \<Longrightarrow>
      k_open k \<and> k_open k' \<and> k_pending k' = k_pending k @ [r] \<and> k_batches k' = k_batches k"
    and send_err: "k_send cl r k = (Inl e, k') \<Longrightarrow>
      (k_open k' \<longrightarrow> k_open k \<and> k_pending k' \<in> {k_pending k, k_pending k @ [r]}) \<and> k_batches k' = k_batches k"
    and commit_ok: "k_commit_transaction cl k = (Inr u, k') \<Longrightarrow>
      k_open k \<and> \<not> k_open k' \<and> k_batches k' = k_batches k @ [k_pending k]"
    and commit_err: "k_commit_transaction cl k = (Inl e, k') \<Longrightarrow>
      k_batches k' = k_batches k \<or> (k_open k \<and> k_batches k' = k_batches k @ [k_pending k])"
    and abort_batches: "k_batches (snd (k_abort_transaction cl k)) = k_batches k"
begin

lemma commit_lsn_ok:
  "kp_commit_transaction self cl lsn k = (Inr u, k') \<Longrightarrow>
   k_open k \<and> \<not> k_open k' \<and> k_batches k' = k_batches k @ [k_pending k @ [lsn_record self lsn]]"
  unfolding kp_commit_transaction_def
  by (auto split: prod.splits sum.splits dest!: send_ok commit_ok)

lemma commit_lsn_err:
  "kp_commit_transaction self cl lsn k = (Inl e, k') \<Longrightarrow>
   k_batches k' = k_batches k \<or>
   (k_open k \<and> k_batches k' = k_batches k @ [k_pending k @ [lsn_record self lsn]])"
  unfolding kp_commit_transaction_def
  by (auto split: prod.splits sum.splits dest!: send_ok send_err commit_err)

end

text \<open>The Kafka producer keeps the contract of the trait, over every client that keeps its own.\<close>

sublocale transactional_client \<subseteq> kafka: producer "kafka_producer self codec cl" k_open k_pending k_batches
    "item_record self codec" "lsn_record self" for self codec
proof
  show "k_batches (snd (p_abort_transaction (kafka_producer self codec cl) k)) = k_batches k" for k
    by (simp add: kafka_producer_def kp_abort_transaction_def abort_batches)
qed (auto simp: kafka_producer_def kp_start_transaction_def kp_send_def kp_on_relation_def item_record_def
    split: sum.splits dest: begin_ok begin_err send_ok send_err commit_lsn_ok commit_lsn_err)

text \<open>
  A client whose aborts succeed: what is open is given up.  A call to begin or to commit that fails may
  leave the transaction open, and then as it was.
\<close>

locale aborting_client = transactional_client +
  assumes begin_err_open: "k_begin_transaction cl k = (Inl e, k') \<Longrightarrow> k_open k' \<Longrightarrow> k_pending k' = k_pending k"
    and commit_err_open: "k_commit_transaction cl k = (Inl e, k') \<Longrightarrow> k_open k' \<Longrightarrow>
      k_open k \<and> k_pending k' = k_pending k \<and> k_batches k' = k_batches k"
    and abort_closes: "\<not> k_open (snd (k_abort_transaction cl k))"
begin

lemma commit_lsn_err_open:
  assumes "kp_commit_transaction self cl lsn k = (Inl e, k')" and "k_open k'"
  shows "k_open k \<and> k_pending k' \<in> {k_pending k, k_pending k @ [lsn_record self lsn]} \<and> k_batches k' = k_batches k"
proof -
  obtain r k1 where send: "k_send cl (lsn_record self lsn) k = (r, k1)" by fastforce
  show ?thesis
  proof (cases r)
    case (Inl e1)
    then show ?thesis
      using assms send_err [of "lsn_record self lsn" k e1 k1] send by (simp add: kp_commit_transaction_def)
  next
    case (Inr u)
    then have "k_commit_transaction cl k1 = (Inl e, k')" using assms(1) send by (simp add: kp_commit_transaction_def)
    from commit_err_open [OF this assms(2)] show ?thesis
      using send_ok [of "lsn_record self lsn" k u k1] send Inr by simp
  qed
qed

end

sublocale aborting_client \<subseteq> aborting_kafka: aborting_producer "kafka_producer self codec cl" k_open k_pending k_batches
    "item_record self codec" "lsn_record self" for self codec
proof
  show "\<not> k_open (snd (p_abort_transaction (kafka_producer self codec cl) k))" for k
    by (simp add: kafka_producer_def kp_abort_transaction_def abort_closes)
qed (use begin_err_open commit_lsn_err_open in \<open>simp_all add: kafka_producer_def kp_start_transaction_def\<close>)

subsection \<open>A broker\<close>

text \<open>
  A transactional log that keeps the contract, for running the model: a call outside the state it
  needs is an error; with \<open>faulty\<close>, a call also fails when the next entry of the script \<open>b_faults\<close>
  says so.  A failed send leaves the record out; a failed commit leaves the transaction open.
\<close>

record broker =
  b_open :: bool
  b_pending :: "FutureRecord list"
  b_batches :: "FutureRecord list list"
  b_faults :: "bool list"

definition broker_call :: "bool \<Rightarrow> bool \<Rightarrow> (broker \<Rightarrow> broker) \<Rightarrow> broker \<Rightarrow> pres \<times> broker" where
  "broker_call faulty enabled effect b =
     (let b' = b\<lparr>b_faults := tl (b_faults b)\<rparr>
      in if faulty \<and> b_faults b \<noteq> [] \<and> hd (b_faults b) then (Inl ''fault'', b')
         else if enabled then (Inr (), effect b')
         else (Inl ''state'', b'))"

definition broker_client :: "bool \<Rightarrow> broker rdkafka" where
  "broker_client faulty =
     \<lparr>k_begin_transaction = (\<lambda>b. broker_call faulty (\<not> b_open b)
        (\<lambda>b. b\<lparr>b_open := True, b_pending := []\<rparr>) b),
      k_send = (\<lambda>r b. broker_call faulty (b_open b) (\<lambda>b. b\<lparr>b_pending := b_pending b @ [r]\<rparr>) b),
      k_commit_transaction = (\<lambda>b. broker_call faulty (b_open b)
        (\<lambda>b. b\<lparr>b_open := False, b_pending := [], b_batches := b_batches b @ [b_pending b]\<rparr>) b),
      k_abort_transaction = (\<lambda>b. broker_call faulty (b_open b)
        (\<lambda>b. b\<lparr>b_open := False, b_pending := []\<rparr>) b)\<rparr>"

definition empty_broker :: "bool list \<Rightarrow> broker" where
  "empty_broker faults = \<lparr>b_open = False, b_pending = [], b_batches = [], b_faults = faults\<rparr>"

interpretation broker: transactional_client "broker_client faulty" b_open b_pending b_batches for faulty
  by unfold_locales (auto simp: broker_client_def broker_call_def Let_def split: if_splits)

text \<open>One that never fails to abort.\<close>

definition aborting_broker :: "bool \<Rightarrow> broker rdkafka" where
  "aborting_broker faulty =
     (broker_client faulty)\<lparr>k_abort_transaction :=
       (\<lambda>b. (if b_open b then Inr () else Inl ''state'', b\<lparr>b_open := False, b_pending := []\<rparr>))\<rparr>"

interpretation aborting_broker: aborting_client "aborting_broker faulty" b_open b_pending b_batches for faulty
  by unfold_locales (auto simp: aborting_broker_def broker_client_def broker_call_def Let_def split: if_splits)

text \<open>
  Over a broker without faults the Kafka producer does not fail, nor over one whose script has no fault
  for the calls at hand, or is used up.
\<close>

lemmas broker_run_defs = kafka_producer_def broker_client_def broker_call_def kp_start_transaction_def kp_send_def
  kp_on_relation_def kp_commit_transaction_def encodable_def Let_def

interpretation steady: reliable_producer "kafka_producer self codec (broker_client False)"
    b_open b_pending b_batches "item_record self codec" "lsn_record self" "encodable codec" "\<lambda>n b. True" for self codec
  by unfold_locales (auto simp: broker_run_defs split: sum.splits)

interpretation scripted: reliable_producer "kafka_producer self codec (broker_client True)"
    b_open b_pending b_batches "item_record self codec" "lsn_record self" "encodable codec"
    "\<lambda>n b. b_faults b = replicate n False @ rest" for self codec rest
  by unfold_locales (auto simp: broker_run_defs split: sum.splits)

interpretation calm: reliable_producer "kafka_producer self codec (broker_client True)"
    b_open b_pending b_batches "item_record self codec" "lsn_record self" "encodable codec"
    "\<lambda>n b. b_faults b = []" for self codec
  by unfold_locales (auto simp: broker_run_defs split: sum.splits)

subsection \<open>Topics\<close>

definition lsn_topic :: "string \<Rightarrow> string" where
  "lsn_topic topic = topic @ ''.lsn''"

definition relations_topic :: "string \<Rightarrow> string" where
  "relations_topic topic = topic @ ''.relations''"

lemma topics_distinct [simp]:
  "event_topic t ns n \<noteq> lsn_topic t" "event_topic t ns n \<noteq> relations_topic t" "relations_topic t \<noteq> lsn_topic t"
  by (simp_all add: event_topic_def lsn_topic_def relations_topic_def)

lemma item_record_topic:
  "fr_topic (item_record (kafka_producer_fields config) codec i) \<noteq> lsn_topic (kc_topic config)"
  by (cases i) (simp_all add: item_record_def kafka_producer_fields_def flip: relations_topic_def)

lemma lsn_record_topic: "fr_topic (lsn_record (kafka_producer_fields config) lsn) = lsn_topic (kc_topic config)"
  by (simp add: lsn_record_def kafka_producer_fields_def lsn_topic_def)

subsection \<open>Recovering the last LSN\<close>

text \<open>
  The messages the consumer's stream yields before it ends or the timeout fires: an error, or a
  message with its payload.
\<close>

fun read_lsn_loop :: "u64 \<Rightarrow> (string + byte list option) list \<Rightarrow> string + u64" where
  "read_lsn_loop latest_lsn [] = Inr latest_lsn"
| "read_lsn_loop latest_lsn (Inl e # ms) = Inl e"
| "read_lsn_loop latest_lsn (Inr None # ms) = read_lsn_loop latest_lsn ms"
| "read_lsn_loop latest_lsn (Inr (Some lsn_bytes) # ms) =
     (if length lsn_bytes = 8 then read_lsn_loop (from_be_bytes lsn_bytes) ms
      else read_lsn_loop latest_lsn ms)"

definition read_lsn :: "(string \<Rightarrow> string + (string + byte list option) list) \<Rightarrow> KafkaConfig \<Rightarrow> string + u64" where
  "read_lsn subscribe kafka_config =
     (case subscribe (kc_topic kafka_config @ ''.lsn'') of
        Inl e \<Rightarrow> Inl e
      | Inr ms \<Rightarrow> read_lsn_loop 0 ms)"

text \<open>What a \<open>read_committed\<close> consumer of a topic sees of the committed batches, from the beginning.\<close>

definition topic_messages :: "FutureRecord list list \<Rightarrow> string \<Rightarrow> (string + byte list option) list" where
  "topic_messages batches topic =
     map (\<lambda>r. Inr (Some (fr_payload r))) (filter (\<lambda>r. fr_topic r = topic) (concat batches))"

lemma read_lsn_loop_payloads:
  "read_lsn_loop l0 (map (\<lambda>l. Inr (Some (to_be_bytes (l :: u64)))) lsns) = Inr (last (l0 # lsns))"
  by (induction lsns arbitrary: l0) auto

lemma filter_lsn_batch:
  "filter (\<lambda>r. fr_topic r = lsn_topic (kc_topic config))
     (map (item_record (kafka_producer_fields config) codec) items @
      [lsn_record (kafka_producer_fields config) lsn]) =
   [lsn_record (kafka_producer_fields config) lsn]"
  by (simp add: item_record_topic lsn_record_topic filter_False)

lemma lsn_messages_of_stream:
  assumes "length iss = length txs"
  shows "topic_messages
      (map2 (\<lambda>tx items. map (item_record (kafka_producer_fields config) codec) items @
         [lsn_record (kafka_producer_fields config) (tx_end_lsn tx)]) txs iss) (lsn_topic (kc_topic config)) =
    map (\<lambda>l. Inr (Some (to_be_bytes l))) (map tx_end_lsn txs)"
  using assms [symmetric]
proof (induction rule: list_induct2)
  case Nil
  then show ?case by (simp add: topic_messages_def)
next
  case (Cons tx txs items iss)
  have "topic_messages (b # bs) t = map (\<lambda>r. Inr (Some (fr_payload r))) (filter (\<lambda>r. fr_topic r = t) b) @
      topic_messages bs t" for b bs t
    by (simp add: topic_messages_def)
  then show ?case
    using Cons filter_lsn_batch [of config codec items "tx_end_lsn tx"] by (simp add: lsn_record_def)
qed

lemma stream_contents_length: "stream_contents P rels txs = Some (iss, rels') \<Longrightarrow> length iss = length txs"
  by (induction P rels txs arbitrary: iss rule: stream_contents.induct) (auto split: option.splits)

subsection \<open>Creating the topics\<close>

record NewTopic =
  nt_name :: string
  nt_partitions :: int
  nt_replication :: int
  nt_config :: "(string \<times> string) list"

record DbTopic =
  db_name :: string
  db_namespace :: string

text \<open>
  The admin client: \<open>fetch_metadata\<close> answers with the number of partitions of each topic it reports,
  \<open>create_topics\<close> with a result for each topic.
\<close>

record 'a admin =
  a_fetch_metadata :: "string \<Rightarrow> 'a \<Rightarrow> string + nat list"
  a_create_topics :: "NewTopic list \<Rightarrow> 'a \<Rightarrow> (string + (string + string) list) \<times> 'a"

definition ensure_topic :: "'a admin \<Rightarrow> string \<Rightarrow> int \<Rightarrow> int \<Rightarrow> bool \<Rightarrow> 'a \<Rightarrow> pres \<times> 'a" where
  "ensure_topic adm topic partitions replication compact a =
     (case a_fetch_metadata adm topic a of
        Inl e \<Rightarrow> (Inl e, a)
      | Inr metadata \<Rightarrow>
          (if metadata = [] \<or> hd metadata = 0
           then (let new_topic = \<lparr>nt_name = topic, nt_partitions = partitions, nt_replication = replication,
                       nt_config = (if compact then [(''cleanup.policy'', ''compact'')] else [])\<rparr>
                 in (case a_create_topics adm [new_topic] a of
                       (Inl e, a') \<Rightarrow> (Inl e, a')
                     | (Inr topic_results, a') \<Rightarrow> (Inr (), a')))
           else (Inr (), a)))"

fun ensure_event_topics :: "'a admin \<Rightarrow> string \<Rightarrow> DbTopic list \<Rightarrow> 'a \<Rightarrow> pres \<times> 'a" where
  "ensure_event_topics adm topic [] a = (Inr (), a)"
| "ensure_event_topics adm topic (d # ds) a =
     (case ensure_topic adm (event_topic topic (db_namespace d) (db_name d)) 1 1 False a of
        (Inl e, a') \<Rightarrow> (Inl e, a')
      | (Inr _, a') \<Rightarrow> ensure_event_topics adm topic ds a')"

definition check_topics :: "'a admin \<Rightarrow> KafkaConfig \<Rightarrow> DbTopic list \<Rightarrow> 'a \<Rightarrow> pres \<times> 'a" where
  "check_topics adm kafka_config db_topics a =
     (case ensure_topic adm (lsn_topic (kc_topic kafka_config)) 1 1 True a of
        (Inl e, a1) \<Rightarrow> (Inl e, a1)
      | (Inr _, a1) \<Rightarrow>
          (case ensure_topic adm (relations_topic (kc_topic kafka_config)) 1 1 True a1 of
             (Inl e, a2) \<Rightarrow> (Inl e, a2)
           | (Inr _, a2) \<Rightarrow> ensure_event_topics adm (kc_topic kafka_config) db_topics a2))"

text \<open>
  The contract of the admin client: metadata tells which topics exist, a topic comes into being only
  by being created, and none disappears.  \<open>reporting_admin\<close> adds what the results of a request mean: a
  topic it does not report as refused is there.
\<close>

locale topic_admin =
  fixes adm :: "'a admin"
    and topics :: "'a \<Rightarrow> string set"
  assumes metadata: "a_fetch_metadata adm t a = Inr ms \<Longrightarrow> (ms \<noteq> [] \<and> hd ms \<noteq> 0) \<longleftrightarrow> t \<in> topics a"
    and create_mono: "topics a \<subseteq> topics (snd (a_create_topics adm nts a))"
begin

lemma create_mono': "a_create_topics adm nts a = (r, a') \<Longrightarrow> topics a \<subseteq> topics a'"
  using create_mono [of a nts] by simp

lemma ensure_topic_mono: "topics a \<subseteq> topics (snd (ensure_topic adm t n r c a))"
  by (auto simp: ensure_topic_def Let_def split: sum.splits prod.splits dest: create_mono')

lemma ensure_event_topics_mono: "topics a \<subseteq> topics (snd (ensure_event_topics adm t ds a))"
proof (induction ds arbitrary: a)
  case Nil
  then show ?case by simp
next
  case (Cons d ds)
  obtain r a' where e: "ensure_topic adm (event_topic t (db_namespace d) (db_name d)) 1 1 False a = (r, a')"
    by (cases "ensure_topic adm (event_topic t (db_namespace d) (db_name d)) 1 1 False a")
  then have "topics a \<subseteq> topics a'"
    using ensure_topic_mono [of a "event_topic t (db_namespace d) (db_name d)" 1 1 False] by simp
  then show ?case using Cons.IH [of a'] e by (auto split: sum.splits)
qed

end

definition refuses :: "'a admin \<Rightarrow> string \<Rightarrow> bool" where
  "refuses adm t \<longleftrightarrow>
     (\<exists>nt a rs a' e. nt_name nt = t \<and> a_create_topics adm [nt] a = (Inr rs, a') \<and> Inl e \<in> set rs)"

locale reporting_admin = topic_admin +
  assumes reports: "a_create_topics adm [nt] a = (Inr rs, a') \<Longrightarrow> nt_name nt \<in> topics a' \<or> (\<exists>e. Inl e \<in> set rs)"
begin

lemma created: "a_create_topics adm [nt] a = (Inr rs, a') \<Longrightarrow> nt_name nt \<in> topics a' \<or> refuses adm (nt_name nt)"
  using reports unfolding refuses_def by blast

lemma ensure_topic_exists:
  assumes "ensure_topic adm t n r c a = (Inr u, a')"
  shows "t \<in> topics a' \<or> refuses adm t"
proof (cases "a_fetch_metadata adm t a")
  case (Inl e)
  then show ?thesis using assms by (simp add: ensure_topic_def)
next
  case (Inr ms)
  show ?thesis
  proof (cases "ms = [] \<or> hd ms = 0")
    case False
    then have "a' = a" using assms Inr by (simp add: ensure_topic_def)
    then show ?thesis using False metadata [OF Inr] by simp
  next
    case True
    then show ?thesis
      using assms Inr by (auto simp: ensure_topic_def Let_def split: prod.splits sum.splits dest: created)
  qed
qed

lemma ensure_event_topics_exist:
  "ensure_event_topics adm t ds a = (Inr u, a') \<Longrightarrow>
   d \<in> set ds \<Longrightarrow> event_topic t (db_namespace d) (db_name d) \<in> topics a' \<union> {t. refuses adm t}"
proof (induction ds arbitrary: a)
  case Nil
  then show ?case by simp
next
  case (Cons d' ds)
  from Cons.prems(1) obtain v a1 where
    e: "ensure_topic adm (event_topic t (db_namespace d') (db_name d')) 1 1 False a = (Inr v, a1)"
      "ensure_event_topics adm t ds a1 = (Inr u, a')"
    by (auto split: sum.splits prod.splits)
  have "topics a1 \<subseteq> topics a'" using ensure_event_topics_mono [of a1 t ds] e(2) by simp
  then show ?case using Cons ensure_topic_exists [OF e(1)] e(2) by auto
qed

lemma check_topics_exist:
  assumes "check_topics adm config ds a = (Inr u, a')"
  shows "{lsn_topic (kc_topic config), relations_topic (kc_topic config)} \<union>
    (\<lambda>d. event_topic (kc_topic config) (db_namespace d) (db_name d)) ` set ds \<subseteq> topics a' \<union> {t. refuses adm t}"
proof -
  from assms obtain v w a1 a2 where
    e: "ensure_topic adm (lsn_topic (kc_topic config)) 1 1 True a = (Inr v, a1)"
      "ensure_topic adm (relations_topic (kc_topic config)) 1 1 True a1 = (Inr w, a2)"
      "ensure_event_topics adm (kc_topic config) ds a2 = (Inr u, a')"
    by (auto simp: check_topics_def split: sum.splits prod.splits)
  have "topics a1 \<subseteq> topics a2" "topics a2 \<subseteq> topics a'"
    using ensure_topic_mono [of a1 "relations_topic (kc_topic config)" 1 1 True] e(2)
      ensure_event_topics_mono [of a2 "kc_topic config" ds] e(3) by simp_all
  then show ?thesis
    using ensure_topic_exists [OF e(1)] ensure_topic_exists [OF e(2)] ensure_event_topics_exist [OF e(3)] by auto
qed

end

text \<open>A registry of topics, each with one partition; it refuses the topics named in \<open>refused\<close>.\<close>

definition registry_admin :: "string list \<Rightarrow> (string list) admin" where
  "registry_admin refused =
     \<lparr>a_fetch_metadata = (\<lambda>t a. Inr (map (\<lambda>_. 1) (filter (\<lambda>x. x = t) a))),
      a_create_topics = (\<lambda>nts a.
        (Inr (map (\<lambda>nt. if nt_name nt \<in> set refused then Inl ''refused'' else Inr (nt_name nt)) nts),
         filter (\<lambda>t. t \<notin> set refused) (map nt_name nts) @ a))\<rparr>"

interpretation registry: topic_admin "registry_admin refused" set for refused
  by unfold_locales (auto simp: registry_admin_def filter_empty_conv hd_map)

interpretation registry_reports: reporting_admin "registry_admin refused" set for refused
  by unfold_locales (auto simp: registry_admin_def)

lemma registry_refuses: "refuses (registry_admin refused) t \<Longrightarrow> t \<in> set refused"
  by (auto simp: refuses_def registry_admin_def split: if_splits)

subsection \<open>The pipeline over Kafka\<close>

context transactional_client begin

lemma kafka_is_producer:
  "producer (kafka_producer self codec cl) k_open k_pending k_batches (item_record self codec) (lsn_record self)"
  by (rule kafka.producer_axioms)

end

context aborting_client begin

lemma kafka_is_aborting_producer:
  "aborting_producer (kafka_producer self codec cl) k_open k_pending k_batches (item_record self codec) (lsn_record self)"
  by (rule aborting_kafka.aborting_producer_axioms)

end

lemma steady_stream:
  assumes "\<not> currently_in_transaction st" and "\<not> b_open (w_producer st)"
    and "stream_contents P (relation_map st) txs = Some (iss, rels')"
    and "\<forall>items\<in>set iss. \<forall>i\<in>set items. encodable codec i"
  shows "\<exists>st'. wal_steps P (kafka_producer self codec (broker_client False)) st (concat (map tx_events txs)) = Some st' \<and>
    \<not> currently_in_transaction st' \<and> relation_map st' = rels' \<and>
    b_batches (w_producer st') = b_batches (w_producer st) @
      map2 (\<lambda>tx items. map (item_record self codec) items @ [lsn_record self (tx_end_lsn tx)]) txs iss \<and>
    applied_lsns st' = applied_lsns st @ map tx_lsn txs"
  using steady.reliable_stream [of st P txs iss rels' codec self] assms
  unfolding steady.idle_def by blast

lemma steady_run:
  assumes "stream_contents P Map.empty txs = Some (iss, rels')"
    and "\<forall>items\<in>set iss. \<forall>i\<in>set items. encodable codec i"
  shows "\<exists>st. wal_loop P (kafka_producer self codec (broker_client False)) (initial_wal (empty_broker faults))
      (map Event (concat (map tx_events txs)) @ [Closed]) = (st, Finished) \<and>
    b_batches (w_producer st) =
      map2 (\<lambda>tx items. map (item_record self codec) items @ [lsn_record self (tx_end_lsn tx)]) txs iss \<and>
    applied_lsns st = map tx_lsn txs"
proof -
  obtain st where st: "wal_steps P (kafka_producer self codec (broker_client False))
      (initial_wal (empty_broker faults)) (concat (map tx_events txs)) = Some st"
    "\<not> currently_in_transaction st"
    "b_batches (w_producer st) =
      map2 (\<lambda>tx items. map (item_record self codec) items @ [lsn_record self (tx_end_lsn tx)]) txs iss"
    "applied_lsns st = map tx_lsn txs"
    using steady_stream [of "initial_wal (empty_broker faults)" P txs iss rels' codec self] assms
    by (auto simp: initial_wal_def empty_broker_def)
  then show ?thesis by (simp add: wal_loop_steps [OF st(1)])
qed

subsection \<open>One call that fails\<close>

text \<open>Outside a transaction the broker's state does not change, only the relations are noted.\<close>

lemma closed_messages:
  assumes "tx_items P (relation_map st) (map snd ms) = Some (is, rels')" and "\<not> currently_in_transaction st"
    and "\<not> b_open (w_producer st)" and "b_faults (w_producer st) = []"
  shows "wal_steps P (kafka_producer self codec (broker_client True)) st (map (\<lambda>(w, d). XLogData w d) ms) =
    Some (st\<lparr>relation_map := rels'\<rparr>)"
  using assms
proof (induction ms arbitrary: st "is")
  case Nil
  then show ?case by simp
next
  case (Cons x ms)
  let ?ops = "kafka_producer self codec (broker_client True)"
  obtain w m where x: "x = (w, m)" by (cases x)
  from Cons.prems(1) obtain is1 rels1 is2 where
    m: "message_items P (relation_map st) m = Some (is1, rels1)" and rest: "tx_items P rels1 (map snd ms) = Some (is2, rels')"
    by (auto simp: x split: option.splits)
  have call: "p_on_relation ?ops rel (w_producer st) = (r, p) \<Longrightarrow> p = w_producer st" for rel r p
    using Cons.prems(3,4) by (auto simp: broker_run_defs split: sum.splits)
  obtain tag d where tag: "m = tag # d" using m by (auto simp: message_items_def split: list.splits)
  have "wal_step P ?ops st (XLogData w m) = Some (st\<lparr>relation_map := rels1\<rparr>)"
  proof (cases "tag = b_R")
    case True
    then show ?thesis
      using m call by (auto simp: tag message_items_def on_xlog_data_def on_relation_message_def split: outcome.splits prod.splits)
  next
    case False
    then show ?thesis
      using m Cons.prems(2) by (auto simp: tag message_items_def on_xlog_data_def split: if_splits)
  qed
  then show ?case using Cons.IH [of "st\<lparr>relation_map := rels1\<rparr>"] rest Cons.prems(2-4) by (simp add: x)
qed

text \<open>The transaction whose send fails, from its Begin to its Commit.\<close>

lemma lost_transaction:
  assumes "scripted.idle st" and "b_faults (w_producer st) = replicate (Suc (length is1)) False @ [True]"
    and "tx_messages tx = ms1 @ (w, m) # ms2" and "tx_items P (relation_map st) (map snd ms1) = Some (is1, rels2)"
    and "message_items P rels2 m = Some ([EventItem rel ev], rels3)"
    and "tx_items P rels3 (map snd ms2) = Some (is2, rels4)"
    and "\<forall>i\<in>set (is1 @ [EventItem rel ev]). encodable codec i"
  shows "\<exists>st'. wal_steps P (kafka_producer self codec (broker_client True)) st (tx_events tx) = Some st' \<and>
    scripted.idle st' \<and> b_faults (w_producer st') = [] \<and> relation_map st' = rels4 \<and>
    b_batches (w_producer st') = b_batches (w_producer st) \<and> applied_lsns st' = applied_lsns st"
proof -
  let ?ops = "kafka_producer self codec (broker_client True)"
  have "b_faults (w_producer st) = replicate (Suc (length is1 + 0)) False @ [True]" using assms(2) by simp
  note begun = scripted.reliable_begin [where self = self and codec = codec, OF assms(1) this]
  obtain st1 where st1: "wal_steps P ?ops (on_begin ?ops st) (map (\<lambda>(w, d). XLogData w d) ms1) = Some st1"
    and mid: "scripted.in_tx self codec [True] 0 (b_batches (w_producer st)) (applied_lsns st) rels2 is1 st1"
    using scripted.in_tx_messages [OF begun assms(4)] assms(7) by auto
  have s1: "currently_in_transaction st1" "relation_map st1 = rels2" "b_faults (w_producer st1) = [True]" "b_open (w_producer st1)"
    "b_batches (w_producer st1) = b_batches (w_producer st)" "applied_lsns st1 = applied_lsns st"
    using mid by (simp_all add: scripted.in_tx_def)
  obtain rd where rd: "rels3 = rels2" "inner rd = rel"
    "wal_step P ?ops st1 (XLogData w m) = send_to_producer ?ops (Ok (ev, rd)) st1"
    using message_event [OF assms(5) s1(2,1)] by blast
  have "into_avro_event codec ev \<noteq> Inl e" for e using assms(7) by (auto simp: encodable_def)
  then obtain payload where payload: "into_avro_event codec ev = Inr payload" by (cases "into_avro_event codec ev") auto
  obtain st2 where st2: "wal_step P ?ops st1 (XLogData w m) = Some st2" "\<not> currently_in_transaction st2"
    "\<not> b_open (w_producer st2)" "b_faults (w_producer st2) = []" "relation_map st2 = rels2"
    "b_batches (w_producer st2) = b_batches (w_producer st)" "applied_lsns st2 = applied_lsns st"
    unfolding rd(3) using s1 payload by (simp add: send_to_producer_def broker_run_defs kp_abort_transaction_def)
  have "wal_steps P ?ops st2 (map (\<lambda>(w, d). XLogData w d) ms2) = Some (st2\<lparr>relation_map := rels4\<rparr>)"
    using closed_messages [of P st2 ms2 is2 rels4 self codec] assms(6) rd(1) st2(2-5) by simp
  then have "wal_steps P ?ops st (tx_events tx) = Some (st2\<lparr>relation_map := rels4\<rparr>)"
    using st1 st2(1,2) by (simp add: tx_events_def assms(3) wal_steps_append on_commit_def)
  then show ?thesis using st2 by (simp add: scripted.idle_def)
qed

lemma lost_transaction_run:
  assumes "stream_contents P Map.empty txs1 = Some (iss1, rels1)"
    and "tx_messages tx = ms1 @ (w, m) # ms2" and "tx_items P rels1 (map snd ms1) = Some (is1, rels2)"
    and "message_items P rels2 m = Some ([EventItem rel ev], rels3)"
    and "tx_items P rels3 (map snd ms2) = Some (is2, rels4)" and "stream_contents P rels4 txs2 = Some (iss2, rels5)"
    and "\<forall>items\<in>set (iss1 @ (is1 @ [EventItem rel ev]) # iss2). \<forall>i\<in>set items. encodable codec i"
  shows "\<exists>st. wal_loop P (kafka_producer self codec (broker_client True))
      (initial_wal (empty_broker (replicate (stream_calls iss1 + Suc (length is1)) False @ [True])))
      (map Event (concat (map tx_events (txs1 @ tx # txs2))) @ [Closed]) = (st, Finished) \<and>
    b_batches (w_producer st) =
      map2 (\<lambda>tx items. map (item_record self codec) items @ [lsn_record self (tx_end_lsn tx)]) (txs1 @ txs2) (iss1 @ iss2) \<and>
    applied_lsns st = map tx_lsn (txs1 @ txs2)"
proof -
  let ?ops = "kafka_producer self codec (broker_client True)" and ?batch = "\<lambda>tx items. map (item_record self codec) items @ [lsn_record self (tx_end_lsn tx)]"
  let ?st = "initial_wal (empty_broker (replicate (stream_calls iss1 + Suc (length is1)) False @ [True]))"
  have start: "scripted.idle ?st" "relation_map ?st = Map.empty" "b_batches (w_producer ?st) = []" "applied_lsns ?st = []"
    "b_faults (w_producer ?st) = replicate (stream_calls iss1 + Suc (length is1)) False @ [True]"
    by (simp_all add: scripted.idle_def initial_wal_def empty_broker_def)
  obtain st1 where st1: "wal_steps P ?ops ?st (concat (map tx_events txs1)) = Some st1" "scripted.idle st1"
    "relation_map st1 = rels1" "b_faults (w_producer st1) = replicate (Suc (length is1)) False @ [True]"
    "b_batches (w_producer st1) = map2 ?batch txs1 iss1" "applied_lsns st1 = map tx_lsn txs1"
    using scripted.reliable_stream [where self = self and codec = codec, OF start(1) _ _ start(5), of P txs1 rels1]
      assms(1,7) start(2-4) by auto
  obtain st2 where st2: "wal_steps P ?ops st1 (tx_events tx) = Some st2" "scripted.idle st2"
    "b_faults (w_producer st2) = []" "relation_map st2 = rels4"
    "b_batches (w_producer st2) = b_batches (w_producer st1)" "applied_lsns st2 = applied_lsns st1"
    using lost_transaction [OF st1(2,4) assms(2) _ assms(4,5), of codec self] assms(3,7) st1(3) by auto
  have "calm.idle st2" using st2(2) by (simp add: scripted.idle_def calm.idle_def)
  then obtain st3 where st3: "wal_steps P ?ops st2 (concat (map tx_events txs2)) = Some st3" "calm.idle st3"
    "b_batches (w_producer st3) = b_batches (w_producer st2) @ map2 ?batch txs2 iss2"
    "applied_lsns st3 = applied_lsns st2 @ map tx_lsn txs2"
    using calm.reliable_stream [where self = self and codec = codec, of st2 P txs2 iss2 rels5] assms(6,7) st2(3,4) by auto
  have "wal_steps P ?ops ?st (concat (map tx_events (txs1 @ tx # txs2))) = Some st3"
    using st1(1) st2(1) st3(1) by (simp add: wal_steps_append)
  from wal_loop_steps [OF this, of "[Closed]"] show ?thesis
    using st1(5,6) st2(5,6) st3(2-4) stream_contents_length [OF assms(1)] by (simp add: calm.idle_def)
qed

subsection \<open>Properties\<close>

text \<open>A serializer for the witnesses: any bytes do, what is at stake is where they go.\<close>

definition sample_codec :: avro where
  "sample_codec =
     \<lparr>into_avro_event = (\<lambda>ev. Inr (to_be_bytes (ev_rel ev))),
      into_avro_relation = (\<lambda>rel. Inr (to_be_bytes (relation_oid rel)))\<rparr>"

definition sample_config :: KafkaConfig where
  "sample_config = \<lparr>kc_brokers = ''localhost:9092'', kc_topic = ''cdc'', kc_key = ''k''\<rparr>"

lemma sample_encodable: "encodable sample_codec i"
  by (cases i) (simp_all add: encodable_def sample_codec_def)

text \<open>
  C8: transactions are published whole or not at all, over every Kafka client that keeps its contract
  and whose aborts succeed, whichever of its other calls fail.  After any stream, every transaction has
  found its fate: no record of it was published, or all its events in order (relation records that failed
  may be missing), with or without its end LSN; its LSN was acknowledged only if all of this was
  published, the end LSN included.  Each batch that \<open>read_committed\<close> consumers see consists of whole
  transactions, in the order of the stream; there can be several in one, since a transaction whose commit
  failed stays open and is published with the next.
\<close>

theorem kafka_transaction_all_or_nothing:
  assumes "aborting_client cl k_open k_pending k_batches" and "\<not> k_open k"
    and "stream_contents P Map.empty txs = Some (iss, rels')"
  shows "\<exists>st groups given_up. wal_loop P (kafka_producer self codec cl) (initial_wal k)
      (map Event (concat (map tx_events txs)) @ [Closed]) = (st, Finished) \<and>
    list_all2 (fate_of (item_record self codec) (lsn_record self)) (zip txs iss) (concat groups @ given_up) \<and>
    set given_up \<subseteq> {([], False)} \<and>
    k_batches (w_producer st) = k_batches k @ map records_of groups \<and>
    applied_lsns st = acknowledged (zip txs iss) (concat groups @ given_up)"
  by (rule aborting_producer.fates_of_run [OF aborting_client.kafka_is_aborting_producer [OF assms(1)] assms(2,3)])

theorem kafka_transaction_all_or_nothing_witness:
  "\<exists>st groups given_up. wal_loop x86_platform
      (kafka_producer (kafka_producer_fields sample_config) sample_codec (aborting_broker True))
      (initial_wal (empty_broker [False, False, True]))
      (map Event (concat (map tx_events example_stream)) @ [Closed]) = (st, Finished) \<and>
    list_all2 (fate_of (item_record (kafka_producer_fields sample_config) sample_codec)
      (lsn_record (kafka_producer_fields sample_config))) (zip example_stream example_items) (concat groups @ given_up) \<and>
    b_batches (w_producer st) = map records_of groups"
proof -
  have "\<not> b_open (empty_broker faults)" "b_batches (empty_broker faults) = []" for faults
    by (simp_all add: empty_broker_def)
  then show ?thesis
    using kafka_transaction_all_or_nothing [OF aborting_broker.aborting_client_axioms [of True] _ example_contents,
        where k = "empty_broker [False, False, True]" and self = "kafka_producer_fields sample_config" and
          codec = sample_codec]
    by (metis self_append_conv2)
qed

text \<open>
  When the abort after a failed send fails as well, the code goes on as if the transaction were closed: the
  next one is sent into the old one, and its commit publishes the events of the first that came before
  the failure.  Of the three events below the second is refused.
\<close>

definition torn_stream :: "transaction list" where
  "torn_stream =
     [\<lparr>tx_xid = 1, tx_time = 0,
       tx_messages = [(90, counters_message), (91, insert_message 1), (92, insert_message 2)],
       tx_lsn = 100, tx_end_lsn = 101\<rparr>,
      \<lparr>tx_xid = 2, tx_time = 0, tx_messages = [(190, insert_message 3)], tx_lsn = 200, tx_end_lsn = 201\<rparr>]"

lemma failed_abort_publishes_part:
  "\<exists>st. wal_loop x86_platform (kafka_producer (kafka_producer_fields sample_config) sample_codec (broker_client True))
      (initial_wal (empty_broker [False, False, False, True, True]))
      (map Event (concat (map tx_events torn_stream)) @ [Closed]) = (st, Finished) \<and>
    b_batches (w_producer st) =
      [map (item_record (kafka_producer_fields sample_config) sample_codec)
         [RelationItem counters_rel, EventItem counters_rel (insert_event 1), EventItem counters_rel (insert_event 3)] @
       [lsn_record (kafka_producer_fields sample_config) 201]] \<and>
    applied_lsns st = [200]"
proof -
  have i: "inner counters_rel_data = counters_rel" "relation_oid counters_rel = 7"
    by (simp_all add: counters_rel_data_def counters_rel_def)
  show ?thesis
    unfolding torn_stream_def tx_events_def
    by (simp add: example_steps on_begin_def on_commit_def on_relation_message_def send_to_producer_def
        counters_parse insert_message_parse initial_wal_def empty_broker_def kafka_producer_def
        kp_start_transaction_def kp_send_def kp_on_relation_def kp_commit_transaction_def
        kp_abort_transaction_def broker_client_def broker_call_def sample_codec_def item_record_def Let_def i
        del: wal_step.simps(1))
qed

text \<open>
  C7: when no call fails, every transaction of the stream is published exactly once, in order: after
  the connection closes, the committed batches are, transaction by transaction, the records of its
  decoded items followed by the record of its end LSN, and each transaction's LSN was acknowledged.
\<close>

theorem kafka_stream_exactly_once:
  assumes "stream_contents P Map.empty txs = Some (iss, rels')"
    and "\<forall>items\<in>set iss. \<forall>i\<in>set items. encodable codec i"
  shows "\<exists>st. wal_loop P (kafka_producer self codec (broker_client False)) (initial_wal (empty_broker faults))
      (map Event (concat (map tx_events txs)) @ [Closed]) = (st, Finished) \<and>
    b_batches (w_producer st) =
      map2 (\<lambda>tx items. map (item_record self codec) items @ [lsn_record self (tx_end_lsn tx)]) txs iss \<and>
    applied_lsns st = map tx_lsn txs"
  by (rule steady_run [OF assms])

theorem kafka_stream_exactly_once_witness:
  "\<exists>st. wal_loop x86_platform (kafka_producer (kafka_producer_fields sample_config) sample_codec (broker_client False))
      (initial_wal (empty_broker [])) (map Event (concat (map tx_events example_stream)) @ [Closed]) = (st, Finished) \<and>
    length (b_batches (w_producer st)) = 2 \<and> applied_lsns st = [100, 200]"
  using kafka_stream_exactly_once [OF example_contents, of sample_codec "kafka_producer_fields sample_config" "[]"]
    sample_encodable
  by (force simp: example_stream_def example_items_def)

text \<open>
  C36: a failed send loses its transaction for good.  Take any stream and any event of it whose send, and no
  other call, fails: the transaction is aborted with what was sent of it before, those before and after it
  are published as if it had never been, and their LSNs acknowledged.  If one comes after it, a restart
  finds that one's end LSN in Kafka, past the lost transaction.
\<close>

theorem failed_send_loses_transaction:
  assumes "stream_contents P Map.empty txs1 = Some (iss1, rels1)"
    and "tx_messages tx = ms1 @ (w, m) # ms2" and "tx_items P rels1 (map snd ms1) = Some (is1, rels2)"
    and "message_items P rels2 m = Some ([EventItem rel ev], rels3)"
    and "tx_items P rels3 (map snd ms2) = Some (is2, rels4)" and "stream_contents P rels4 txs2 = Some (iss2, rels5)"
    and "\<forall>items\<in>set (iss1 @ (is1 @ [EventItem rel ev]) # iss2). \<forall>i\<in>set items. encodable codec i"
    and "faults = replicate (stream_calls iss1 + Suc (length is1)) False @ [True]"
  shows "\<exists>st. wal_loop P (kafka_producer (kafka_producer_fields config) codec (broker_client True))
      (initial_wal (empty_broker faults)) (map Event (concat (map tx_events (txs1 @ tx # txs2))) @ [Closed]) =
      (st, Finished) \<and>
    b_batches (w_producer st) =
      map2 (\<lambda>tx items. map (item_record (kafka_producer_fields config) codec) items @
        [lsn_record (kafka_producer_fields config) (tx_end_lsn tx)]) (txs1 @ txs2) (iss1 @ iss2) \<and>
    applied_lsns st = map tx_lsn (txs1 @ txs2) \<and>
    (txs2 \<noteq> [] \<longrightarrow>
      read_lsn (\<lambda>topic. Inr (topic_messages (b_batches (w_producer st)) topic)) config =
        Inr (tx_end_lsn (last txs2)))"
proof -
  obtain st where st: "wal_loop P (kafka_producer (kafka_producer_fields config) codec (broker_client True))
      (initial_wal (empty_broker faults)) (map Event (concat (map tx_events (txs1 @ tx # txs2))) @ [Closed]) =
      (st, Finished)"
    "b_batches (w_producer st) =
      map2 (\<lambda>tx items. map (item_record (kafka_producer_fields config) codec) items @
        [lsn_record (kafka_producer_fields config) (tx_end_lsn tx)]) (txs1 @ txs2) (iss1 @ iss2)"
    "applied_lsns st = map tx_lsn (txs1 @ txs2)"
    using lost_transaction_run [OF assms(1-7), of "kafka_producer_fields config"] assms(8) by blast
  have "length (iss1 @ iss2) = length (txs1 @ txs2)"
    using stream_contents_length [OF assms(1)] stream_contents_length [OF assms(6)] by simp
  from lsn_messages_of_stream [OF this, of config codec]
  have "read_lsn (\<lambda>topic. Inr (topic_messages (b_batches (w_producer st)) topic)) config =
      Inr (last (0 # map tx_end_lsn (txs1 @ txs2)))"
    unfolding st(2) read_lsn_loop_payloads [symmetric] by (simp only: read_lsn_def lsn_topic_def sum.case)
  moreover have "last (0 # map tx_end_lsn (txs1 @ txs2)) = tx_end_lsn (last txs2)" if "txs2 \<noteq> []"
    using that by (simp add: last_map)
  ultimately show ?thesis using st by auto
qed

theorem failed_send_loses_transaction_witness:
  "\<exists>st. wal_loop x86_platform (kafka_producer (kafka_producer_fields sample_config) sample_codec (broker_client True))
      (initial_wal (empty_broker [False, False, True]))
      (map Event (concat (map tx_events example_stream)) @ [Closed]) = (st, Finished) \<and>
    b_batches (w_producer st) =
      [[item_record (kafka_producer_fields sample_config) sample_codec (EventItem counters_rel (insert_event 2)),
        lsn_record (kafka_producer_fields sample_config) 201]] \<and>
    read_lsn (\<lambda>topic. Inr (topic_messages (b_batches (w_producer st)) topic)) sample_config = Inr 201"
proof -
  let ?tx = "hd example_stream" and ?txs = "tl example_stream"
  have parts: "tx_messages ?tx = [(90, counters_message)] @ (91, insert_message 1) # []"
    "example_stream = [] @ ?tx # ?txs" "?txs \<noteq> []" "tx_end_lsn (last ?txs) = 201" "length ?txs = 1"
    by (simp_all add: example_stream_def)
  have first: "tx_items x86_platform Map.empty (map snd [(90 :: u64, counters_message)]) =
      Some ([RelationItem counters_rel], [7 \<mapsto> counters_rel_data])"
    by (simp add: message_items_example)
  have rest: "stream_contents x86_platform [7 \<mapsto> counters_rel_data] ?txs =
      Some ([[EventItem counters_rel (insert_event 2)]], [7 \<mapsto> counters_rel_data])"
    by (simp add: example_stream_def tx_contents_def message_items_example)
  have faults: "[False, False, True] = replicate (stream_calls [] + Suc (length [RelationItem counters_rel])) False @ [True]"
    by (simp add: stream_calls_def)
  have none: "stream_contents x86_platform Map.empty [] = Some ([], Map.empty)"
    "tx_items x86_platform [7 \<mapsto> counters_rel_data] (map snd []) = Some ([], [7 \<mapsto> counters_rel_data])"
    by simp_all
  show ?thesis
    using failed_send_loses_transaction [OF none(1) parts(1) first message_items_example(2) none(2) rest _ faults,
        of sample_codec sample_config] parts(2-4) sample_encodable
    by (auto simp: example_stream_def)
qed

text \<open>
  \<open>ensure_topic\<close> reports success for a topic the broker refused to create: it looks at the error of
  the request, not at the result of the topic in it.
\<close>

lemma refused_topic_goes_unnoticed:
  "check_topics (registry_admin [''cdc.lsn'']) sample_config [] [] = (Inr (), [''cdc.relations'']) \<and>
   lsn_topic (kc_topic sample_config) \<notin> set [''cdc.relations'']"
  by (simp add: check_topics_def ensure_topic_def registry_admin_def sample_config_def lsn_topic_def
      relations_topic_def)

end
