(* ===== verification/Producer_Main.thy ===== *)
theory Producer_Main imports Kafka_Producer begin

text \<open>
  The start of \<open>cdc-producer\<close>: \<open>configure_replica_identity\<close> of \<open>cdc-wal-reader/src/lib.rs\<close>, and \<open>main\<close>
  of \<open>cdc-producer/src/main.rs\<close>, which sets the identities and the topics up, finds the last LSN in
  Kafka and hands over to the WAL loop; and what that means for a stop and a restart.
\<close>

subsection \<open>Replica identities\<close>

text \<open>
  The calls of \<open>tokio_postgres\<close>: the query yields the schema and the name of each published table; an
  error is its text.
\<close>

record 'd source_client =
  d_published_tables :: "string list \<Rightarrow> 'd \<Rightarrow> (string + (string \<times> string) list) \<times> 'd"
  d_execute :: "string \<Rightarrow> 'd \<Rightarrow> (string + u64) \<times> 'd"

definition alter_statement :: "string \<Rightarrow> string \<Rightarrow> string \<Rightarrow> string" where
  "alter_statement schema table identity =
     ''ALTER TABLE '' @ schema @ ''.'' @ table @ '' REPLICA IDENTITY '' @ identity"

fun set_identities :: "'d source_client \<Rightarrow> string \<Rightarrow> (string \<times> string) list \<Rightarrow> DbTopic list \<Rightarrow> 'd \<Rightarrow>
    (string + DbTopic list) \<times> 'd" where
  "set_identities clt identity [] result d = (Inr result, d)"
| "set_identities clt identity ((schema, table) # rows) result d =
     (case d_execute clt (alter_statement schema table identity) d of
        (Inl e, d') \<Rightarrow> (Inl e, d')
      | (Inr _, d') \<Rightarrow>
          set_identities clt identity rows (result @ [\<lparr>db_name = table, db_namespace = schema\<rparr>]) d')"

definition configure_replica_identity :: "(PostgresConfig \<Rightarrow> string + 'd) \<Rightarrow> 'd source_client \<Rightarrow> PostgresConfig \<Rightarrow>
    bool \<Rightarrow> (string + DbTopic list) \<times> 'd option" where
  "configure_replica_identity connect clt config replica_identity_full =
     (case connect config of
        Inl e \<Rightarrow> (Inl e, None)
      | Inr d \<Rightarrow>
          (let pub_names = [pg_publication config];
               identity = (if replica_identity_full then ''FULL'' else ''DEFAULT'')
           in case d_published_tables clt pub_names d of
                (Inl e, d') \<Rightarrow> (Inl e, Some d')
              | (Inr rows, d') \<Rightarrow>
                  (let (r, d'') = set_identities clt identity rows [] d' in (r, Some d''))))"

subsection \<open>The producer's main\<close>

record MetricsConfig =
  mc_port :: u16

definition producer_default_metrics_config :: u16 where
  "producer_default_metrics_config = 9000"

definition metrics_config_default :: MetricsConfig where
  "metrics_config_default = \<lparr>mc_port = producer_default_metrics_config\<rparr>"

record ProducerConfig =
  pc_postgres :: PostgresConfig
  pc_kafka :: KafkaConfig
  pc_metrics :: MetricsConfig
  pc_will_connect_to_feldera :: bool

definition lsn_consumer_settings :: "KafkaConfig \<Rightarrow> (string \<times> string) list" where
  "lsn_consumer_settings kafka_config =
     [(''group.id'', ''producer-lsn-read''),
      (''bootstrap.servers'', kc_brokers kafka_config),
      (''enable.partition.eof'', ''false''),
      (''session.timeout.ms'', ''6000''),
      (''isolation.level'', ''read_committed''),
      (''auto.offset.reset'', ''earliest'')]"

text \<open>
  The outside world of \<open>main\<close>: the source database, the admin client, the consumer of the LSN topic
  (the messages its stream yields on a subscription, or the error of \<open>subscribe\<close>), the producer's
  client and the replication connection.
\<close>

record ('d, 'a, 'k) world =
  wo_connect_source :: "PostgresConfig \<Rightarrow> string + 'd"
  wo_source :: "'d source_client"
  wo_connect_admin :: "string \<Rightarrow> string + 'a"
  wo_admin :: "'a admin"
  wo_create_consumer :: "(string \<times> string) list \<Rightarrow> (string \<Rightarrow> string + (string + byte list option) list) option"
  wo_create_producer :: "(string \<times> string) list \<Rightarrow> string + 'k"
  wo_init_transactions :: "'k \<Rightarrow> pres \<times> 'k"
  wo_client :: "'k rdkafka"
  wo_codec :: avro
  wo_connect_replication :: "ReplicationConfig \<Rightarrow> string + recv list"

text \<open>How \<open>main\<close> ends: with the error of the first step, by a panic of an \<open>expect\<close>, or after streaming.\<close>

datatype 'p main_exit = Refused string | MainPanicked | Streamed "'p wal" wal_exit

definition producer_main :: "platform \<Rightarrow> ('d, 'a, 'k) world \<Rightarrow> ProducerConfig \<Rightarrow> 'k main_exit \<times> 'a option" where
  "producer_main P w own_config =
     (case fst (configure_replica_identity (wo_connect_source w) (wo_source w) (pc_postgres own_config)
              (pc_will_connect_to_feldera own_config)) of
        Inl e \<Rightarrow> (Refused e, None)
      | Inr db_names \<Rightarrow>
          (case wo_connect_admin w (kc_brokers (pc_kafka own_config)) of
             Inl e \<Rightarrow> (MainPanicked, None)
           | Inr a \<Rightarrow>
               (case check_topics (wo_admin w) (pc_kafka own_config) db_names a of
                  (Inl e, a') \<Rightarrow> (MainPanicked, Some a')
                | (Inr _, a') \<Rightarrow>
                    (case wo_create_consumer w (lsn_consumer_settings (pc_kafka own_config)) of
                       None \<Rightarrow> (MainPanicked, Some a')
                     | Some subscribe \<Rightarrow>
                         (case read_lsn subscribe (pc_kafka own_config) of
                            Inl e \<Rightarrow> (MainPanicked, Some a')
                          | Inr lsn \<Rightarrow>
                              (case kafka_producer_new (wo_create_producer w) (wo_init_transactions w)
                                      (pc_kafka own_config) of
                                 Inl e \<Rightarrow> (MainPanicked, Some a')
                               | Inr (self, k) \<Rightarrow>
                                   (let (st, ex) = start_wal_input P (wo_connect_replication w)
                                          (kafka_producer self (wo_codec w) (wo_client w)) (pc_postgres own_config) lsn k
                                    in (case ex of
                                          WalError e \<Rightarrow> (MainPanicked, Some a')
                                        | Panicked \<Rightarrow> (MainPanicked, Some a')
                                        | _ \<Rightarrow> (Streamed st ex, Some a')))))))))"

subsection \<open>What the set-up does\<close>

text \<open>The statements a source client is asked to run, recorded by a wrapper around any client.\<close>

definition logged :: "'d source_client \<Rightarrow> ('d \<times> string list) source_client" where
  "logged clt =
     \<lparr>d_published_tables = (\<lambda>ps (d, l). let (r, d') = d_published_tables clt ps d in (r, (d', l))),
      d_execute = (\<lambda>s (d, l). let (r, d') = d_execute clt s d in (r, (d', l @ [s])))\<rparr>"

definition row_topic :: "string \<times> string \<Rightarrow> DbTopic" where
  "row_topic r = \<lparr>db_name = snd r, db_namespace = fst r\<rparr>"

definition row_statement :: "string \<Rightarrow> string \<times> string \<Rightarrow> string" where
  "row_statement identity r = alter_statement (fst r) (snd r) identity"

lemma set_identities_logged:
  assumes "set_identities (logged clt) identity rows result (d, l) = (r, (d', l'))"
  shows "case r of
      Inr topics \<Rightarrow> l' = l @ map (row_statement identity) rows \<and> topics = result @ map row_topic rows
    | Inl e \<Rightarrow> \<exists>k. k < length rows \<and> l' = l @ map (row_statement identity) (take (Suc k) rows)"
  using assms
proof (induction rows arbitrary: result d l)
  case Nil
  then show ?case by auto
next
  case (Cons row rows)
  obtain schema table where row: "row = (schema, table)" by (cases row)
  obtain q d1 where q: "d_execute clt (alter_statement schema table identity) d = (q, d1)" by fastforce
  let ?s = "alter_statement schema table identity"
  show ?case
  proof (cases q)
    case (Inl e)
    then have "r = Inl e" "l' = l @ [?s]" using Cons.prems by (simp_all add: row logged_def q)
    then show ?thesis by (auto simp: row row_statement_def intro!: exI [of _ 0])
  next
    case (Inr u)
    have "set_identities (logged clt) identity rows (result @ [\<lparr>db_name = table, db_namespace = schema\<rparr>]) (d1, l @ [?s]) =
        (r, (d', l'))"
      using Cons.prems by (simp add: row logged_def q Inr)
    from Cons.IH [OF this] show ?thesis
      by (cases r) (auto simp: row row_statement_def row_topic_def intro: exI [of _ "Suc _"])
  qed
qed

text \<open>The producer's main runs only when each step before the streaming has succeeded.\<close>

lemma producer_main_steps:
  assumes "producer_main P w own_config = (Streamed st ex, a')"
  obtains db_names a a1 subscribe lsn self k where
    "fst (configure_replica_identity (wo_connect_source w) (wo_source w) (pc_postgres own_config)
       (pc_will_connect_to_feldera own_config)) = Inr db_names"
    "check_topics (wo_admin w) (pc_kafka own_config) db_names a = (Inr (), a1)" "a' = Some a1"
    "wo_create_consumer w (lsn_consumer_settings (pc_kafka own_config)) = Some subscribe"
    "read_lsn subscribe (pc_kafka own_config) = Inr lsn"
    "kafka_producer_new (wo_create_producer w) (wo_init_transactions w) (pc_kafka own_config) = Inr (self, k)"
    "start_wal_input P (wo_connect_replication w) (kafka_producer self (wo_codec w) (wo_client w))
       (pc_postgres own_config) lsn k = (st, ex)"
  using assms
  by (auto simp: producer_main_def Let_def split: sum.splits option.splits prod.splits wal_exit.splits)

lemma kafka_producer_new_fields:
  "kafka_producer_new create ini config = Inr (self, k) \<Longrightarrow> self = kafka_producer_fields config"
  by (auto simp: kafka_producer_new_def split: sum.splits prod.splits)

subsection \<open>Stopping and starting again\<close>

text \<open>
  \<open>init_transactions\<close> of a new producer with the same transactional id aborts what its predecessor left
  open.
\<close>

definition broker_init :: "broker \<Rightarrow> pres \<times> broker" where
  "broker_init b = (Inr (), b\<lparr>b_open := False, b_pending := []\<rparr>)"

text \<open>A session that streams whole transactions and is then cut off inside another one.\<close>

definition session :: "transaction list \<Rightarrow> (u64 \<times> byte list) list \<Rightarrow> recv list" where
  "session txs ms =
     map Event (concat (map tx_events txs)) @ map Event (Begin 0 0 0 # map (\<lambda>(w, d). XLogData w d) ms) @ [Closed]"

lemma cut_session:
  assumes "\<not> b_open b"
    and "stream_contents P Map.empty txs = Some (iss, rels1)" and "\<forall>items\<in>set iss. \<forall>i\<in>set items. encodable codec i"
    and "tx_items P rels1 (map snd ms) = Some (items, rels2)"
  shows "\<exists>st. wal_loop P (kafka_producer self codec (broker_client False)) (initial_wal b) (session txs ms) = (st, Finished) \<and>
    b_batches (w_producer st) = b_batches b @
      map2 (\<lambda>tx items. map (item_record self codec) items @ [lsn_record self (tx_end_lsn tx)]) txs iss"
proof -
  let ?ops = "kafka_producer self codec (broker_client False)"
  obtain st1 where st1: "wal_steps P ?ops (initial_wal b) (concat (map tx_events txs)) = Some st1"
    "\<not> currently_in_transaction st1" "\<not> b_open (w_producer st1)" "relation_map st1 = rels1"
    "b_batches (w_producer st1) = b_batches b @
      map2 (\<lambda>tx items. map (item_record self codec) items @ [lsn_record self (tx_end_lsn tx)]) txs iss"
    using steady.reliable_stream [where st = "initial_wal b" and self = self and codec = codec, of P txs iss rels1] assms(1-3)
    unfolding steady.idle_def by (auto simp: initial_wal_def)
  have "tx_items P (relation_map st1) (map snd ms) = Some (items, rels2)" using assms(4) st1(4) by simp
  from broker.kafka.interrupted_transaction [OF st1(2,3) this, where self = self and codec = codec and
      faulty = False and final = 0 and x = 0 and t = 0] obtain st where
    "wal_loop P ?ops st1 (map Event (Begin 0 0 0 # map (\<lambda>(w, d). XLogData w d) ms) @ [Closed]) = (st, Finished)"
    "b_batches (w_producer st) = b_batches (w_producer st1)"
    by blast
  then show ?thesis unfolding session_def wal_loop_steps [OF st1(1)] using st1(5) by metis
qed

text \<open>The LSN records of the log, whatever the items between them.\<close>

abbreviation tx_batch :: "KafkaProducer \<Rightarrow> avro \<Rightarrow> u64 \<Rightarrow> item list \<Rightarrow> FutureRecord list" where
  "tx_batch self codec lsn items \<equiv> map (item_record self codec) items @ [lsn_record self lsn]"

lemma lsn_messages:
  assumes "length iss = length lsns"
  shows "topic_messages (map2 (tx_batch (kafka_producer_fields config) codec) lsns iss) (lsn_topic (kc_topic config)) =
    map (\<lambda>l. Inr (Some (to_be_bytes l))) lsns"
  using lsn_messages_of_stream
    [of iss "map (\<lambda>l. \<lparr>tx_xid = 0, tx_time = 0, tx_messages = [], tx_lsn = 0, tx_end_lsn = l\<rparr>) lsns" config codec]
    assms
  by (simp add: zip_map1 comp_def case_prod_unfold)

lemma map2_tx_batch:
  "map2 (\<lambda>tx items. tx_batch self codec (tx_end_lsn tx) items) txs iss =
   map2 (tx_batch self codec) (map tx_end_lsn txs) iss"
  by (simp add: zip_map1 comp_def case_prod_unfold)

lemma read_lsn_of_batches:
  assumes "length iss = length lsns"
  shows "read_lsn (\<lambda>topic. Inr (topic_messages
      (map2 (tx_batch (kafka_producer_fields config) codec) lsns iss) topic)) config = Inr (last (0 # lsns))"
  using lsn_messages [OF assms, of config codec] read_lsn_loop_payloads [of 0 lsns]
  by (simp add: read_lsn_def lsn_topic_def)

text \<open>The connection to a server that streams, from an LSN on, the transactions of \<open>server\<close>.\<close>

definition serving :: "(u64 \<Rightarrow> transaction list) \<Rightarrow> ReplicationConfig \<Rightarrow> string + recv list" where
  "serving server rc = Inr (map Event (concat (map tx_events (server (rc_start_lsn rc)))) @ [Closed])"

subsection \<open>Properties\<close>

text \<open>
  C11: the set-up of the source follows the publication.  For every database client, the published tables
  are altered one by one in the order of the query, to \<open>FULL\<close> or \<open>DEFAULT\<close> by the configuration, and
  the topics returned are those of the tables; the first failing statement ends the set-up with its
  error, after which none is run.
\<close>

theorem identities_follow_publication:
  assumes "configure_replica_identity (\<lambda>_. Inr (d, [])) (logged clt) config full = (r, Some (d', log))"
  shows "case fst (d_published_tables clt [pg_publication config] d) of
      Inl e \<Rightarrow> r = Inl e \<and> log = []
    | Inr rows \<Rightarrow>
        (let stmts = map (row_statement (if full then ''FULL'' else ''DEFAULT'')) rows
         in case r of
              Inr topics \<Rightarrow> log = stmts \<and> topics = map row_topic rows
            | Inl e \<Rightarrow> \<exists>k < length rows. log = take (Suc k) stmts)"
proof -
  obtain q d1 where q: "d_published_tables clt [pg_publication config] d = (q, d1)" by fastforce
  show ?thesis
  proof (cases q)
    case (Inl e)
    then show ?thesis
      using assms q by (simp add: configure_replica_identity_def logged_def Let_def)
  next
    case (Inr rows)
    then have "d_published_tables (logged clt) [pg_publication config] (d, []) = (Inr rows, (d1, []))"
      by (simp add: logged_def q)
    then have "set_identities (logged clt) (if full then ''FULL'' else ''DEFAULT'') rows [] (d1, []) = (r, (d', log))"
      using assms by (auto simp: configure_replica_identity_def Let_def split: prod.splits)
    from set_identities_logged [OF this] show ?thesis
      by (cases r) (auto simp: q Inr Let_def take_map)
  qed
qed

text \<open>A database with two published tables that refuses to alter the one named \<open>locked\<close>.\<close>

definition two_tables :: "unit source_client" where
  "two_tables =
     \<lparr>d_published_tables = (\<lambda>ps d. (Inr [(''public'', ''users''), (''public'', ''locked'')], d)),
      d_execute = (\<lambda>s d. (if s = alter_statement ''public'' ''locked'' ''FULL'' then Inl ''locked'' else Inr 0, d))\<rparr>"

definition sample_postgres :: PostgresConfig where
  "sample_postgres =
     \<lparr>pg_host = ''db'', pg_user = ''u'', pg_password = ''p'', pg_slotname = ''slot'', pg_dbname = ''shop'',
      pg_publication = ''pub'', pg_port = default_port\<rparr>"

theorem identities_follow_publication_witness:
  "\<exists>k < 2. snd (configure_replica_identity (\<lambda>_. Inr ((), [])) (logged two_tables) sample_postgres True) =
     Some ((), take (Suc k) [alter_statement ''public'' ''users'' ''FULL'', alter_statement ''public'' ''locked'' ''FULL''])"
proof -
  have l: "logged two_tables =
     \<lparr>d_published_tables = (\<lambda>ps (d, l). (Inr [(''public'', ''users''), (''public'', ''locked'')], (d, l))),
      d_execute = (\<lambda>s (d, l).
        (if s = alter_statement ''public'' ''locked'' ''FULL'' then Inl ''locked'' else Inr 0, (d, l @ [s])))\<rparr>"
    by (simp add: logged_def two_tables_def)
  obtain log where run: "configure_replica_identity (\<lambda>_. Inr ((), [])) (logged two_tables) sample_postgres True =
      (Inl ''locked'', Some ((), log))"
    by (simp add: configure_replica_identity_def l Let_def alter_statement_def)
  from identities_follow_publication [OF run] run show ?thesis
    by (simp add: two_tables_def row_statement_def numeral_2_eq_2)
qed


text \<open>
  The server of the example stream: asked for what follows the first transaction, it announces the table
  again, as PostgreSQL does in a new session.
\<close>

definition resumed_stream :: "transaction list" where
  "resumed_stream =
     [\<lparr>tx_xid = 2, tx_time = 0, tx_messages = [(189, counters_message), (190, insert_message 2)],
       tx_lsn = 200, tx_end_lsn = 201\<rparr>]"

definition example_server :: "u64 \<Rightarrow> transaction list" where
  "example_server lsn = (if lsn = 0 then example_stream else if lsn = 101 then resumed_stream else [])"

lemma resumed_contents:
  "stream_contents x86_platform Map.empty resumed_stream =
     Some ([[RelationItem counters_rel, EventItem counters_rel (insert_event 2)]], [7 \<mapsto> counters_rel_data])"
  by (simp add: resumed_stream_def tx_contents_def message_items_example)



text \<open>A world in which the example stream is served to a fresh installation.\<close>

definition sample_world :: "(unit, string list, broker) world" where
  "sample_world =
     \<lparr>wo_connect_source = (\<lambda>_. Inr ()), wo_source = two_tables, wo_connect_admin = (\<lambda>_. Inr []),
      wo_admin = registry_admin [], wo_create_consumer = (\<lambda>_. Some (\<lambda>topic. Inr (topic_messages [] topic))),
      wo_create_producer = (\<lambda>_. Inr (empty_broker [])), wo_init_transactions = broker_init,
      wo_client = broker_client False, wo_codec = sample_codec,
      wo_connect_replication = (\<lambda>rc. Inr [Closed])\<rparr>"

definition sample_producer_config :: ProducerConfig where
  "sample_producer_config =
     \<lparr>pc_postgres = sample_postgres, pc_kafka = sample_config, pc_metrics = metrics_config_default,
      pc_will_connect_to_feldera = False\<rparr>"


end
