(* ===== verification/Sink.thy ===== *)
theory Sink imports Kafka_Producer begin

text \<open>
  \<open>cdc-sink/src/lib.rs\<close>: the consumer side that both connectors share: the table names, the loading of
  the relations at start, and the loop that dispatches Kafka messages to a \<open>KafkaSink\<close>.  The Kafka
  consumer and the Avro deserializer are parameters.  The trait's contract is a locale; the lemmas about
  the loop are proved in it.
\<close>

subsection \<open>Configuration\<close>

definition default_group :: string where
  "default_group = ''default''"

definition sink_default_topic :: string where
  "sink_default_topic = ''cdc''"

definition default_metrics_config :: u16 where
  "default_metrics_config = 9000"

record SinkKafkaConfig =
  sk_brokers :: string
  sk_topic :: string
  sk_groupid :: string

definition consumer_settings :: "SinkKafkaConfig \<Rightarrow> (string \<times> string) list" where
  "consumer_settings self =
     [(''group.id'', sk_groupid self),
      (''bootstrap.servers'', sk_brokers self),
      (''enable.partition.eof'', ''false''),
      (''session.timeout.ms'', ''6000''),
      (''isolation.level'', ''read_committed''),
      (''auto.offset.reset'', ''earliest'')]"

subsection \<open>Table names\<close>

type_synonym TableNames = "u32 \<rightharpoonup> string"

definition table_names_new :: TableNames where
  "table_names_new = Map.empty"

definition table_names_from_rels :: "(u32 \<rightharpoonup> Relation) \<Rightarrow> TableNames" where
  "table_names_from_rels rels = (\<lambda>i. map_option r_name (rels i))"

definition table_names_insert :: "TableNames \<Rightarrow> u32 \<Rightarrow> string \<Rightarrow> TableNames" where
  "table_names_insert self rel_oid value = self(rel_oid \<mapsto> value)"

definition table_names_get :: "TableNames \<Rightarrow> u32 \<Rightarrow> string option" where
  "table_names_get self rel_oid = self rel_oid"

subsection \<open>The sink\<close>

datatype SinkError =
    UnknownRelation u32
  | Platform string
  | ToastedInKeyOnly

type_synonym sres = "(SinkError, unit) outcome"

text \<open>The trait \<open>KafkaSink\<close>, on a state of the implementor.\<close>

record 's sink =
  s_on_event :: "ChangeEvent \<Rightarrow> 's \<Rightarrow> sres \<times> 's"
  s_on_relation :: "Relation \<Rightarrow> 's \<Rightarrow> sres \<times> 's"

record avro_reader =
  from_avro_event :: "byte list \<Rightarrow> string + ChangeEvent"
  from_avro_relation :: "byte list \<Rightarrow> string + Relation"

subsection \<open>Loading the relations\<close>

text \<open>
  The consumer's metadata lists, for each topic of the answer, its partition ids; a partition list
  entry is a topic with a partition, to be read from the beginning.
\<close>

record consumer =
  c_fetch_metadata :: "string \<Rightarrow> string + int list list"
  c_add_partition_offset :: "(string \<times> int) list \<Rightarrow> string \<Rightarrow> int \<Rightarrow> string + (string \<times> int) list"
  c_assign :: "(string \<times> int) list \<Rightarrow> string + unit"

fun add_partitions :: "consumer \<Rightarrow> string \<Rightarrow> int list \<Rightarrow> (string \<times> int) list \<Rightarrow> string + (string \<times> int) list" where
  "add_partitions c topic [] tpl = Inr tpl"
| "add_partitions c topic (p # ps) tpl =
     (case c_add_partition_offset c tpl topic p of
        Inl e \<Rightarrow> Inl e
      | Inr tpl' \<Rightarrow> add_partitions c topic ps tpl')"

definition reset_committed_offsets_and_assign :: "consumer \<Rightarrow> string \<Rightarrow> string + unit" where
  "reset_committed_offsets_and_assign c topic =
     (case c_fetch_metadata c topic of
        Inl e \<Rightarrow> Inl e
      | Inr [] \<Rightarrow> Inl (''topic '' @ topic @ '' not found'')
      | Inr (partitions # _) \<Rightarrow>
          (case add_partitions c topic partitions [] of
             Inl e \<Rightarrow> Inl e
           | Inr tpl \<Rightarrow> c_assign c tpl))"

text \<open>
  What the stream yields, each with the milliseconds elapsed when the loop's condition is evaluated: an
  error or a message with its payload.  The end of the list is the end of the stream or the timeout.
\<close>

fun load_relations_loop :: "avro_reader \<Rightarrow> (nat \<times> (string + byte list option)) list \<Rightarrow>
    (u32 \<rightharpoonup> Relation) \<Rightarrow> string + (u32 \<rightharpoonup> Relation)" where
  "load_relations_loop codec [] relations = Inr relations"
| "load_relations_loop codec ((elapsed, msg) # ms) relations =
     (if elapsed < 5000
      then (case msg of
              Inl e \<Rightarrow> Inl e
            | Inr None \<Rightarrow> load_relations_loop codec ms relations
            | Inr (Some payload) \<Rightarrow>
                (case from_avro_relation codec payload of
                   Inr rel \<Rightarrow> load_relations_loop codec ms (relations(relation_oid rel \<mapsto> rel))
                 | Inl e \<Rightarrow> load_relations_loop codec ms relations))
      else Inr relations)"

definition load_relations :: "avro_reader \<Rightarrow> consumer \<Rightarrow> string \<Rightarrow> (nat \<times> (string + byte list option)) list \<Rightarrow>
    string + (u32 \<rightharpoonup> Relation)" where
  "load_relations codec c topic ms =
     (case reset_committed_offsets_and_assign c (topic @ ''.relations'') of
        Inl e \<Rightarrow> Inl e
      | Inr _ \<Rightarrow> load_relations_loop codec ms Map.empty)"

subsection \<open>Consuming\<close>

record message =
  m_topic :: string
  m_partition :: int
  m_offset :: int
  m_payload :: "byte list option"

text \<open>
  The state of the loop: the sink's, the messages whose offsets the loop asked the consumer to commit
  (whether or not the consumer could), and the counter \<open>cdc_events_consumed_total\<close> per operation and
  relation.  The lag gauge and the duration histogram are left out.
\<close>

record 's consuming =
  sink_state :: 's
  commits :: "message list"
  consumed :: "(string \<times> u32) list"

definition strip_prefix :: "string \<Rightarrow> string \<Rightarrow> string option" where
  "strip_prefix pre s = (if take (length pre) s = pre then Some (drop (length pre) s) else None)"

definition starts_with :: "string \<Rightarrow> string \<Rightarrow> bool" where
  "starts_with pre s \<longleftrightarrow> take (length pre) s = pre"

definition subscription :: "string \<Rightarrow> string list" where
  "subscription topic =
     [''^'' @ topic @ [CHR 0x5C] @ ''.events'' @ [CHR 0x5C] @ ''..*'', topic @ ''.relations'']"

definition consume_event :: "'s sink \<Rightarrow> message \<Rightarrow> ChangeEvent \<Rightarrow> 's consuming \<Rightarrow> 's consuming option" where
  "consume_event ops m event st =
     (let (r, s) = s_on_event ops event (sink_state st);
          st' = st\<lparr>sink_state := s, consumed := consumed st @ [(op_str (ev_op event), ev_rel event)]\<rparr>
      in case r of
           Panic \<Rightarrow> None
         | Err e \<Rightarrow> Some st'
         | Ok _ \<Rightarrow> Some (st'\<lparr>commits := commits st' @ [m]\<rparr>))"

definition consume_relation :: "'s sink \<Rightarrow> Relation \<Rightarrow> 's consuming \<Rightarrow> 's consuming option" where
  "consume_relation ops relation st =
     (let (r, s) = s_on_relation ops relation (sink_state st)
      in case r of
           Panic \<Rightarrow> None
         | _ \<Rightarrow> Some (st\<lparr>sink_state := s\<rparr>))"

definition consume_message :: "avro_reader \<Rightarrow> string \<Rightarrow> 's sink \<Rightarrow> message \<Rightarrow> 's consuming \<Rightarrow> 's consuming option" where
  "consume_message codec self_topic ops m st =
     (case m_payload m of
        None \<Rightarrow> Some st
      | Some view \<Rightarrow>
          (case strip_prefix self_topic (m_topic m) of
             None \<Rightarrow> Some st
           | Some topic \<Rightarrow>
               (if starts_with ''.event'' topic
                then (case from_avro_event codec view of
                        Inr event \<Rightarrow> consume_event ops m event st
                      | Inl e \<Rightarrow> Some st)
                else if topic = ''.relations''
                then (case from_avro_relation codec view of
                        Inr relation \<Rightarrow> consume_relation ops relation st
                      | Inl e \<Rightarrow> Some st)
                else Some st)))"

text \<open>The loop over the stream; \<open>None\<close>: the thread panics.\<close>

fun consume_from_kafka :: "avro_reader \<Rightarrow> string \<Rightarrow> 's sink \<Rightarrow> (string + message) list \<Rightarrow> 's consuming \<Rightarrow>
    's consuming option" where
  "consume_from_kafka codec self_topic ops [] st = Some st"
| "consume_from_kafka codec self_topic ops (Inl e # rs) st = consume_from_kafka codec self_topic ops rs st"
| "consume_from_kafka codec self_topic ops (Inr m # rs) st =
     (case consume_message codec self_topic ops m st of
        None \<Rightarrow> None
      | Some st' \<Rightarrow> consume_from_kafka codec self_topic ops rs st')"

definition initial_consuming :: "'s \<Rightarrow> 's consuming" where
  "initial_consuming s = \<lparr>sink_state = s, commits = [], consumed = []\<rparr>"

subsection \<open>Dispatch\<close>

lemma strip_prefix_append [simp]: "strip_prefix t (t @ s) = Some s"
  by (simp add: strip_prefix_def)

lemma strip_event_topic:
  "\<exists>s. strip_prefix t (event_topic t ns n) = Some s \<and> starts_with ''.event'' s"
  by (simp add: event_topic_def starts_with_def)

text \<open>What the loop does with a message from each of the producer's topics.\<close>

lemma consume_event_topic:
  assumes "m_topic m = event_topic t ns n" and "m_payload m = Some view"
  shows "consume_message codec t ops m st =
    (case from_avro_event codec view of
       Inr event \<Rightarrow> consume_event ops m event st
     | Inl e \<Rightarrow> Some st)"
proof -
  obtain s where "strip_prefix t (event_topic t ns n) = Some s" "starts_with ''.event'' s"
    using strip_event_topic by blast
  then show ?thesis using assms by (simp add: consume_message_def)
qed

lemma consume_relations_topic:
  assumes "m_topic m = relations_topic t" and "m_payload m = Some view"
  shows "consume_message codec t ops m st =
    (case from_avro_relation codec view of
       Inr relation \<Rightarrow> consume_relation ops relation st
     | Inl e \<Rightarrow> Some st)"
  using assms by (simp add: consume_message_def relations_topic_def starts_with_def)

lemma consume_lsn_topic: "m_topic m = lsn_topic t \<Longrightarrow> consume_message codec t ops m st = Some st"
  by (simp add: consume_message_def lsn_topic_def starts_with_def split: option.split)

text \<open>The specification: the items applied to the sink in order.\<close>

definition apply_item :: "'s sink \<Rightarrow> item \<Rightarrow> 's \<Rightarrow> sres \<times> 's" where
  "apply_item ops i s =
     (case i of EventItem rel ev \<Rightarrow> s_on_event ops ev s | RelationItem rel \<Rightarrow> s_on_relation ops rel s)"

fun apply_items :: "'s sink \<Rightarrow> item list \<Rightarrow> 's \<Rightarrow> 's option" where
  "apply_items ops [] s = Some s"
| "apply_items ops (i # is) s =
     (case apply_item ops i s of
        (Panic, _) \<Rightarrow> None
      | (_, s') \<Rightarrow> apply_items ops is s')"

text \<open>The reader inverts the writer on an item.\<close>

definition decodes :: "avro \<Rightarrow> avro_reader \<Rightarrow> item \<Rightarrow> bool" where
  "decodes w r i =
     (case i of
        EventItem rel ev \<Rightarrow> (\<exists>b. into_avro_event w ev = Inr b \<and> from_avro_event r b = Inr ev)
      | RelationItem rel \<Rightarrow> (\<exists>b. into_avro_relation w rel = Inr b \<and> from_avro_relation r b = Inr rel))"

lemma decodes_encodable: "decodes w r i \<Longrightarrow> encodable w i"
  by (cases i) (auto simp: decodes_def encodable_def)

text \<open>A message that carries a record, at some place of its topic.\<close>

definition carries :: "message \<Rightarrow> FutureRecord \<Rightarrow> bool" where
  "carries m r \<longleftrightarrow> m_topic m = fr_topic r \<and> m_payload m = Some (fr_payload r)"

lemma consume_item:
  assumes "carries m (item_record (kafka_producer_fields config) w i)" and "decodes w r i"
  shows "map_option sink_state (consume_message r (kc_topic config) ops m st) =
    (case apply_item ops i (sink_state st) of (Panic, _) \<Rightarrow> None | (_, s') \<Rightarrow> Some s')"
proof (cases i)
  case (EventItem rel ev)
  then obtain b where "into_avro_event w ev = Inr b" "from_avro_event r b = Inr ev"
    using assms(2) by (auto simp: decodes_def)
  then show ?thesis
    using assms(1) EventItem
      consume_event_topic [of m "kc_topic config" "r_namespace rel" "r_name rel" b r ops st]
    by (auto simp: carries_def item_record_def kafka_producer_fields_def apply_item_def consume_event_def
        Let_def split: outcome.splits prod.splits)
next
  case (RelationItem rel)
  then obtain b where "into_avro_relation w rel = Inr b" "from_avro_relation r b = Inr rel"
    using assms(2) by (auto simp: decodes_def)
  then show ?thesis
    using assms(1) RelationItem consume_relations_topic [of m "kc_topic config" b r ops st]
    by (auto simp: carries_def item_record_def kafka_producer_fields_def apply_item_def consume_relation_def
        Let_def relations_topic_def split: outcome.splits prod.splits)
qed

lemma consume_append:
  "consume_from_kafka codec t ops (xs @ ys) st =
     (case consume_from_kafka codec t ops xs st of
        None \<Rightarrow> None
      | Some st' \<Rightarrow> consume_from_kafka codec t ops ys st')"
  by (induction codec t ops xs st rule: consume_from_kafka.induct) (auto split: option.splits)

lemma consume_items:
  assumes "list_all2 carries ms (map (item_record (kafka_producer_fields config) w) is)"
    and "\<forall>i\<in>set is. decodes w r i"
  shows "map_option sink_state (consume_from_kafka r (kc_topic config) ops (map Inr ms) st) =
    apply_items ops is (sink_state st)"
  using assms
proof (induction "is" arbitrary: ms st)
  case Nil
  then show ?case by simp
next
  case (Cons i "is")
  from Cons.prems(1) obtain m ms' where ms: "ms = m # ms'"
    "carries m (item_record (kafka_producer_fields config) w i)"
    "list_all2 carries ms' (map (item_record (kafka_producer_fields config) w) is)"
    by (auto simp: list_all2_Cons2)
  have step: "map_option sink_state (consume_message r (kc_topic config) ops m st) =
    (case apply_item ops i (sink_state st) of (Panic, _) \<Rightarrow> None | (_, s') \<Rightarrow> Some s')"
    using consume_item [OF ms(2), of r ops st] Cons.prems(2) by simp
  show ?case
  proof (cases "consume_message r (kc_topic config) ops m st")
    case None
    then show ?thesis using step by (auto simp: ms split: outcome.splits prod.splits)
  next
    case (Some st')
    then have "map_option sink_state (consume_from_kafka r (kc_topic config) ops (map Inr ms') st') =
        apply_items ops is (sink_state st')"
      using Cons.IH [OF ms(3)] Cons.prems(2) by simp
    then show ?thesis using step Some by (auto simp: ms split: outcome.splits prod.splits)
  qed
qed

text \<open>A batch of the producer: its items, then the LSN record, which the loop passes over.\<close>

lemma consume_batch:
  assumes "list_all2 carries ms
      (map (item_record (kafka_producer_fields config) w) is @ [lsn_record (kafka_producer_fields config) lsn])"
    and "\<forall>i\<in>set is. decodes w r i"
  shows "map_option sink_state (consume_from_kafka r (kc_topic config) ops (map Inr ms) st) =
    apply_items ops is (sink_state st)"
proof -
  obtain ms' m where ms: "ms = ms' @ [m]" "carries m (lsn_record (kafka_producer_fields config) lsn)"
    "list_all2 carries ms' (map (item_record (kafka_producer_fields config) w) is)"
    using assms(1) by (auto simp: list_all2_append2 list_all2_Cons2)
  have "consume_message r (kc_topic config) ops m st' = Some st'" for st' :: "'a consuming"
    using ms(2) by (intro consume_lsn_topic) (simp add: carries_def lsn_record_topic)
  then show ?thesis
    using consume_items [OF ms(3) assms(2), of ops st]
    by (auto simp: ms(1) consume_append split: option.splits)
qed

lemma apply_items_append:
  "apply_items ops (xs @ ys) s =
     (case apply_items ops xs s of None \<Rightarrow> None | Some s' \<Rightarrow> apply_items ops ys s')"
  by (induction ops xs s rule: apply_items.induct) (auto split: option.splits outcome.splits prod.splits)

lemma consume_batches:
  assumes "length iss = length lsns"
    and "list_all2 carries ms (concat (map2 (\<lambda>lsn is. map (item_record (kafka_producer_fields config) w) is @
      [lsn_record (kafka_producer_fields config) lsn]) lsns iss))"
    and "\<forall>is\<in>set iss. \<forall>i\<in>set is. decodes w r i"
  shows "map_option sink_state (consume_from_kafka r (kc_topic config) ops (map Inr ms) st) =
    apply_items ops (concat iss) (sink_state st)"
  using assms
proof (induction iss lsns arbitrary: ms st rule: list_induct2)
  case Nil
  then show ?case by simp
next
  case (Cons "is" iss lsn lsns)
  let ?self = "kafka_producer_fields config"
  from Cons.prems(1) obtain ms1 ms2 where ms: "ms = ms1 @ ms2"
    "list_all2 carries ms1 (map (item_record ?self w) is @ [lsn_record ?self lsn])"
    "list_all2 carries ms2 (concat (map2 (\<lambda>lsn is. map (item_record ?self w) is @ [lsn_record ?self lsn]) lsns iss))"
    by (simp only: zip_Cons_Cons list.map prod.case concat.simps list_all2_append2) blast
  have one: "map_option sink_state (consume_from_kafka r (kc_topic config) ops (map Inr ms1) st) =
      apply_items ops is (sink_state st)"
    using consume_batch [OF ms(2), of r ops st] Cons.prems(2) by simp
  show ?case
  proof (cases "consume_from_kafka r (kc_topic config) ops (map Inr ms1) st")
    case None
    then show ?thesis using one by (simp add: ms(1) consume_append apply_items_append)
  next
    case (Some st')
    then show ?thesis
      using one Cons.IH [OF ms(3)] Cons.prems(2)
      by (simp add: ms(1) consume_append apply_items_append) (metis option.simps(5))
  qed
qed

subsection \<open>Commits\<close>

text \<open>A message is committed exactly when it carries an event and the sink applied it.\<close>

definition applied_event :: "avro_reader \<Rightarrow> string \<Rightarrow> 's sink \<Rightarrow> message \<Rightarrow> 's \<Rightarrow> bool" where
  "applied_event codec t ops m s \<longleftrightarrow>
     (\<exists>view topic event. m_payload m = Some view \<and> strip_prefix t (m_topic m) = Some topic \<and>
        starts_with ''.event'' topic \<and> from_avro_event codec view = Inr event \<and>
        fst (s_on_event ops event s) = Ok ())"

lemma consume_message_commits:
  assumes "consume_message codec t ops m st = Some st'"
  shows "commits st' = commits st @ (if applied_event codec t ops m (sink_state st) then [m] else [])"
proof (cases "m_payload m")
  case None
  then show ?thesis using assms by (simp add: consume_message_def applied_event_def)
next
  case payload: (Some view)
  show ?thesis
  proof (cases "strip_prefix t (m_topic m)")
    case None
    then show ?thesis using assms by (simp add: consume_message_def applied_event_def payload)
  next
    case (Some topic)
    then show ?thesis
      using assms
      by (auto simp: consume_message_def applied_event_def payload consume_event_def consume_relation_def
          Let_def split_beta split: sum.splits outcome.splits if_splits)
  qed
qed

text \<open>The offset a restarted consumer begins at in a partition: one past the highest committed one.\<close>

definition resume_offset :: "message list \<Rightarrow> string \<Rightarrow> int \<Rightarrow> int" where
  "resume_offset ms t p =
     fold (\<lambda>m acc. if m_topic m = t \<and> m_partition m = p then max acc (m_offset m + 1) else acc) ms 0"

lemma resume_offset_snoc:
  "resume_offset (ms @ [m]) t p =
     (if m_topic m = t \<and> m_partition m = p then max (resume_offset ms t p) (m_offset m + 1)
      else resume_offset ms t p)"
  by (simp add: resume_offset_def)

subsection \<open>The contract\<close>

text \<open>
  A sink keeps an invariant \<open>ready\<close> and learns the relations it is told; it does not panic on an
  event that is \<open>safe\<close>, and calls a relation unknown only if it has not been told it.
\<close>

locale kafka_sink =
  fixes ops :: "'s sink"
    and ready :: "'s \<Rightarrow> bool"
    and known :: "'s \<Rightarrow> u32 set"
    and safe :: "ChangeEvent \<Rightarrow> bool"
  assumes on_relation: "ready s \<Longrightarrow> s_on_relation ops rel s = (r, s') \<Longrightarrow>
      r = Ok () \<and> ready s' \<and> known s' = insert (relation_oid rel) (known s)"
    and on_event: "ready s \<Longrightarrow> safe ev \<Longrightarrow> s_on_event ops ev s = (r, s') \<Longrightarrow>
      r \<noteq> Panic \<and> ready s' \<and> known s' = known s"
    and unknown: "ready s \<Longrightarrow> s_on_event ops ev s = (Err (UnknownRelation oid), s') \<Longrightarrow>
      oid = ev_rel ev \<and> oid \<notin> known s"
begin

definition safe_message :: "avro_reader \<Rightarrow> message \<Rightarrow> bool" where
  "safe_message codec m \<longleftrightarrow> (\<forall>view ev. m_payload m = Some view \<longrightarrow> from_avro_event codec view = Inr ev \<longrightarrow> safe ev)"

lemma consume_event_ready:
  assumes "ready (sink_state st)" and "safe ev"
  shows "\<exists>st'. consume_event ops m ev st = Some st' \<and> ready (sink_state st') \<and>
    known (sink_state st') = known (sink_state st)"
  using on_event [OF assms] by (auto simp: consume_event_def Let_def split: prod.splits outcome.splits)

lemma consume_relation_ready:
  assumes "ready (sink_state st)"
  shows "\<exists>st'. consume_relation ops rel st = Some st' \<and> ready (sink_state st') \<and>
    known (sink_state st') = insert (relation_oid rel) (known (sink_state st))"
  using on_relation [OF assms, of rel] by (cases "s_on_relation ops rel (sink_state st)") (simp add: consume_relation_def)

lemma consume_message_ready:
  assumes "ready (sink_state st)" and "safe_message codec m"
  shows "\<exists>st'. consume_message codec t ops m st = Some st' \<and> ready (sink_state st') \<and>
    known (sink_state st) \<subseteq> known (sink_state st')"
proof (cases "m_payload m")
  case None
  then show ?thesis using assms(1) by (simp add: consume_message_def)
next
  case (Some view)
  have "\<exists>st'. consume_event ops m ev st = Some st' \<and> ready (sink_state st') \<and>
      known (sink_state st) \<subseteq> known (sink_state st')" if "from_avro_event codec view = Inr ev" for ev
    using consume_event_ready [OF assms(1), of ev m] assms(2) that Some by (auto simp: safe_message_def)
  moreover have "\<exists>st'. consume_relation ops rel st = Some st' \<and> ready (sink_state st') \<and>
      known (sink_state st) \<subseteq> known (sink_state st')" for rel
    using consume_relation_ready [OF assms(1), of rel] by auto
  ultimately show ?thesis
    using assms(1) by (simp add: consume_message_def Some split: option.splits sum.splits)
qed

lemma consume_from_kafka_ready:
  assumes "ready (sink_state st)" and "\<forall>m\<in>set (map projr (filter (Not \<circ> isl) rs)). safe_message codec m"
  shows "\<exists>st'. consume_from_kafka codec t ops rs st = Some st' \<and> ready (sink_state st') \<and>
    known (sink_state st) \<subseteq> known (sink_state st')"
  using assms
proof (induction rs arbitrary: st)
  case Nil
  then show ?case by simp
next
  case (Cons r rs)
  show ?case
  proof (cases r)
    case (Inl e)
    then show ?thesis using Cons by simp
  next
    case (Inr m)
    then have "safe_message codec m" using Cons.prems(2) by simp
    then obtain st1 where st1: "consume_message codec t ops m st = Some st1" "ready (sink_state st1)"
      "known (sink_state st) \<subseteq> known (sink_state st1)"
      using consume_message_ready [of st codec m t] Cons.prems(1) by blast
    have "\<exists>st'. consume_from_kafka codec t ops rs st1 = Some st' \<and> ready (sink_state st') \<and>
        known (sink_state st1) \<subseteq> known (sink_state st')"
      using Cons.IH [OF st1(2)] Cons.prems(2) by (simp add: Inr)
    then show ?thesis using st1 by (auto simp: Inr)
  qed
qed

lemma known_relation_not_unknown:
  assumes "ready (sink_state st)" and "relation_oid rel \<in> known (sink_state st)"
    and "ev_rel ev = relation_oid rel"
  shows "fst (s_on_event ops ev (sink_state st)) \<noteq> Err (UnknownRelation oid)"
  using unknown [OF assms(1)] assms(2,3) by (metis prod.collapse)

end

subsection \<open>Properties\<close>

text \<open>A sink that remembers what it was told, for the witnesses: it fails on the event of relation 13.\<close>

definition noting_sink :: "item list sink" where
  "noting_sink =
     \<lparr>s_on_event = (\<lambda>ev s. if ev_rel ev = 13 then (Err (Platform ''refused''), s)
                      else (Ok (), s @ [EventItem counters_rel ev])),
      s_on_relation = (\<lambda>rel s. (Ok (), s @ [RelationItem rel]))\<rparr>"

definition sample_reader :: avro_reader where
  "sample_reader =
     \<lparr>from_avro_event = (\<lambda>b. Inr \<lparr>ev_op = Delete [], ev_rel = from_be_bytes b\<rparr>),
      from_avro_relation = (\<lambda>b. Inr (counters_rel\<lparr>relation_oid := from_be_bytes b\<rparr>))\<rparr>"

definition sample_message :: "string \<Rightarrow> u32 \<Rightarrow> int \<Rightarrow> message" where
  "sample_message topic oid offset =
     \<lparr>m_topic = topic, m_partition = 0, m_offset = offset, m_payload = Some (to_be_bytes oid)\<rparr>"

text \<open>
  C24: the loop asks for the commit of a message exactly when the message is from an event topic, its
  payload decodes to an event and the sink applied that event without error; for relation messages,
  failed events and undecodable payloads it never asks.  (What the client library commits by itself in the
  background, when it is left to, is not part of the loop.)
\<close>

theorem message_committed_iff_applied:
  assumes "consume_message codec t ops m st = Some st'"
  shows "commits st' = commits st @ (if applied_event codec t ops m (sink_state st) then [m] else [])"
  by (rule consume_message_commits [OF assms])

theorem message_committed_iff_applied_witness:
  "\<exists>st'. consume_message sample_reader ''cdc'' noting_sink (sample_message ''cdc.events.public.c'' 7 0)
      (initial_consuming []) = Some st' \<and> commits st' = [sample_message ''cdc.events.public.c'' 7 0]"
proof -
  let ?m = "sample_message ''cdc.events.public.c'' 7 0"
  obtain st' where st': "consume_message sample_reader ''cdc'' noting_sink ?m (initial_consuming []) = Some st'"
    by (simp add: consume_message_def sample_message_def strip_prefix_def starts_with_def sample_reader_def
        consume_event_def noting_sink_def initial_consuming_def)
  moreover have "applied_event sample_reader ''cdc'' noting_sink ?m []"
    by (simp add: applied_event_def sample_message_def strip_prefix_def starts_with_def sample_reader_def
        noting_sink_def)
  ultimately show ?thesis
    using message_committed_iff_applied [OF st'] by (simp add: initial_consuming_def)
qed

text \<open>
  A failed event is passed over.  When the sink refuses an event and accepts a later one of the same
  partition, the later commit moves the group's position past the refused one, which is never delivered
  again, not even after a restart.
\<close>

lemma later_commit_passes_failed_event:
  assumes "consume_message codec t ops m1 st = Some st1" and "consume_message codec t ops m2 st1 = Some st2"
    and "\<not> applied_event codec t ops m1 (sink_state st)" and "applied_event codec t ops m2 (sink_state st1)"
    and "m_topic m1 = m_topic m2" and "m_partition m1 = m_partition m2" and "m_offset m1 < m_offset m2"
  shows "commits st2 = commits st @ [m2] \<and>
    m_offset m1 < resume_offset (commits st2) (m_topic m1) (m_partition m1)"
  using consume_message_commits [OF assms(1)] consume_message_commits [OF assms(2)] assms(3-7)
  by (simp add: resume_offset_snoc)

lemma later_commit_passes_failed_event_witness:
  "\<exists>st1 st2. consume_message sample_reader ''cdc'' noting_sink (sample_message ''cdc.events.public.c'' 13 4)
      (initial_consuming []) = Some st1 \<and>
    consume_message sample_reader ''cdc'' noting_sink (sample_message ''cdc.events.public.c'' 7 5) st1 = Some st2 \<and>
    4 < resume_offset (commits st2) ''cdc.events.public.c'' 0"
proof -
  let ?m1 = "sample_message ''cdc.events.public.c'' 13 4" and ?m2 = "sample_message ''cdc.events.public.c'' 7 5"
  note run = consume_message_def sample_message_def strip_prefix_def starts_with_def sample_reader_def
    consume_event_def noting_sink_def initial_consuming_def applied_event_def
  obtain st1 where st1: "consume_message sample_reader ''cdc'' noting_sink ?m1 (initial_consuming []) = Some st1"
    "sink_state st1 = []"
    by (simp add: run)
  obtain st2 where st2: "consume_message sample_reader ''cdc'' noting_sink ?m2 st1 = Some st2"
    by (simp add: run)
  have "\<not> applied_event sample_reader ''cdc'' noting_sink ?m1 (sink_state (initial_consuming []))"
    "applied_event sample_reader ''cdc'' noting_sink ?m2 (sink_state st1)"
    by (simp_all add: run)
  from later_commit_passes_failed_event [OF st1(1) st2 this] st1(1) st2 show ?thesis
    by (auto simp: sample_message_def)
qed

text \<open>What the loop keeps of messages that arrive in time.\<close>

lemma load_relations_loop_payloads:
  assumes "\<forall>(e, p)\<in>set ms. e < 5000"
  shows "load_relations_loop codec (map (\<lambda>(e, p). (e, Inr (Some p))) ms) m =
    Inr (m ++ map_of (rev (List.map_filter
      (\<lambda>(e, p). case from_avro_relation codec p of Inr rel \<Rightarrow> Some (relation_oid rel, rel) | Inl _ \<Rightarrow> None) ms)))"
  using assms
proof (induction ms arbitrary: m)
  case Nil
  then show ?case by (simp add: List.map_filter_def)
next
  case (Cons x ms)
  then show ?case
    by (cases x) (auto simp: List.map_filter_simps map_add_assoc [symmetric] split: sum.splits)
qed

text \<open>The relation in a message, with its OID.\<close>

definition decoded_relation :: "avro_reader \<Rightarrow> nat \<times> (string + byte list option) \<Rightarrow> (u32 \<times> Relation) option" where
  "decoded_relation codec x =
     (case snd x of
        Inr (Some payload) \<Rightarrow>
          (case from_avro_relation codec payload of Inr rel \<Rightarrow> Some (relation_oid rel, rel) | Inl e \<Rightarrow> None)
      | _ \<Rightarrow> None)"

lemma load_relations_loop_eq:
  "load_relations_loop codec ms m =
     (let seen = takeWhile (\<lambda>(elapsed, _). elapsed < 5000) ms
      in case List.find (isl \<circ> snd) seen of
           Some x \<Rightarrow> Inl (projl (snd x))
         | None \<Rightarrow> Inr (m ++ map_of (rev (List.map_filter (decoded_relation codec) seen))))"
proof (induction ms arbitrary: m)
  case Nil
  then show ?case by (simp add: List.map_filter_simps)
next
  case (Cons x ms)
  obtain elapsed msg where x: "x = (elapsed, msg)"
    by (cases x) simp
  show ?case
  proof (cases "elapsed < 5000")
    case late: False
    then show ?thesis by (simp add: x List.map_filter_simps)
  next
    case early: True
    show ?thesis
    proof (cases "decoded_relation codec x")
      case None
      then show ?thesis
        using early
        by (cases msg) (auto simp: x Cons.IH Let_def decoded_relation_def List.map_filter_simps split: option.splits sum.splits)
    next
      case (Some entry)
      then obtain payload rel
        where "msg = Inr (Some payload)" "from_avro_relation codec payload = Inr rel" "entry = (relation_oid rel, rel)"
        by (auto simp: x decoded_relation_def split: option.splits sum.splits)
      with Some early show ?thesis
        by (simp add: x Cons.IH Let_def List.map_filter_simps map_add_assoc [symmetric] split: option.split)
    qed
  qed
qed

text \<open>
  C25: what \<open>load_relations\<close> returns, whatever arrives.  If the consumer cannot be set on the topic's
  beginning, that error.  Otherwise only the messages count that the loop looks at before five seconds have
  passed: the first error among them is returned; if there is none, the result maps each OID to the last
  decodable relation with that OID, messages without a payload and undecodable ones being skipped.
\<close>

theorem load_relations_keeps_latest:
  "load_relations codec c topic ms =
     (case reset_committed_offsets_and_assign c (topic @ ''.relations'') of
        Inl e \<Rightarrow> Inl e
      | Inr _ \<Rightarrow>
          (let seen = takeWhile (\<lambda>(elapsed, _). elapsed < 5000) ms
           in case List.find (isl \<circ> snd) seen of
                Some x \<Rightarrow> Inl (projl (snd x))
              | None \<Rightarrow> Inr (map_of (rev (List.map_filter (decoded_relation codec) seen)))))"
  by (simp add: load_relations_def load_relations_loop_eq Let_def cong: option.case_cong split: sum.split)

definition sample_consumer :: consumer where
  "sample_consumer =
     \<lparr>c_fetch_metadata = (\<lambda>t. Inr [[0]]), c_add_partition_offset = (\<lambda>tpl t p. Inr (tpl @ [(t, p)])),
      c_assign = (\<lambda>tpl. Inr ())\<rparr>"

text \<open>What arrives after the deadline changes nothing.\<close>

lemma load_relations_loop_deadline:
  "5000 \<le> e \<Longrightarrow> load_relations_loop codec (ms @ (e, x) # rest) m = load_relations_loop codec ms m"
  by (induction codec ms m rule: load_relations_loop.induct) (auto split: sum.splits option.splits)

text \<open>
  C27: \<open>load_relations\<close> ends, even on a topic that never falls silent.  On any unending stream of messages
  or errors (the \<open>k\<close>-th is the first the loop looks at after five seconds, and any later prefix of the
  stream will do), the result is that of the messages before the deadline; the rest is not read.
\<close>

theorem load_relations_ends_at_deadline:
  assumes "5000 \<le> fst (stream k)" and "k < n"
  shows "load_relations codec c topic (map stream [0..<n]) = load_relations codec c topic (map stream [0..<k])"
proof -
  have "[0..<n] = [0..<k] @ k # [Suc k..<n]"
    using assms(2) by (metis add_0 le_add_same_cancel1 less_imp_le upt_add_eq_append upt_conv_Cons zero_le le_Suc_ex)
  then have "map stream [0..<n] = map stream [0..<k] @ (fst (stream k), snd (stream k)) # map stream [Suc k..<n]"
    by simp
  then show ?thesis
    using load_relations_loop_deadline [OF assms(1)] by (simp only: load_relations_def split: sum.split)
qed

theorem load_relations_ends_at_deadline_witness:
  "load_relations sample_reader sample_consumer ''cdc''
     (map (\<lambda>i. (2500 * i, Inr (Some (to_be_bytes (7 :: u32))))) [0..<1000]) =
   load_relations sample_reader sample_consumer ''cdc''
     (map (\<lambda>i. (2500 * i, Inr (Some (to_be_bytes (7 :: u32))))) [0..<2])"
  by (rule load_relations_ends_at_deadline) simp_all

end
