(* ===== verification/Statements.thy ===== *)
theory Statements imports Sink begin

text \<open>
  \<open>postgres-connector/src/statements.rs\<close>: the text of the upsert and delete statements, built with
  loops that push to a string, and its shape as a specification; then the caches of prepared
  statements.  The database client is a parameter.
\<close>

subsection \<open>Joins\<close>

text \<open>The separated concatenation of the specification.\<close>

fun join :: "string \<Rightarrow> string list \<Rightarrow> string" where
  "join sep [] = []"
| "join sep [x] = x"
| "join sep (x # y # ys) = x @ sep @ join sep (y # ys)"

subsection \<open>The loops\<close>

text \<open>
  The loops over \<open>iter().enumerate()\<close>: \<open>n\<close> is the length of the whole list, \<open>i\<close> the index of the next
  element, \<open>s\<close> the string built so far.
\<close>

fun push_columns :: "nat \<Rightarrow> nat \<Rightarrow> string list \<Rightarrow> string \<Rightarrow> string" where
  "push_columns n i [] s = s"
| "push_columns n i (r # rs) s =
     (let s1 = s @ r; s2 = (if i < n - 1 then s1 @ '','' else s1) in push_columns n (i + 1) rs s2)"

fun push_placeholders :: "nat \<Rightarrow> nat list \<Rightarrow> string \<Rightarrow> string" where
  "push_placeholders n [] s = s"
| "push_placeholders n (i # is) s =
     (if i < n - 1 then push_placeholders n is (s @ ''$'' @ decimal (i + 1) @ '','')
      else push_placeholders n is (s @ ''$'' @ decimal (i + 1)))"

fun push_conflict_keys :: "nat \<Rightarrow> nat \<Rightarrow> string list \<Rightarrow> string \<Rightarrow> string" where
  "push_conflict_keys n i [] s = s"
| "push_conflict_keys n i (r # rs) s =
     (let s1 = s @ r; s2 = (if i < n - 1 then s1 @ '', '' else s1) in push_conflict_keys n (i + 1) rs s2)"

fun push_assignments :: "string list \<Rightarrow> nat \<Rightarrow> nat \<Rightarrow> string list \<Rightarrow> string \<Rightarrow> string" where
  "push_assignments keys n i [] s = s"
| "push_assignments keys n i (c # cs) s =
     (if c \<in> set keys then push_assignments keys n (i + 1) cs s
      else (let s1 = s @ c @ '' = EXCLUDED.'' @ c; s2 = (if i < n - 1 then s1 @ '','' else s1)
            in push_assignments keys n (i + 1) cs s2))"

definition upsert_gen_str :: "string \<Rightarrow> string list \<Rightarrow> string list \<Rightarrow> string" where
  "upsert_gen_str table rows keys =
     (let s = ''INSERT INTO '' @ table @ '' ('';
          s = push_columns (length rows) 0 rows s @ '') VALUES ('';
          s = push_placeholders (length rows) [0..<length rows] s @ '')'' @ '' ON CONFLICT ('';
          s = push_conflict_keys (length keys) 0 keys s
      in if length rows \<noteq> length keys
         then push_assignments keys (length rows) 0 rows (s @ '') DO UPDATE SET '')
         else s @ '') DO NOTHING'')"

fun push_conditions :: "nat \<Rightarrow> nat \<Rightarrow> string list \<Rightarrow> string \<Rightarrow> string" where
  "push_conditions n i [] s = s"
| "push_conditions n i (key # keys) s =
     (if i < n - 1 then push_conditions n (i + 1) keys (s @ key @ '' = $'' @ decimal (i + 1) @ '' AND '')
      else push_conditions n (i + 1) keys (s @ key @ '' = $'' @ decimal (i + 1)))"

definition delete_gen_str :: "string \<Rightarrow> string list \<Rightarrow> string" where
  "delete_gen_str table keys =
     push_conditions (length keys) 0 keys (''DELETE FROM '' @ table @ '' WHERE '')"

subsection \<open>The shape of the statements\<close>

definition placeholder :: "nat \<Rightarrow> string" where
  "placeholder i = ''$'' @ decimal (i + 1)"

definition assignment :: "string \<Rightarrow> string" where
  "assignment c = c @ '' = EXCLUDED.'' @ c"

definition upsert_spec :: "string \<Rightarrow> string list \<Rightarrow> string list \<Rightarrow> string" where
  "upsert_spec table rows keys =
     ''INSERT INTO '' @ table @ '' ('' @ join '','' rows @ '') VALUES ('' @
     join '','' (map placeholder [0..<length rows]) @ '') ON CONFLICT ('' @ join '', '' keys @
     (if length rows \<noteq> length keys
      then '') DO UPDATE SET '' @ join '','' (map assignment (filter (\<lambda>c. c \<notin> set keys) rows))
      else '') DO NOTHING'')"

definition delete_spec :: "string \<Rightarrow> string list \<Rightarrow> string" where
  "delete_spec table keys =
     ''DELETE FROM '' @ table @ '' WHERE '' @
     join '' AND '' (map (\<lambda>(i, key). key @ '' = '' @ placeholder i) (enumerate 0 keys))"

text \<open>
  What is left over behind the assignments: a comma, if a key column comes last and there is an assignment.
\<close>

definition left_over :: "string list \<Rightarrow> string list \<Rightarrow> string" where
  "left_over rows keys =
     (if length rows \<noteq> length keys \<and> rows \<noteq> [] \<and> last rows \<in> set keys \<and> (\<exists>c\<in>set rows. c \<notin> set keys)
      then '','' else [])"

lemma join_Cons: "join sep (x # xs) = x @ (if xs = [] then [] else sep @ join sep xs)"
  by (cases xs) auto

lemma enumerate_Nil_iff: "enumerate i xs = [] \<longleftrightarrow> xs = []"
  by (cases xs) auto

lemma push_columns_join:
  "n = i + length rs \<Longrightarrow> push_columns n i rs s = s @ join '','' rs"
  by (induction n i rs s rule: push_columns.induct) (auto simp: join_Cons Let_def)

lemma push_conflict_keys_join:
  "n = i + length rs \<Longrightarrow> push_conflict_keys n i rs s = s @ join '', '' rs"
  by (induction n i rs s rule: push_conflict_keys.induct) (auto simp: join_Cons Let_def)

lemma push_placeholders_join:
  "i \<le> n \<Longrightarrow> push_placeholders n [i..<n] s = s @ join '','' (map placeholder [i..<n])"
proof (induction "n - i" arbitrary: i s)
  case 0
  then show ?case by simp
next
  case (Suc m)
  then have i: "[i..<n] = i # [Suc i..<n]" by (simp add: upt_conv_Cons)
  show ?case
    using Suc.hyps(1) [of "Suc i"] Suc.hyps(2) Suc.prems
    by (cases "Suc i < n") (simp_all add: i join_Cons placeholder_def)
qed

lemma push_conditions_join:
  "n = i + length keys \<Longrightarrow>
   push_conditions n i keys s =
     s @ join '' AND '' (map (\<lambda>(j, key). key @ '' = '' @ placeholder j) (enumerate i keys))"
  by (induction n i keys s rule: push_conditions.induct) (auto simp: join_Cons placeholder_def enumerate_Nil_iff)

text \<open>
  The assignments: each but that of the last column is followed by a comma, so a comma is left over
  when the last column is a key.
\<close>

lemma push_assignments_join:
  "n = i + length cs \<Longrightarrow>
   push_assignments keys n i cs s =
     s @ join '','' (map assignment (filter (\<lambda>c. c \<notin> set keys) cs)) @
     (if cs \<noteq> [] \<and> last cs \<in> set keys \<and> (\<exists>c\<in>set cs. c \<notin> set keys) then '','' else [])"
proof (induction cs arbitrary: i s)
  case Nil
  then show ?case by simp
next
  case (Cons c cs)
  show ?case
  proof (cases "c \<in> set keys")
    case True
    then show ?thesis using Cons by (cases cs) auto
  next
    case False
    define s' where "s' = s @ assignment c @ (if cs \<noteq> [] then '','' else [])"
    have "i < n - 1 \<longleftrightarrow> cs \<noteq> []" using Cons.prems by (cases cs) simp_all
    then have step: "push_assignments keys n i (c # cs) s = push_assignments keys n (i + 1) cs s'"
      using False by (simp add: s'_def assignment_def)
    have "n = i + 1 + length cs" using Cons.prems by simp
    note IH = Cons.IH [OF this, of s']
    have none: "filter (\<lambda>c. c \<notin> set keys) cs = [] \<longleftrightarrow> (\<forall>c\<in>set cs. c \<in> set keys)"
      by (auto simp: filter_empty_conv)
    show ?thesis
      unfolding step IH using False none by (auto simp: join_Cons s'_def)
  qed
qed

lemma upsert_gen_str_eq:
  "upsert_gen_str table rows keys = upsert_spec table rows keys @
     (if length rows \<noteq> length keys \<and> rows \<noteq> [] \<and> last rows \<in> set keys \<and> (\<exists>c\<in>set rows. c \<notin> set keys)
      then '','' else [])"
  by (simp add: upsert_gen_str_def upsert_spec_def Let_def push_columns_join push_placeholders_join
      push_conflict_keys_join push_assignments_join)

lemma upsert_gen_str_spec: "upsert_gen_str table rows keys = upsert_spec table rows keys @ left_over rows keys"
  by (simp add: upsert_gen_str_eq left_over_def)

lemma delete_gen_str_eq: "delete_gen_str table keys = delete_spec table keys"
  by (simp add: delete_gen_str_def delete_spec_def push_conditions_join)

subsection \<open>Properties\<close>

text \<open>
  C31: the statements.  The loops build \<open>INSERT INTO t (c1,..,cn) VALUES ($1,..,$n) ON CONFLICT
  (k1, .., km) DO UPDATE SET ..\<close> with one assignment \<open>c = EXCLUDED.c\<close> per column that is not a key, in
  order and separated by commas (or \<open>DO NOTHING\<close> when the table has as many keys as columns), and
  \<open>DELETE FROM t WHERE k1 = $1 AND .. AND km = $m\<close>; but a table whose last column is a key, and that has
  other columns, gets an upsert with a comma left over at its end, which the server rejects: the comma
  after an assignment is written by the column's position among all columns, not among those assigned.
\<close>

theorem statement_texts:
  "upsert_gen_str table rows keys = upsert_spec table rows keys @
     (if length rows \<noteq> length keys \<and> rows \<noteq> [] \<and> last rows \<in> set keys \<and> (\<exists>c\<in>set rows. c \<notin> set keys)
      then '','' else []) \<and>
   delete_gen_str table keys =
     ''DELETE FROM '' @ table @ '' WHERE '' @
     join '' AND '' (map (\<lambda>(i, key). key @ '' = $'' @ decimal (i + 1)) (enumerate 0 keys))"
  by (auto simp: upsert_gen_str_eq delete_gen_str_eq delete_spec_def placeholder_def)

lemma upsert_trailing_comma:
  "upsert_gen_str ''t'' [''name'', ''id''] [''id''] =
   ''INSERT INTO t (name,id) VALUES ($1,$2) ON CONFLICT (id) DO UPDATE SET name = EXCLUDED.name,''"
  by (simp add: upsert_gen_str_eq upsert_spec_def placeholder_def assignment_def decimal.simps digit_def
      char_of_def bit_Suc_0_iff upt_rec)

end
