(* ===== verification/Pg_Connector.thy ===== *)
theory Pg_Connector imports Statements begin

text \<open>
  \<open>postgres-connector/src/main.rs\<close> and the caches of \<open>statements.rs\<close>: the sink that replays events on a
  PostgreSQL database.  The database client is a parameter, and so is the range of \<open>chrono\<close>'s dates.
\<close>

subsection \<open>The relation cache\<close>

datatype RelationIdentity = Full | KeyPositions "nat set"

record RelationCache =
  identities :: "u32 \<rightharpoonup> RelationIdentity"
  table_names :: TableNames
  field_lists :: "u32 \<rightharpoonup> string list"
  key_lists :: "u32 \<rightharpoonup> string list"

definition RelationCache_new :: RelationCache where
  "RelationCache_new =
     \<lparr>identities = Map.empty, table_names = table_names_new, field_lists = Map.empty, key_lists = Map.empty\<rparr>"

definition extract_keys_pos :: "Field list \<Rightarrow> nat set" where
  "extract_keys_pos fs =
     fold (\<lambda>(i, f) s. if f_is_key f then insert i s else s) (enumerate 0 fs) {}"

definition extract_key_identity :: "Relation \<Rightarrow> RelationIdentity" where
  "extract_key_identity rel =
     (case replica_id rel of Keys \<Rightarrow> KeyPositions (extract_keys_pos (r_fields rel)) | Row \<Rightarrow> Full)"

definition extract_fields_names :: "Relation \<Rightarrow> string list" where
  "extract_fields_names rel = map f_name (r_fields rel)"

definition extract_keys_rel :: "Relation \<Rightarrow> string list" where
  "extract_keys_rel rel =
     List.map_filter (\<lambda>f. if f_is_key f then Some (f_name f) else None) (r_fields rel)"

definition RelationCache_from_rels :: "(u32 \<rightharpoonup> Relation) \<Rightarrow> RelationCache" where
  "RelationCache_from_rels rels =
     \<lparr>identities = (\<lambda>i. map_option extract_key_identity (rels i)),
      table_names = table_names_from_rels rels,
      field_lists = (\<lambda>i. map_option extract_fields_names (rels i)),
      key_lists = (\<lambda>i. map_option extract_keys_rel (rels i))\<rparr>"

definition RelationCache_update :: "Relation \<Rightarrow> RelationCache \<Rightarrow> RelationCache" where
  "RelationCache_update relation self =
     \<lparr>identities = (identities self)(relation_oid relation \<mapsto> extract_key_identity relation),
      table_names = table_names_insert (table_names self) (relation_oid relation) (r_name relation),
      field_lists = (field_lists self)(relation_oid relation \<mapsto> extract_fields_names relation),
      key_lists = (key_lists self)(relation_oid relation \<mapsto> extract_keys_rel relation)\<rparr>"

subsection \<open>Values as parameters\<close>

text \<open>
  What \<open>to_sql\<close> hands to the implementations of the inner types.  A timestamp is the date
  \<open>microseconds\<close> after the PostgreSQL epoch; \<open>chrono_range\<close> tells which of them \<open>chrono\<close> can
  represent: adding a duration that leads outside panics, as its documentation says.
\<close>

datatype sql_param =
    SqlNull
  | SqlText string
  | SqlInt4 i32
  | SqlInt8 i64
  | SqlBool bool
  | SqlTimestamp i64

fun to_sql :: "(i64 \<Rightarrow> bool) \<Rightarrow> PgValue \<Rightarrow> (string, sql_param) outcome" where
  "to_sql chrono_range (Text s) = Ok (SqlText s)"
| "to_sql chrono_range (Int4 n) = Ok (SqlInt4 n)"
| "to_sql chrono_range (Int8 n) = Ok (SqlInt8 n)"
| "to_sql chrono_range (Bool b) = Ok (SqlBool b)"
| "to_sql chrono_range (Timestamp ts) = (if chrono_range ts then Ok (SqlTimestamp ts) else Panic)"
| "to_sql chrono_range Null = Ok SqlNull"
| "to_sql chrono_range Toasted = Err ''Toasted value was not substituted''"

text \<open>The client encodes the parameters in order and stops at the first that fails.\<close>

fun encode_params :: "(i64 \<Rightarrow> bool) \<Rightarrow> PgValue list \<Rightarrow> (string, sql_param list) outcome" where
  "encode_params chrono_range [] = Ok []"
| "encode_params chrono_range (v # vs) =
     and_then (to_sql chrono_range v) (\<lambda>p.
     and_then (encode_params chrono_range vs) (\<lambda>ps. Ok (p # ps)))"

text \<open>The calls of \<open>tokio_postgres::Client\<close> the sink makes; an error is its \<open>to_string()\<close>.\<close>

record ('c, 'q) pg_client =
  pg_prepare :: "string \<Rightarrow> 'c \<Rightarrow> (string + 'q) \<times> 'c"
  pg_execute :: "'q \<Rightarrow> sql_param list \<Rightarrow> 'c \<Rightarrow> (string + u64) \<times> 'c"

definition execute :: "(i64 \<Rightarrow> bool) \<Rightarrow> ('c, 'q) pg_client \<Rightarrow> 'q \<Rightarrow> PgValue list \<Rightarrow> 'c \<Rightarrow> sres \<times> 'c" where
  "execute chrono_range cl stmt vs c =
     (case encode_params chrono_range vs of
        Panic \<Rightarrow> (Panic, c)
      | Err e \<Rightarrow> (Err (Platform e), c)
      | Ok ps \<Rightarrow>
          (case pg_execute cl stmt ps c of
             (Inl e, c') \<Rightarrow> (Err (Platform e), c')
           | (Inr _, c') \<Rightarrow> (Ok (), c')))"

subsection \<open>The statement caches\<close>

definition prepare :: "('c, 'q) pg_client \<Rightarrow> string \<Rightarrow> u32 \<Rightarrow> (u32 \<rightharpoonup> 'q) \<Rightarrow> 'c \<Rightarrow>
    (SinkError, 'q) outcome \<times> (u32 \<rightharpoonup> 'q) \<times> 'c" where
  "prepare cl text rel cache c =
     (case pg_prepare cl text c of
        (Inl e, c') \<Rightarrow> (Err (Platform e), cache, c')
      | (Inr stmt, c') \<Rightarrow> (Ok stmt, cache(rel \<mapsto> stmt), c'))"

definition delete_statement_get :: "('c, 'q) pg_client \<Rightarrow> u32 \<Rightarrow> RelationCache \<Rightarrow> (u32 \<rightharpoonup> 'q) \<Rightarrow> 'c \<Rightarrow>
    (SinkError, 'q) outcome \<times> (u32 \<rightharpoonup> 'q) \<times> 'c" where
  "delete_statement_get cl relation rc cache c =
     (case cache relation of
        Some stmt \<Rightarrow> (Ok stmt, cache, c)
      | None \<Rightarrow>
          (case key_lists rc relation of
             None \<Rightarrow> (Err (UnknownRelation relation), cache, c)
           | Some keys \<Rightarrow>
               (case table_names_get (table_names rc) relation of
                  None \<Rightarrow> (Err (UnknownRelation relation), cache, c)
                | Some table \<Rightarrow> prepare cl (delete_gen_str table keys) relation cache c)))"

definition upsert_statement_get :: "('c, 'q) pg_client \<Rightarrow> u32 \<Rightarrow> RelationCache \<Rightarrow> (u32 \<rightharpoonup> 'q) \<Rightarrow> 'c \<Rightarrow>
    (SinkError, 'q) outcome \<times> (u32 \<rightharpoonup> 'q) \<times> 'c" where
  "upsert_statement_get cl rel rc cache c =
     (case cache rel of
        Some stmt \<Rightarrow> (Ok stmt, cache, c)
      | None \<Rightarrow>
          (case table_names_get (table_names rc) rel of
             None \<Rightarrow> (Err (UnknownRelation rel), cache, c)
           | Some table \<Rightarrow>
               (case field_lists rc rel of
                  None \<Rightarrow> (Panic, cache, c)
                | Some rows \<Rightarrow>
                    (case key_lists rc rel of
                       None \<Rightarrow> (Panic, cache, c)
                     | Some keys \<Rightarrow> prepare cl (upsert_gen_str table rows keys) rel cache c))))"

subsection \<open>The sink\<close>

record ConnectorConfig =
  cc_host :: string
  cc_user :: string
  cc_password :: string
  cc_port :: u16

definition to_postgres_string :: "ConnectorConfig \<Rightarrow> string" where
  "to_postgres_string self =
     ''host='' @ cc_host self @ '' user='' @ cc_user self @ '' password='' @ cc_password self @
     '' port='' @ decimal (unat (cc_port self))"

record ('c, 'q) PostgresSink =
  pg_conn :: 'c
  upsert_stmt_cache :: "u32 \<rightharpoonup> 'q"
  delete_stmt_cache :: "u32 \<rightharpoonup> 'q"
  relation_cache :: RelationCache

definition postgres_sink_new :: "(string \<Rightarrow> string + 'c) \<Rightarrow> ConnectorConfig \<Rightarrow> (u32 \<rightharpoonup> Relation) \<Rightarrow>
    string + ('c, 'q) PostgresSink" where
  "postgres_sink_new connect config relations =
     (case connect (to_postgres_string config) of
        Inl e \<Rightarrow> Inl e
      | Inr clt \<Rightarrow> Inr \<lparr>pg_conn = clt, upsert_stmt_cache = Map.empty, delete_stmt_cache = Map.empty,
                        relation_cache = RelationCache_from_rels relations\<rparr>)"

definition run_upsert :: "(i64 \<Rightarrow> bool) \<Rightarrow> ('c, 'q) pg_client \<Rightarrow> u32 \<Rightarrow> PgValue list \<Rightarrow> ('c, 'q) PostgresSink \<Rightarrow>
    sres \<times> ('c, 'q) PostgresSink" where
  "run_upsert chrono_range cl rel vs self =
     (let (r, cache, c) = upsert_statement_get cl rel (relation_cache self) (upsert_stmt_cache self) (pg_conn self);
          self1 = self\<lparr>upsert_stmt_cache := cache, pg_conn := c\<rparr>
      in case r of
           Panic \<Rightarrow> (Panic, self1)
         | Err e \<Rightarrow> (Err e, self1)
         | Ok stmt \<Rightarrow>
             (let (r', c') = execute chrono_range cl stmt vs c in (r', self1\<lparr>pg_conn := c'\<rparr>)))"

definition delete_params :: "RelationIdentity \<Rightarrow> PgValue list \<Rightarrow> PgValue list" where
  "delete_params key_identity olds =
     (case key_identity of
        Full \<Rightarrow> olds
      | KeyPositions ids \<Rightarrow> List.map_filter (\<lambda>(i, v). if i \<in> ids then Some v else None) (enumerate 0 olds))"

definition run_delete :: "(i64 \<Rightarrow> bool) \<Rightarrow> ('c, 'q) pg_client \<Rightarrow> u32 \<Rightarrow> PgValue list \<Rightarrow> ('c, 'q) PostgresSink \<Rightarrow>
    sres \<times> ('c, 'q) PostgresSink" where
  "run_delete chrono_range cl rel olds self =
     (let (r, cache, c) = delete_statement_get cl rel (relation_cache self) (delete_stmt_cache self) (pg_conn self);
          self1 = self\<lparr>delete_stmt_cache := cache, pg_conn := c\<rparr>
      in case r of
           Panic \<Rightarrow> (Panic, self1)
         | Err e \<Rightarrow> (Err e, self1)
         | Ok stmt \<Rightarrow>
             (case identities (relation_cache self) rel of
                None \<Rightarrow> (Err (UnknownRelation rel), self1)
              | Some key_identity \<Rightarrow>
                  (let (r', c') = execute chrono_range cl stmt (delete_params key_identity olds) c
                   in (r', self1\<lparr>pg_conn := c'\<rparr>))))"

definition pg_on_event :: "(i64 \<Rightarrow> bool) \<Rightarrow> ('c, 'q) pg_client \<Rightarrow> ChangeEvent \<Rightarrow> ('c, 'q) PostgresSink \<Rightarrow>
    sres \<times> ('c, 'q) PostgresSink" where
  "pg_on_event chrono_range cl event self =
     (let (merged, op') = merge_toasted (ev_op event)
      in if merged \<noteq> Ok () then (Err ToastedInKeyOnly, self)
         else (case op' of
                 Insert r \<Rightarrow> run_upsert chrono_range cl (ev_rel event) r self
               | Update _ r \<Rightarrow> run_upsert chrono_range cl (ev_rel event) r self
               | Delete olds \<Rightarrow> run_delete chrono_range cl (ev_rel event) olds self))"

definition pg_on_relation :: "Relation \<Rightarrow> ('c, 'q) PostgresSink \<Rightarrow> sres \<times> ('c, 'q) PostgresSink" where
  "pg_on_relation relation self =
     (Ok (), self\<lparr>relation_cache := RelationCache_update relation (relation_cache self)\<rparr>)"

definition postgres_sink :: "(i64 \<Rightarrow> bool) \<Rightarrow> ('c, 'q) pg_client \<Rightarrow> ('c, 'q) PostgresSink sink" where
  "postgres_sink chrono_range cl = \<lparr>s_on_event = pg_on_event chrono_range cl, s_on_relation = pg_on_relation\<rparr>"

subsection \<open>The invariant and the contract\<close>

definition consistent_cache :: "RelationCache \<Rightarrow> bool" where
  "consistent_cache rc \<longleftrightarrow>
     dom (table_names rc) = dom (identities rc) \<and> dom (field_lists rc) = dom (identities rc) \<and>
     dom (key_lists rc) = dom (identities rc)"

definition representable :: "(i64 \<Rightarrow> bool) \<Rightarrow> ChangeEvent \<Rightarrow> bool" where
  "representable chrono_range ev \<longleftrightarrow> (\<forall>t. Timestamp t \<in> op_values (ev_op ev) \<longrightarrow> chrono_range t)"

lemma consistent_cache_new: "consistent_cache RelationCache_new"
  by (simp add: consistent_cache_def RelationCache_new_def table_names_new_def)

lemma consistent_cache_from_rels: "consistent_cache (RelationCache_from_rels rels)"
  by (auto simp: consistent_cache_def RelationCache_from_rels_def table_names_from_rels_def dom_def)

lemma consistent_cache_update: "consistent_cache rc \<Longrightarrow> consistent_cache (RelationCache_update rel rc)"
  by (auto simp: consistent_cache_def RelationCache_update_def table_names_insert_def)

lemma consistent_cacheD:
  "consistent_cache rc \<Longrightarrow> table_names rc rel = Some t \<Longrightarrow>
   \<exists>i fs ks. identities rc rel = Some i \<and> field_lists rc rel = Some fs \<and> key_lists rc rel = Some ks"
  unfolding consistent_cache_def by (metis domD domI)

lemma encode_params_Panic_iff:
  "encode_params chrono_range vs = Panic \<Longrightarrow> \<exists>t. Timestamp t \<in> set vs \<and> \<not> chrono_range t"
proof (induction vs)
  case Nil
  then show ?case by simp
next
  case (Cons v vs)
  then show ?case by (cases v) (auto simp: outcome_inv split: if_splits)
qed

lemma execute_cases:
  assumes "execute chrono_range cl stmt vs c = (r, c')"
  shows "r = Panic \<Longrightarrow> \<exists>t. Timestamp t \<in> set vs \<and> \<not> chrono_range t" "r \<noteq> Err (UnknownRelation oid)"
  using assms encode_params_Panic_iff [of chrono_range vs]
  by (auto simp: execute_def split: outcome.splits prod.splits sum.splits)

lemma set_delete_params: "set (delete_params i olds) \<subseteq> set olds"
  by (cases i) (auto simp: delete_params_def List.map_filter_def enumerate_eq_zip dest: set_zip_rightD split: if_splits)

text \<open>The relation cache is only touched by \<open>on_relation\<close>.\<close>

lemma pg_on_event_cache: "pg_on_event chrono_range cl ev self = (r, self') \<Longrightarrow> relation_cache self' = relation_cache self"
  by (auto simp: pg_on_event_def run_upsert_def run_delete_def Let_def split_beta
      split: if_splits Op.splits outcome.splits option.splits)

lemma run_upsert_contract:
  assumes "consistent_cache (relation_cache self)" and "run_upsert chrono_range cl rel vs self = (r, self')"
  shows "r = Panic \<Longrightarrow> \<exists>t. Timestamp t \<in> set vs \<and> \<not> chrono_range t"
    and "r = Err (UnknownRelation oid) \<Longrightarrow> oid = rel \<and> table_names (relation_cache self) rel = None"
  using assms(2) consistent_cacheD [OF assms(1), of rel] execute_cases
  by (fastforce simp: run_upsert_def upsert_statement_get_def prepare_def table_names_get_def Let_def
      split: outcome.splits option.splits prod.splits sum.splits)+

lemma run_delete_contract:
  assumes "consistent_cache (relation_cache self)" and "run_delete chrono_range cl rel olds self = (r, self')"
  shows "r = Panic \<Longrightarrow> \<exists>t. Timestamp t \<in> set olds \<and> \<not> chrono_range t"
    and "r = Err (UnknownRelation oid) \<Longrightarrow> oid = rel \<and> table_names (relation_cache self) rel = None"
proof -
  have dom: "identities (relation_cache self) rel = None \<longleftrightarrow> table_names (relation_cache self) rel = None"
    "key_lists (relation_cache self) rel = None \<longleftrightarrow> table_names (relation_cache self) rel = None"
    using assms(1) unfolding consistent_cache_def by (metis domIff)+
  show "\<exists>t. Timestamp t \<in> set olds \<and> \<not> chrono_range t" if "r = Panic"
    using assms(2) that execute_cases(1) set_delete_params
    by (fastforce simp: run_delete_def delete_statement_get_def prepare_def table_names_get_def Let_def
        split: outcome.splits option.splits prod.splits sum.splits)
  show "oid = rel \<and> table_names (relation_cache self) rel = None" if "r = Err (UnknownRelation oid)"
    using assms(2) that execute_cases(2) dom
    by (fastforce simp: run_delete_def delete_statement_get_def prepare_def table_names_get_def Let_def
        split: outcome.splits option.splits prod.splits sum.splits)
qed

text \<open>The three ways an event can go.\<close>

lemma pg_on_event_cases:
  assumes "pg_on_event chrono_range cl ev self = (r, self')"
  obtains (refused) "r = Err ToastedInKeyOnly" "self' = self"
  | (upsert) vs where "set vs \<subseteq> op_values (ev_op ev)" "run_upsert chrono_range cl (ev_rel ev) vs self = (r, self')"
  | (delete) olds where "set olds \<subseteq> op_values (ev_op ev)" "run_delete chrono_range cl (ev_rel ev) olds self = (r, self')"
proof -
  obtain m op' where m: "merge_toasted (ev_op ev) = (m, op')" by (cases "merge_toasted (ev_op ev)")
  have vals: "op_values op' \<subseteq> op_values (ev_op ev)" using merge_toasted_values [of "ev_op ev"] m by simp
  show ?thesis
  proof (cases "m = Ok ()")
    case False
    then show ?thesis using assms refused by (simp add: pg_on_event_def m)
  next
    case True
    then show ?thesis
      using assms upsert delete vals by (cases op') (auto simp: pg_on_event_def m op_values_def)
  qed
qed

lemma pg_on_event_contract:
  assumes "consistent_cache (relation_cache self)" and "pg_on_event chrono_range cl ev self = (r, self')"
  shows "r = Panic \<Longrightarrow> \<not> representable chrono_range ev"
    and "r = Err (UnknownRelation oid) \<Longrightarrow> oid = ev_rel ev \<and> oid \<notin> dom (table_names (relation_cache self))"
proof -
  show "\<not> representable chrono_range ev" if "r = Panic"
    using assms(2)
  proof (cases rule: pg_on_event_cases)
    case (upsert vs)
    then show ?thesis using run_upsert_contract(1) [OF assms(1) upsert(2) that] by (auto simp: representable_def)
  next
    case (delete olds)
    then show ?thesis using run_delete_contract(1) [OF assms(1) delete(2) that] by (auto simp: representable_def)
  qed (use that in simp)
  show "oid = ev_rel ev \<and> oid \<notin> dom (table_names (relation_cache self))" if "r = Err (UnknownRelation oid)"
    using assms(2)
  proof (cases rule: pg_on_event_cases)
    case (upsert vs)
    then show ?thesis using run_upsert_contract(2) [OF assms(1) upsert(2) that] by auto
  next
    case (delete olds)
    then show ?thesis using run_delete_contract(2) [OF assms(1) delete(2) that] by auto
  qed (use that in simp)
qed

text \<open>The PostgreSQL sink keeps the contract of the trait, over every client and every calendar.\<close>

lemma pg_kafka_sink:
  "kafka_sink (postgres_sink chrono_range cl) (\<lambda>self. consistent_cache (relation_cache self))
     (\<lambda>self. dom (table_names (relation_cache self))) (representable chrono_range)"
proof
  fix self self' :: "('a, 'b) PostgresSink" and rel r
  assume "consistent_cache (relation_cache self)"
    and "s_on_relation (postgres_sink chrono_range cl) rel self = (r, self')"
  then show "r = Ok () \<and> consistent_cache (relation_cache self') \<and>
      dom (table_names (relation_cache self')) = insert (relation_oid rel) (dom (table_names (relation_cache self)))"
    using consistent_cache_update [of "relation_cache self" rel]
    by (auto simp: postgres_sink_def pg_on_relation_def)
      (auto simp: RelationCache_update_def table_names_insert_def)
next
  fix self self' :: "('a, 'b) PostgresSink" and ev r
  assume a: "consistent_cache (relation_cache self)" "representable chrono_range ev"
    "s_on_event (postgres_sink chrono_range cl) ev self = (r, self')"
  then have e: "pg_on_event chrono_range cl ev self = (r, self')" by (simp add: postgres_sink_def)
  show "r \<noteq> Panic \<and> consistent_cache (relation_cache self') \<and>
      dom (table_names (relation_cache self')) = dom (table_names (relation_cache self))"
    using pg_on_event_contract(1) [OF a(1) e] pg_on_event_cache [OF e] a by auto
next
  fix self self' :: "('a, 'b) PostgresSink" and ev oid
  assume a: "consistent_cache (relation_cache self)"
    "s_on_event (postgres_sink chrono_range cl) ev self = (Err (UnknownRelation oid), self')"
  then show "oid = ev_rel ev \<and> oid \<notin> dom (table_names (relation_cache self))"
    using pg_on_event_contract(2) [OF a(1)] by (fastforce simp: postgres_sink_def)
qed

interpretation pg: kafka_sink "postgres_sink chrono_range cl" "\<lambda>self. consistent_cache (relation_cache self)"
    "\<lambda>self. dom (table_names (relation_cache self))" "representable chrono_range" for chrono_range cl
  by (rule pg_kafka_sink)

lemma delete_params_nths: "delete_params (KeyPositions ids) olds = nths olds ids"
proof -
  have "List.map_filter (\<lambda>(i, v). if i \<in> ids then Some v else None) (enumerate n olds) =
      nths olds {i. i + n \<in> ids}" for n
  proof (induction olds arbitrary: n)
    case Nil
    then show ?case by (simp add: List.map_filter_def)
  next
    case (Cons v olds)
    then show ?case by (simp add: List.map_filter_simps nths_Cons)
  qed
  from this [of 0] show ?thesis by (simp add: delete_params_def)
qed

subsection \<open>What an event does to the database\<close>

text \<open>
  The specification: the statement an event stands for by the relation's description, and its values.  A
  row is inserted, or assigned to the row with its key, TOASTed values being the old row's; a deletion
  passes the old values that stand at the positions of the key columns, or all of them if the identity is
  the whole row.  There is none for a relation that is not described, nor for an update with a TOASTed
  value that the old row does not have.
\<close>

definition filled :: "PgValue list \<Rightarrow> PgValue list \<Rightarrow> PgValue list" where
  "filled olds r = map (\<lambda>j. if r ! j = Toasted then olds ! j else r ! j) [0..<length r]"

definition delete_values :: "RelationIdentity \<Rightarrow> PgValue list \<Rightarrow> PgValue list" where
  "delete_values identity olds = (case identity of Full \<Rightarrow> olds | KeyPositions ids \<Rightarrow> nths olds ids)"

definition event_statement :: "RelationCache \<Rightarrow> ChangeEvent \<Rightarrow> (string \<times> PgValue list) option" where
  "event_statement rc ev =
     (case (table_names rc (ev_rel ev), field_lists rc (ev_rel ev), key_lists rc (ev_rel ev),
            identities rc (ev_rel ev)) of
        (Some table, Some fs, Some ks, Some identity) \<Rightarrow>
          (case ev_op ev of
             Insert r \<Rightarrow> Some (upsert_spec table fs ks @ left_over fs ks, r)
           | Update olds r \<Rightarrow>
               (if \<forall>j<length r. r ! j = Toasted \<longrightarrow> j < length olds
                then Some (upsert_spec table fs ks @ left_over fs ks, filled olds r) else None)
           | Delete olds \<Rightarrow> Some (delete_spec table ks, delete_values identity olds))
      | _ \<Rightarrow> None)"

text \<open>The same by the code's functions.\<close>

lemma merge_toasted_Update:
  "merge_toasted (Update olds r) = (fst (merge_row olds 0 r), Update olds (snd (merge_row olds 0 r)))"
  by (simp add: merge_toasted_def split_beta Let_def)

lemma merge_toasted_Ok:
  "fst (merge_toasted (Update olds r)) = Ok () \<longleftrightarrow> (\<forall>j<length r. r ! j = Toasted \<longrightarrow> j < length olds)"
  by (simp add: merge_toasted_Update merge_row_Ok_iff mergeable_def)

lemma merge_toasted_filled:
  "fst (merge_toasted (Update olds r)) = Ok () \<Longrightarrow> snd (merge_toasted (Update olds r)) = Update olds (filled olds r)"
  by (simp add: merge_toasted_Update merge_row_Ok_iff merge_row_value filled_def merged_at_def)

lemma delete_params_spec: "delete_params identity olds = delete_values identity olds"
  by (cases identity) (simp_all add: delete_values_def delete_params_nths, simp add: delete_params_def)

lemma event_statement_code:
  "event_statement rc ev =
     (case (table_names rc (ev_rel ev), field_lists rc (ev_rel ev), key_lists rc (ev_rel ev),
            identities rc (ev_rel ev)) of
        (Some table, Some fs, Some ks, Some identity) \<Rightarrow>
          (if fst (merge_toasted (ev_op ev)) = Ok ()
           then Some (case snd (merge_toasted (ev_op ev)) of
                  Insert r \<Rightarrow> (upsert_gen_str table fs ks, r)
                | Update _ r \<Rightarrow> (upsert_gen_str table fs ks, r)
                | Delete olds \<Rightarrow> (delete_gen_str table ks, delete_params identity olds))
           else None)
      | _ \<Rightarrow> None)"
proof (cases "ev_op ev")
  case (Insert r)
  then show ?thesis
    by (simp add: event_statement_def merge_toasted_def upsert_gen_str_spec split: option.split)
next
  case (Update olds r)
  then show ?thesis
    using merge_toasted_filled [of olds r]
    by (simp add: event_statement_def merge_toasted_Ok [symmetric] upsert_gen_str_spec split: option.split)
next
  case (Delete olds)
  then show ?thesis
    by (simp add: event_statement_def merge_toasted_def delete_gen_str_eq delete_params_spec split: option.split)
qed

lemma event_statement_merged: "event_statement rc ev = Some s \<Longrightarrow> fst (merge_toasted (ev_op ev)) = Ok ()"
  by (auto simp: event_statement_code split: option.splits if_splits)

text \<open>A database that records what it is asked to run; a prepared statement is its text.\<close>

definition recording_client :: "((string \<times> sql_param list) list, string) pg_client" where
  "recording_client =
     \<lparr>pg_prepare = (\<lambda>text log. (Inr text, log)),
      pg_execute = (\<lambda>stmt ps log. (Inr 1, log @ [(stmt, ps)]))\<rparr>"

text \<open>
  The cached statements were prepared by this client, from the texts of the relations as the relation
  cache describes them now.
\<close>

definition prepared :: "('c, 'q) pg_client \<Rightarrow> string \<Rightarrow> 'q \<Rightarrow> bool" where
  "prepared cl sql stmt \<longleftrightarrow> (\<exists>c c'. pg_prepare cl sql c = (Inr stmt, c'))"

definition up_to_date :: "('c, 'q) pg_client \<Rightarrow> ('c, 'q) PostgresSink \<Rightarrow> bool" where
  "up_to_date cl self \<longleftrightarrow>
     (\<forall>rel stmt. upsert_stmt_cache self rel = Some stmt \<longrightarrow>
        (\<exists>table fs ks. table_names (relation_cache self) rel = Some table \<and>
           field_lists (relation_cache self) rel = Some fs \<and> key_lists (relation_cache self) rel = Some ks \<and>
           prepared cl (upsert_spec table fs ks @ left_over fs ks) stmt)) \<and>
     (\<forall>rel stmt. delete_stmt_cache self rel = Some stmt \<longrightarrow>
        (\<exists>table ks. table_names (relation_cache self) rel = Some table \<and>
           key_lists (relation_cache self) rel = Some ks \<and> prepared cl (delete_spec table ks) stmt))"

text \<open>The statement that is cached for what the event does.\<close>

definition cached_statement :: "('c, 'q) PostgresSink \<Rightarrow> ChangeEvent \<Rightarrow> 'q option" where
  "cached_statement self ev =
     (case ev_op ev of Delete olds \<Rightarrow> delete_stmt_cache self (ev_rel ev) | _ \<Rightarrow> upsert_stmt_cache self (ev_rel ev))"

text \<open>
  One statement is run: the cached one, or one prepared now.  If the client refuses to prepare it, that is
  the result; otherwise it is executed once, and the result is what the client answers.
\<close>

definition runs_once :: "('c, 'q) pg_client \<Rightarrow> 'q option \<Rightarrow> string \<Rightarrow> sql_param list \<Rightarrow> 'c \<Rightarrow> sres \<Rightarrow> 'c \<Rightarrow> bool" where
  "runs_once cl cached sql ps c r c' \<longleftrightarrow>
     (\<exists>e. cached = None \<and> pg_prepare cl sql c = (Inl e, c') \<and> r = Err (Platform e)) \<or>
     (\<exists>stmt c1 answer. prepared cl sql stmt \<and>
        (cached = Some stmt \<and> c1 = c \<or> cached = None \<and> pg_prepare cl sql c = (Inr stmt, c1)) \<and>
        pg_execute cl stmt ps c1 = (answer, c') \<and>
        r = (case answer of Inl e \<Rightarrow> Err (Platform e) | Inr n \<Rightarrow> Ok ()))"

lemma encode_params_Ok:
  "Toasted \<notin> set vs \<Longrightarrow> (\<forall>t. Timestamp t \<in> set vs \<longrightarrow> chrono_range t) \<Longrightarrow>
   \<exists>ps. encode_params chrono_range vs = Ok ps \<and> length ps = length vs"
proof (induction vs)
  case Nil
  then show ?case by simp
next
  case (Cons v vs)
  then show ?case by (cases v) auto
qed

lemma up_to_date_conn [simp]: "up_to_date cl (self\<lparr>pg_conn := c\<rparr>) = up_to_date cl self"
  by (simp add: up_to_date_def)

lemma up_to_date_upsert:
  assumes "up_to_date cl self" and "table_names (relation_cache self) rel = Some table"
    and "field_lists (relation_cache self) rel = Some fs" and "key_lists (relation_cache self) rel = Some ks"
    and "prepared cl (upsert_spec table fs ks @ left_over fs ks) stmt"
  shows "up_to_date cl (self\<lparr>upsert_stmt_cache := (upsert_stmt_cache self)(rel \<mapsto> stmt)\<rparr>)"
  using assms by (simp add: up_to_date_def)

lemma up_to_date_delete:
  assumes "up_to_date cl self" and "table_names (relation_cache self) rel = Some table"
    and "key_lists (relation_cache self) rel = Some ks" and "prepared cl (delete_spec table ks) stmt"
  shows "up_to_date cl (self\<lparr>delete_stmt_cache := (delete_stmt_cache self)(rel \<mapsto> stmt)\<rparr>)"
  using assms by (simp add: up_to_date_def)

lemma runs_onceI:
  "prepared cl sql stmt \<Longrightarrow> cached = Some stmt \<and> c1 = c \<or> cached = None \<and> pg_prepare cl sql c = (Inr stmt, c1) \<Longrightarrow>
   execute chrono_range cl stmt vs c1 = (r, c') \<Longrightarrow> encode_params chrono_range vs = Ok ps \<Longrightarrow>
   runs_once cl cached sql ps c r c'"
  by (fastforce simp: runs_once_def execute_def split: prod.splits sum.splits)

lemma run_upsert_once:
  assumes "up_to_date cl self" and "table_names (relation_cache self) rel = Some table"
    and "field_lists (relation_cache self) rel = Some fs" and "key_lists (relation_cache self) rel = Some ks"
    and "encode_params chrono_range vs = Ok ps" and "run_upsert chrono_range cl rel vs self = (r, self')"
  shows "up_to_date cl self' \<and>
    runs_once cl (upsert_stmt_cache self rel) (upsert_spec table fs ks @ left_over fs ks) ps (pg_conn self) r (pg_conn self')"
proof (cases "upsert_stmt_cache self rel")
  case None
  obtain answer c1 where p: "pg_prepare cl (upsert_spec table fs ks @ left_over fs ks) (pg_conn self) = (answer, c1)"
    by (cases "pg_prepare cl (upsert_spec table fs ks @ left_over fs ks) (pg_conn self)")
  note unfold = run_upsert_def upsert_statement_get_def prepare_def table_names_get_def upsert_gen_str_spec assms(2-4) None p
  show ?thesis
  proof (cases answer)
    case (Inl e)
    have "self' = self\<lparr>pg_conn := c1\<rparr>" "r = Err (Platform e)"
      using assms(6) None by (simp_all add: unfold Inl)
    then show ?thesis using assms(1) p by (simp add: runs_once_def Inl None)
  next
    case (Inr stmt)
    have pr: "prepared cl (upsert_spec table fs ks @ left_over fs ks) stmt" using p by (auto simp: prepared_def Inr)
    obtain r' c' where e: "execute chrono_range cl stmt vs c1 = (r', c')"
      by (cases "execute chrono_range cl stmt vs c1")
    have "self' = self\<lparr>upsert_stmt_cache := (upsert_stmt_cache self)(rel \<mapsto> stmt), pg_conn := c'\<rparr>" "r = r'"
      using assms(6) by (simp_all add: unfold Inr e)
    then show ?thesis
      using up_to_date_upsert [OF assms(1-4) pr] runs_onceI [OF pr _ e assms(5)] p by (simp add: Inr None)
  qed
next
  case (Some stmt)
  then have pr: "prepared cl (upsert_spec table fs ks @ left_over fs ks) stmt"
    using assms(1-4) by (fastforce simp: up_to_date_def)
  obtain r' c' where e: "execute chrono_range cl stmt vs (pg_conn self) = (r', c')"
    by (cases "execute chrono_range cl stmt vs (pg_conn self)")
  have "self' = self\<lparr>pg_conn := c'\<rparr>" "r = r'"
    using assms(6) by (simp_all add: run_upsert_def upsert_statement_get_def Some e)
  then show ?thesis using assms(1) runs_onceI [OF pr _ e assms(5)] by (simp add: Some)
qed

lemma run_delete_once:
  assumes "up_to_date cl self" and "table_names (relation_cache self) rel = Some table"
    and "key_lists (relation_cache self) rel = Some ks" and "identities (relation_cache self) rel = Some i"
    and "encode_params chrono_range (delete_params i olds) = Ok ps"
    and "run_delete chrono_range cl rel olds self = (r, self')"
  shows "up_to_date cl self' \<and>
    runs_once cl (delete_stmt_cache self rel) (delete_spec table ks) ps (pg_conn self) r (pg_conn self')"
proof (cases "delete_stmt_cache self rel")
  case None
  obtain answer c1 where p: "pg_prepare cl (delete_spec table ks) (pg_conn self) = (answer, c1)"
    by (cases "pg_prepare cl (delete_spec table ks) (pg_conn self)")
  note unfold = run_delete_def delete_statement_get_def prepare_def table_names_get_def delete_gen_str_eq assms(2-4) None p
  show ?thesis
  proof (cases answer)
    case (Inl e)
    have "self' = self\<lparr>pg_conn := c1\<rparr>" "r = Err (Platform e)"
      using assms(6) None by (simp_all add: unfold Inl)
    then show ?thesis using assms(1) p by (simp add: runs_once_def Inl None)
  next
    case (Inr stmt)
    have pr: "prepared cl (delete_spec table ks) stmt" using p by (auto simp: prepared_def Inr)
    obtain r' c' where e: "execute chrono_range cl stmt (delete_params i olds) c1 = (r', c')"
      by (cases "execute chrono_range cl stmt (delete_params i olds) c1")
    have "self' = self\<lparr>delete_stmt_cache := (delete_stmt_cache self)(rel \<mapsto> stmt), pg_conn := c'\<rparr>" "r = r'"
      using assms(6) by (simp_all add: unfold Inr e)
    then show ?thesis
      using up_to_date_delete [OF assms(1-3) pr] runs_onceI [OF pr _ e assms(5)] p by (simp add: Inr None)
  qed
next
  case (Some stmt)
  then have pr: "prepared cl (delete_spec table ks) stmt" using assms(1-3) by (fastforce simp: up_to_date_def)
  obtain r' c' where e: "execute chrono_range cl stmt (delete_params i olds) (pg_conn self) = (r', c')"
    by (cases "execute chrono_range cl stmt (delete_params i olds) (pg_conn self)")
  have "self' = self\<lparr>pg_conn := c'\<rparr>" "r = r'"
    using assms(6) by (simp_all add: run_delete_def delete_statement_get_def Some assms(4) e)
  then show ?thesis using assms(1) runs_onceI [OF pr _ e assms(5)] by (simp add: Some)
qed

lemma pg_on_event_once:
  assumes "up_to_date cl self" and "event_statement (relation_cache self) ev = Some (sql, vs)"
    and "encode_params chrono_range vs = Ok ps" and "pg_on_event chrono_range cl ev self = (r, self')"
  shows "up_to_date cl self' \<and> runs_once cl (cached_statement self ev) sql ps (pg_conn self) r (pg_conn self')"
proof -
  from assms(2) obtain table fs ks i where
    c: "table_names (relation_cache self) (ev_rel ev) = Some table"
      "field_lists (relation_cache self) (ev_rel ev) = Some fs"
      "key_lists (relation_cache self) (ev_rel ev) = Some ks"
      "identities (relation_cache self) (ev_rel ev) = Some i"
    by (auto simp: event_statement_def split: option.splits)
  note merged = event_statement_merged [OF assms(2)]
  note upsert = run_upsert_once [OF assms(1) c(1-3) assms(3), of r self']
  show ?thesis
  proof (cases "ev_op ev")
    case (Insert r')
    then show ?thesis
      using upsert assms(2,4) by (auto simp: pg_on_event_def event_statement_def c merge_toasted_def cached_statement_def)
  next
    case (Update olds r')
    then have "snd (merge_toasted (ev_op ev)) = Update olds (filled olds r')"
      using merge_toasted_filled [of olds r'] merged by simp
    then show ?thesis
      using upsert assms(2,4) merged
      by (auto simp: pg_on_event_def event_statement_def c Update cached_statement_def split_beta split: if_splits)
  next
    case (Delete olds)
    then show ?thesis
      using run_delete_once [OF assms(1) c(1,3,4), of chrono_range olds ps r self'] assms(2,3,4)
      by (auto simp: pg_on_event_def event_statement_def c merge_toasted_def cached_statement_def delete_params_spec)
  qed
qed

lemma pg_on_event_recording:
  assumes "up_to_date recording_client self"
    and "event_statement (relation_cache self) ev = Some (text, vs)" and "encode_params chrono_range vs = Ok ps"
  shows "\<exists>self'. pg_on_event chrono_range recording_client ev self = (Ok (), self') \<and>
    up_to_date recording_client self' \<and> pg_conn self' = pg_conn self @ [(text, ps)]"
  using pg_on_event_once [OF assms, of "fst (pg_on_event chrono_range recording_client ev self)"]
  by (cases "pg_on_event chrono_range recording_client ev self")
    (auto simp: runs_once_def prepared_def recording_client_def)

subsection \<open>The parameters of a delete\<close>

lemma fold_keys_pos:
  "fold (\<lambda>(i, f) s. if f_is_key f then insert i s else s) (enumerate n fs) S =
     S \<union> {i. n \<le> i \<and> i < n + length fs \<and> f_is_key (fs ! (i - n))}"
proof (induction fs arbitrary: n S)
  case Nil
  then show ?case by auto
next
  case (Cons f fs)
  have "{i. n \<le> i \<and> i < n + length (f # fs) \<and> f_is_key ((f # fs) ! (i - n))} =
      (if f_is_key f then {n} else {}) \<union> {i. Suc n \<le> i \<and> i < Suc n + length fs \<and> f_is_key (fs ! (i - Suc n))}"
    by (auto simp: nth_Cons' Suc_le_eq le_less)
  then show ?case using Cons.IH [of "Suc n"] by simp
qed

lemma extract_keys_pos_eq: "extract_keys_pos fs = {i. i < length fs \<and> f_is_key (fs ! i)}"
  by (simp add: extract_keys_pos_def fold_keys_pos)

text \<open>
  A key tuple holds one value per key column; the filter by column positions keeps all of them exactly
  when the key columns are the first columns.
\<close>

lemma nths_all_iff:
  assumes "finite I" and "card I = length xs"
  shows "nths xs I = xs \<longleftrightarrow> I = {..<length xs}"
proof
  assume "nths xs I = xs"
  then have "card {i. i < length xs \<and> i \<in> I} = length xs" by (metis length_nths)
  then have "card ({..<length xs} \<inter> I) = card {..<length xs}" by (simp add: Int_def conj_commute)
  then have "{..<length xs} \<inter> I = {..<length xs}"
    by (intro card_subset_eq) auto
  then have "{..<length xs} \<subseteq> I" by blast
  then show "I = {..<length xs}" using assms by (metis card_lessThan card_subset_eq)
next
  assume "I = {..<length xs}"
  then show "nths xs I = xs" by (simp add: nths_all)
qed

lemma sorted_wrt_initial_iff:
  assumes "sorted_wrt (<) (xs :: nat list)"
  shows "set xs = {..<length xs} \<longleftrightarrow> (\<forall>k<length xs. xs ! k = k)"
proof
  assume "set xs = {..<length xs}"
  then have "xs = sorted_list_of_set {..<length xs}"
    using assms by (metis sorted_list_of_set_unique strict_sorted_iff finite_lessThan distinct_card)
  then show "\<forall>k<length xs. xs ! k = k" by (metis add_0 lessThan_atLeast0 nth_upt sorted_list_of_set_range)
next
  assume "\<forall>k<length xs. xs ! k = k"
  then show "set xs = {..<length xs}" by (force simp: in_set_conv_nth)
qed

lemma delete_params_complete_iff:
  assumes "wf_relation_data P rd" and "replica_id (inner rd) = Keys" and "length olds = length (key_indexes rd)"
  shows "delete_params (extract_key_identity (inner rd)) olds = olds \<longleftrightarrow>
    (\<forall>k<length olds. key_indexes rd ! k = k)"
proof -
  have s: "sorted_wrt (<) (key_indexes rd)"
    and ids: "extract_keys_pos (r_fields (inner rd)) = set (key_indexes rd)"
    using assms(1) by (simp_all add: wf_relation_data_def extract_keys_pos_eq)
  have "card (set (key_indexes rd)) = length olds"
    using s assms(3) by (simp add: distinct_card strict_sorted_iff)
  then show ?thesis
    using nths_all_iff [of "set (key_indexes rd)" olds] sorted_wrt_initial_iff [OF s] assms(2,3)
    by (simp add: extract_key_identity_def delete_params_nths ids)
qed

subsection \<open>Properties\<close>

text \<open>A sink that has just connected and knows the table of the example stream.\<close>

definition counters_sink :: "((string \<times> sql_param list) list, string) PostgresSink" where
  "counters_sink =
     \<lparr>pg_conn = [], upsert_stmt_cache = Map.empty, delete_stmt_cache = Map.empty,
      relation_cache = RelationCache_from_rels [7 \<mapsto> counters_rel]\<rparr>"

lemma counters_sink_up_to_date: "up_to_date cl counters_sink"
  by (simp add: up_to_date_def counters_sink_def)

lemma counters_statement:
  "event_statement (RelationCache_from_rels [7 \<mapsto> counters_rel]) \<lparr>ev_op = Insert [Int4 n], ev_rel = 7\<rparr> =
     Some (upsert_gen_str ''counters'' [''id''] [''id''], [Int4 n])"
  by (simp add: event_statement_code RelationCache_from_rels_def table_names_from_rels_def
      counters_rel_def merge_toasted_def extract_fields_names_def extract_keys_rel_def List.map_filter_simps)


text \<open>A client that counts the parameters: a statement takes as many as its text has placeholders.\<close>

definition counting_client :: "((string \<times> sql_param list) list, string) pg_client" where
  "counting_client =
     \<lparr>pg_prepare = (\<lambda>sql log. (Inr sql, log)),
      pg_execute = (\<lambda>sql ps log.
        if length ps = length (filter (\<lambda>c. c = CHR ''$'') sql) then (Inr 1, log @ [(sql, ps)])
        else (Inl ''expected other parameters'', log))\<rparr>"


text \<open>
  The count is not always right.  With the whole row as identity the values of a deletion are those of the whole
  old row, while the text has a placeholder per key column: if not every column is marked as a key, the
  client refuses.
\<close>

lemma delete_parameter_count:
  assumes "event_statement (RelationCache_from_rels rels) \<lparr>ev_op = Delete olds, ev_rel = oid\<rparr> = Some (sql, vs)"
    and "rels oid = Some rel" and "replica_id rel = Row" and "length olds = length (r_fields rel)"
  shows "length vs = length (extract_keys_rel rel) \<longleftrightarrow> (\<forall>f\<in>set (r_fields rel). f_is_key f)"
proof -
  have "length (extract_keys_rel rel) = length (filter f_is_key (r_fields rel))"
    by (simp add: extract_keys_rel_def map_filter_def comp_def)
  moreover have "vs = olds"
    using assms(1-3)
    by (auto simp: event_statement_def RelationCache_from_rels_def table_names_from_rels_def extract_key_identity_def
        delete_values_def)
  ultimately show ?thesis
    using assms(4) by (metis filter_True length_filter_less less_irrefl)
qed

text \<open>
  A prepared statement outlives the relation's description.  Once an upsert has been prepared for a
  relation, a later Relation message (a column added, the table renamed) updates the names but not the
  statement cache: the next insert still runs the old text, now with the new row's values.
\<close>

lemma relation_change_keeps_old_statement:
  assumes "upsert_stmt_cache self (relation_oid rel) = Some text" and "Toasted \<notin> set r"
    and "encode_params chrono_range r = Ok ps"
  shows "\<exists>self'. pg_on_event chrono_range recording_client \<lparr>ev_op = Insert r, ev_rel = relation_oid rel\<rparr>
      (snd (pg_on_relation rel self)) = (Ok (), self') \<and>
    field_lists (relation_cache self') (relation_oid rel) = Some (extract_fields_names rel) \<and>
    pg_conn self' = pg_conn self @ [(text, ps)]"
  using assms
  by (simp add: pg_on_event_def merge_toasted_def run_upsert_def upsert_statement_get_def execute_def
      recording_client_def pg_on_relation_def RelationCache_update_def)

definition wider_counters_rel :: Relation where
  "wider_counters_rel =
     counters_rel\<lparr>r_fields := r_fields counters_rel @ [\<lparr>f_is_key = False, f_name = ''n'', f_kind = FK_Int4\<rparr>]\<rparr>"

lemma relation_change_keeps_old_statement_witness:
  "\<exists>self'. pg_on_event (\<lambda>_. True) recording_client \<lparr>ev_op = Insert [Int4 1, Int4 2], ev_rel = 7\<rparr>
      (snd (pg_on_relation wider_counters_rel
        (counters_sink\<lparr>upsert_stmt_cache := [7 \<mapsto> upsert_gen_str ''counters'' [''id''] [''id'']]\<rparr>))) = (Ok (), self') \<and>
    field_lists (relation_cache self') 7 = Some [''id'', ''n''] \<and>
    pg_conn self' = [(upsert_gen_str ''counters'' [''id''] [''id''], [SqlInt4 1, SqlInt4 2])]"
proof -
  have oid: "relation_oid wider_counters_rel = 7" by (simp add: wider_counters_rel_def counters_rel_def)
  have names: "extract_fields_names wider_counters_rel = [''id'', ''n'']"
    by (simp add: wider_counters_rel_def counters_rel_def extract_fields_names_def)
  show ?thesis
    using relation_change_keeps_old_statement
      [of "counters_sink\<lparr>upsert_stmt_cache := [7 \<mapsto> upsert_gen_str ''counters'' [''id''] [''id'']]\<rparr>"
        wider_counters_rel "upsert_gen_str ''counters'' [''id''] [''id'']" "[Int4 1, Int4 2]" "\<lambda>_. True"
        "[SqlInt4 1, SqlInt4 2]"]
    by (simp add: oid names) (simp add: counters_sink_def)
qed

text \<open>
  C35: the parameters of a DELETE.  For a relation with the default replica identity the producer sends
  one value per key column; the sink then filters them again by the key columns' positions in the
  table, so all of them reach the statement if and only if the key columns are the table's first columns.
\<close>

theorem delete_keeps_key_values_iff:
  assumes "wf_relation_data P rd" and "replica_id (inner rd) = Keys" and "length olds = length (key_indexes rd)"
  shows "delete_params (extract_key_identity (inner rd)) olds = olds \<longleftrightarrow>
    (\<forall>k<length olds. key_indexes rd ! k = k)"
  by (rule delete_params_complete_iff [OF assms])

theorem delete_keeps_key_values_iff_witness:
  "delete_params (extract_key_identity counters_rel) [Int4 1] = [Int4 1]"
proof -
  have wf: "wf_relation_data x86_platform counters_rel_data"
    using wf_relation_mapD [OF counters_wf, of 7 counters_rel_data] by simp
  have "inner counters_rel_data = counters_rel" "key_indexes counters_rel_data = [0]"
    "replica_id counters_rel = Keys"
    by (simp_all add: counters_rel_data_def counters_rel_def)
  then show ?thesis
    using delete_keeps_key_values_iff [OF wf, of "[Int4 1]"] by simp
qed

text \<open>
  The consumer survives.  Over the PostgreSQL sink, whatever the database answers and whatever
  arrives from Kafka, the consuming thread does not panic as long as the timestamps of the events are
  dates that \<open>chrono\<close> can represent, and the relations the sink knows only grow.
\<close>

theorem pg_consumer_survives:
  assumes "postgres_sink_new connect config rels = Inr self"
    and "\<forall>m\<in>set (map projr (filter (Not \<circ> isl) rs)). pg.safe_message chrono_range codec m"
  shows "\<exists>st'. consume_from_kafka codec t (postgres_sink chrono_range cl) rs (initial_consuming self) = Some st' \<and>
    consistent_cache (relation_cache (sink_state st')) \<and> dom rels \<subseteq> dom (table_names (relation_cache (sink_state st')))"
proof -
  have c: "relation_cache self = RelationCache_from_rels rels"
    using assms(1) by (auto simp: postgres_sink_new_def split: sum.splits)
  have "dom (table_names (relation_cache self)) = dom rels"
    by (auto simp: c RelationCache_from_rels_def table_names_from_rels_def)
  moreover have "consistent_cache (relation_cache (sink_state (initial_consuming self)))"
    by (simp add: initial_consuming_def c consistent_cache_from_rels)
  ultimately show ?thesis
    using pg.consume_from_kafka_ready [OF _ assms(2), where st = "initial_consuming self" and cl = cl and t = t]
    by (fastforce simp: initial_consuming_def)
qed

theorem pg_consumer_survives_witness:
  "\<exists>st'. consume_from_kafka sample_reader ''cdc'' (postgres_sink (\<lambda>_. True) recording_client)
      [Inr (sample_message ''cdc.events.public.counters'' 7 0), Inl ''down'',
       Inr (sample_message ''cdc.relations'' 8 0)]
      (initial_consuming counters_sink) = Some st' \<and>
    consistent_cache (relation_cache (sink_state st')) \<and> 7 \<in> dom (table_names (relation_cache (sink_state st')))"
proof -
  let ?ms = "[Inr (sample_message ''cdc.events.public.counters'' 7 0), Inl ''down'',
    Inr (sample_message ''cdc.relations'' 8 0)]"
  let ?config = "\<lparr>cc_host = ''db'', cc_user = ''u'', cc_password = ''p'', cc_port = 5432\<rparr>"
  have new: "postgres_sink_new (\<lambda>_. Inr []) ?config [7 \<mapsto> counters_rel] = Inr counters_sink"
    by (simp add: postgres_sink_new_def counters_sink_def)
  have safe: "\<forall>m\<in>set (map projr (filter (Not \<circ> isl) ?ms)). pg.safe_message (\<lambda>_. True) sample_reader m"
    by (simp add: pg.safe_message_def representable_def)
  show ?thesis
    using pg_consumer_survives [OF new safe, of "''cdc''" recording_client] by auto
qed

end
