(* ===== verification/Feldera_Connector.thy ===== *)
theory Feldera_Connector imports Statements begin

text \<open>
  \<open>feldera-connector/src/main.rs\<close>: the sink that turns events into Feldera's insert/delete updates.
  The REST client, the JSON writer and \<open>chrono\<close>'s calendar are parameters.
\<close>

subsection \<open>Updates\<close>

text \<open>The errors of the connector, with what their messages display.\<close>

datatype FelderaError =
    Feldera string
  | Serialization string
  | UnknownOid u32

definition feldera_error_to_string :: "FelderaError \<Rightarrow> string" where
  "feldera_error_to_string e =
     (case e of
        Feldera s \<Rightarrow> ''Feldera api had an error '' @ s
      | Serialization s \<Rightarrow> ''Serialization '' @ s
      | UnknownOid oid \<Rightarrow> ''Unknow oid '' @ decimal (unat oid))"

type_synonym 'a fres = "(FelderaError, 'a) outcome"

text \<open>A \<open>HashMap<&str, Value>\<close>.\<close>

type_synonym FelderaRow = "string \<rightharpoonup> json_value"

datatype FelderaEvent = FelderaInsert FelderaRow | FelderaDelete FelderaRow

text \<open>\<open>collect()\<close> into the map: a later pair with the same name replaces an earlier one.\<close>

fun collect_row :: "bool \<Rightarrow> (i64 \<Rightarrow> string option) \<Rightarrow> (PgValue \<times> string) list \<Rightarrow> FelderaRow \<Rightarrow> FelderaRow fres" where
  "collect_row chk fmt_micros [] m = Ok m"
| "collect_row chk fmt_micros ((v, f) # ps) m =
     and_then (to_json_value chk fmt_micros v) (\<lambda>j. collect_row chk fmt_micros ps (m(f \<mapsto> j)))"

definition convert_row :: "bool \<Rightarrow> (i64 \<Rightarrow> string option) \<Rightarrow> u32 \<Rightarrow> PgValue list \<Rightarrow>
    (u32 \<rightharpoonup> string list) \<Rightarrow> FelderaRow fres" where
  "convert_row chk fmt_micros oid values field_names =
     (case field_names oid of
        Some names \<Rightarrow> collect_row chk fmt_micros (zip values names) Map.empty
      | None \<Rightarrow> Err (UnknownOid oid))"

fun convert_op_batches :: "bool \<Rightarrow> (i64 \<Rightarrow> string option) \<Rightarrow> (u32 \<rightharpoonup> string list) \<Rightarrow> ChangeEvent list \<Rightarrow>
    FelderaEvent list \<Rightarrow> FelderaEvent list fres" where
  "convert_op_batches chk fmt_micros field_names [] result = Ok result"
| "convert_op_batches chk fmt_micros field_names (op' # batch) result =
     (case ev_op op' of
        Insert r \<Rightarrow>
          and_then (convert_row chk fmt_micros (ev_rel op') r field_names) (\<lambda>new.
            convert_op_batches chk fmt_micros field_names batch (result @ [FelderaInsert new]))
      | Update olds r \<Rightarrow>
          and_then (convert_row chk fmt_micros (ev_rel op') olds field_names) (\<lambda>old'.
          and_then (convert_row chk fmt_micros (ev_rel op') r field_names) (\<lambda>new.
            convert_op_batches chk fmt_micros field_names batch
              (result @ [FelderaDelete old'] @ [FelderaInsert new])))
      | Delete olds \<Rightarrow>
          and_then (convert_row chk fmt_micros (ev_rel op') olds field_names) (\<lambda>old'.
            convert_op_batches chk fmt_micros field_names batch (result @ [FelderaDelete old'])))"

text \<open>\<open>write_json\<close> is \<open>serde_json::to_writer\<close> on an update: its text or an error.\<close>

fun to_lines :: "(FelderaEvent \<Rightarrow> string + string) \<Rightarrow> FelderaEvent list \<Rightarrow> string \<Rightarrow> string + string" where
  "to_lines write_json [] result = Inr result"
| "to_lines write_json (op' # batch) result =
     (case write_json op' of
        Inl e \<Rightarrow> Inl e
      | Inr json \<Rightarrow> to_lines write_json batch (result @ json @ [CHR 0x0A]))"

subsection \<open>The sink\<close>

record InputRequest =
  rq_pipeline :: string
  rq_table :: string
  rq_format :: string
  rq_update_format :: string
  rq_force :: bool
  rq_body :: string

record 'c FelderaConnector =
  fd_inner :: 'c
  fd_pipeline :: string
  fd_table_names :: TableNames
  fd_field_names :: "u32 \<rightharpoonup> string list"

definition extract_names :: "Field list \<Rightarrow> string list" where
  "extract_names names = map f_name names"

definition feldera_new :: "'c \<Rightarrow> string \<Rightarrow> (u32 \<rightharpoonup> Relation) \<Rightarrow> 'c FelderaConnector" where
  "feldera_new clt pipeline relations =
     \<lparr>fd_inner = clt, fd_pipeline = pipeline, fd_table_names = table_names_from_rels relations,
      fd_field_names = (\<lambda>oid. map_option (\<lambda>rel. extract_names (r_fields rel)) (relations oid))\<rparr>"

text \<open>The outside: JSON writing, the calendar and the overflow checks of the build, and the request.\<close>

record 'c feldera_env =
  fe_overflow_checks :: bool
  fe_fmt_micros :: "i64 \<Rightarrow> string option"
  fe_write_json :: "FelderaEvent \<Rightarrow> string + string"
  fe_send :: "InputRequest \<Rightarrow> 'c \<Rightarrow> (string + unit) \<times> 'c"

definition insert_batch :: "'c feldera_env \<Rightarrow> string \<Rightarrow> ChangeEvent list \<Rightarrow> 'c FelderaConnector \<Rightarrow>
    unit fres \<times> 'c FelderaConnector" where
  "insert_batch env table records self =
     (case convert_op_batches (fe_overflow_checks env) (fe_fmt_micros env) (fd_field_names self) records [] of
        Panic \<Rightarrow> (Panic, self)
      | Err e \<Rightarrow> (Err e, self)
      | Ok events \<Rightarrow>
          (case to_lines (fe_write_json env) events [] of
             Inl e \<Rightarrow> (Err (Serialization e), self)
           | Inr json_str \<Rightarrow>
               (case fe_send env
                       \<lparr>rq_pipeline = fd_pipeline self, rq_table = table, rq_format = ''json'',
                        rq_update_format = ''insert_delete'', rq_force = False, rq_body = json_str\<rparr>
                       (fd_inner self) of
                  (Inl e, c) \<Rightarrow> (Err (Feldera e), self\<lparr>fd_inner := c\<rparr>)
                | (Inr _, c) \<Rightarrow> (Ok (), self\<lparr>fd_inner := c\<rparr>))))"

definition feldera_on_event :: "'c feldera_env \<Rightarrow> ChangeEvent \<Rightarrow> 'c FelderaConnector \<Rightarrow> sres \<times> 'c FelderaConnector" where
  "feldera_on_event env event self =
     (let (merged, op') = merge_toasted (ev_op event)
      in if merged \<noteq> Ok () then (Err ToastedInKeyOnly, self)
         else (case table_names_get (fd_table_names self) (ev_rel event) of
                 None \<Rightarrow> (Err (UnknownRelation (ev_rel event)), self)
               | Some table \<Rightarrow>
                   (case insert_batch env table [event\<lparr>ev_op := op'\<rparr>] self of
                      (Ok _, self') \<Rightarrow> (Ok (), self')
                    | (Err (UnknownOid oid), self') \<Rightarrow> (Err (UnknownRelation oid), self')
                    | (Err e, self') \<Rightarrow> (Err (Platform (feldera_error_to_string e)), self')
                    | (Panic, self') \<Rightarrow> (Panic, self'))))"

definition feldera_on_relation :: "Relation \<Rightarrow> 'c FelderaConnector \<Rightarrow> sres \<times> 'c FelderaConnector" where
  "feldera_on_relation relation self =
     (Ok (), self\<lparr>fd_table_names := table_names_insert (fd_table_names self) (relation_oid relation) (r_name relation),
                  fd_field_names := (fd_field_names self)(relation_oid relation \<mapsto> extract_names (r_fields relation))\<rparr>)"

definition feldera_sink :: "'c feldera_env \<Rightarrow> 'c FelderaConnector sink" where
  "feldera_sink env = \<lparr>s_on_event = feldera_on_event env, s_on_relation = feldera_on_relation\<rparr>"

subsection \<open>Rows\<close>

lemma to_json_value_Panic_iff:
  "to_json_value chk fmt v = Panic \<longleftrightarrow>
     (\<exists>t. v = Timestamp t \<and> chk \<and> \<not> (sint t + sint pg_epoch_to_unix_micros < 2 ^ 63))"
proof (cases v)
  case (Timestamp t)
  have "- (2 ^ 63) \<le> sint t" using sint_greater_eq [of t] by simp
  then have "- (2 ^ 63) \<le> sint t + sint pg_epoch_to_unix_micros"
    by (simp add: pg_epoch_to_unix_micros_def)
  then show ?thesis
    by (auto simp: Timestamp add_i64_def outcome_inv split: option.splits)
qed simp_all

lemma to_json_value_not_Err [simp]: "to_json_value chk fmt v \<noteq> Err e"
  by (cases v) (auto simp: outcome_inv add_i64_def split: option.splits)

text \<open>A value whose JSON form needs no date beyond the range of \<open>i64\<close>.\<close>

definition json_safe :: "PgValue \<Rightarrow> bool" where
  "json_safe v = (case v of Timestamp t \<Rightarrow> sint t + sint pg_epoch_to_unix_micros < 2 ^ 63 | _ \<Rightarrow> True)"

lemma json_safe_value: "json_safe v \<Longrightarrow> to_json_value chk fmt v \<noteq> Panic"
  by (auto simp: to_json_value_Panic_iff json_safe_def)

definition json_of :: "bool \<Rightarrow> (i64 \<Rightarrow> string option) \<Rightarrow> PgValue \<Rightarrow> json_value" where
  "json_of chk fmt v = (case (to_json_value chk fmt v :: json_value fres) of Ok j \<Rightarrow> j | _ \<Rightarrow> JNull)"

lemma to_json_value_safe:
  "json_safe v \<Longrightarrow> (to_json_value chk fmt v :: json_value fres) = Ok (json_of chk fmt v)"
  using json_safe_value [of v chk fmt, where ?'a = FelderaError] to_json_value_not_Err [of chk fmt v]
  by (cases "to_json_value chk fmt v :: json_value fres") (auto simp: json_of_def)

lemma collect_row_safe:
  "\<forall>p\<in>set ps. json_safe (fst p) \<Longrightarrow>
   collect_row chk fmt ps m = Ok (m ++ map_of (rev (map (\<lambda>(v, f). (f, json_of chk fmt v)) ps)))"
  by (induction ps arbitrary: m) (auto simp: to_json_value_safe map_add_assoc [symmetric])

text \<open>The row as the specification has it: each column's name with the JSON form of its value.\<close>

definition row_map :: "bool \<Rightarrow> (i64 \<Rightarrow> string option) \<Rightarrow> string list \<Rightarrow> PgValue list \<Rightarrow> FelderaRow" where
  "row_map chk fmt names vs = map_of (zip names (map (json_of chk fmt) vs))"

lemma convert_row_safe:
  assumes "field_names oid = Some names" and "distinct names" and "\<forall>v\<in>set vs. json_safe v"
  shows "convert_row chk fmt oid vs field_names = Ok (row_map chk fmt names vs)"
proof -
  let ?ps = "map (\<lambda>(v, f). (f, json_of chk fmt v)) (zip vs names)"
  have ps: "?ps = zip names (map (json_of chk fmt) vs)"
    by (simp add: zip_map2 zip_commute [of vs names] split_beta comp_def)
  have "map fst ?ps = take (length vs) names"
    unfolding ps by (simp add: map_fst_zip_take min_def)
  then have "distinct (map fst ?ps)" using assms(2) by simp
  then have "map_of (rev ?ps) = map_of ?ps" by (simp add: map_of_rev_distinct)
  moreover have "\<forall>p\<in>set (zip vs names). json_safe (fst p)"
    using assms(3) by (auto dest: set_zip_leftD)
  ultimately show ?thesis
    using assms(1) collect_row_safe [of "zip vs names" chk fmt Map.empty]
    by (simp add: convert_row_def row_map_def ps)
qed

subsection \<open>The contract\<close>

definition feldera_ready :: "'c FelderaConnector \<Rightarrow> bool" where
  "feldera_ready self \<longleftrightarrow> dom (fd_table_names self) = dom (fd_field_names self)"

definition feldera_safe :: "'c feldera_env \<Rightarrow> ChangeEvent \<Rightarrow> bool" where
  "feldera_safe env ev \<longleftrightarrow> (\<forall>v\<in>op_values (ev_op ev). fe_overflow_checks env \<longrightarrow> json_safe v)"

lemma collect_row_Panic:
  "collect_row chk fmt ps m = Panic \<Longrightarrow> \<exists>p\<in>set ps. chk \<and> \<not> json_safe (fst p)"
proof (induction ps arbitrary: m)
  case Nil
  then show ?case by simp
next
  case (Cons p ps)
  then show ?case
    by (cases p) (fastforce simp: outcome_inv to_json_value_Panic_iff json_safe_def)
qed

lemma collect_row_not_Err: "collect_row chk fmt ps m \<noteq> Err e"
  by (induction ps arbitrary: m) (auto simp: outcome_inv)

lemma convert_row_Panic:
  "convert_row chk fmt oid vs field_names = Panic \<Longrightarrow> \<exists>v\<in>set vs. chk \<and> \<not> json_safe v"
  by (auto simp: convert_row_def dest!: collect_row_Panic dest: set_zip_leftD split: option.splits)

lemma convert_row_Err: "convert_row chk fmt oid vs field_names = Err e \<longleftrightarrow> e = UnknownOid oid \<and> field_names oid = None"
  by (auto simp: convert_row_def collect_row_not_Err split: option.splits)

lemma convert_one_Panic:
  "convert_op_batches chk fmt field_names [op'] [] = Panic \<Longrightarrow> \<exists>v\<in>op_values (ev_op op'). chk \<and> \<not> json_safe v"
  by (cases "ev_op op'") (auto simp: op_values_def outcome_inv dest!: convert_row_Panic)

lemma convert_one_Err:
  "convert_op_batches chk fmt field_names [op'] [] = Err e \<Longrightarrow> e = UnknownOid (ev_rel op') \<and> field_names (ev_rel op') = None"
  by (cases "ev_op op'") (auto simp: outcome_inv convert_row_Err)

lemma insert_batch_names:
  "insert_batch env table records self = (r, self') \<Longrightarrow>
   fd_table_names self' = fd_table_names self \<and> fd_field_names self' = fd_field_names self"
  by (auto simp: insert_batch_def split: outcome.splits sum.splits prod.splits)

lemma feldera_on_event_contract:
  assumes "feldera_ready self" and "feldera_on_event env ev self = (r, self')"
  shows "r = Panic \<Longrightarrow> \<not> feldera_safe env ev"
    and "r = Err (UnknownRelation oid) \<Longrightarrow> oid = ev_rel ev \<and> oid \<notin> dom (fd_table_names self)"
    and "fd_table_names self' = fd_table_names self \<and> fd_field_names self' = fd_field_names self"
proof -
  obtain m op' where m: "merge_toasted (ev_op ev) = (m, op')" by (cases "merge_toasted (ev_op ev)")
  let ?ev = "ev\<lparr>ev_op := op'\<rparr>"
  let ?conv = "convert_op_batches (fe_overflow_checks env) (fe_fmt_micros env) (fd_field_names self) [?ev] []"
  have vals: "op_values op' \<subseteq> op_values (ev_op ev)" using merge_toasted_values [of "ev_op ev"] m by simp
  have known: "fd_table_names self (ev_rel ev) = Some t \<Longrightarrow> fd_field_names self (ev_rel ev) \<noteq> None" for t
    using assms(1) unfolding feldera_ready_def by (metis domI domIff)
  have result: "(m \<noteq> Ok () \<and> r = Err ToastedInKeyOnly \<and> self' = self) \<or>
      (m = Ok () \<and> fd_table_names self (ev_rel ev) = None \<and> r = Err (UnknownRelation (ev_rel ev)) \<and> self' = self) \<or>
      (\<exists>table r'. m = Ok () \<and> fd_table_names self (ev_rel ev) = Some table \<and>
         insert_batch env table [?ev] self = (r', self') \<and>
         (r = Panic \<longrightarrow> r' = Panic) \<and> (r = Err (UnknownRelation oid) \<longrightarrow> r' = Err (UnknownOid oid)))"
    using assms(2)
    by (auto simp: feldera_on_event_def m table_names_get_def Let_def
        split: if_splits option.splits prod.splits outcome.splits FelderaError.splits)
  show "\<not> feldera_safe env ev" if "r = Panic"
  proof -
    from result that obtain table where "insert_batch env table [?ev] self = (Panic, self')" by auto
    then have "?conv = Panic" by (auto simp: insert_batch_def split: outcome.splits sum.splits prod.splits)
    from convert_one_Panic [OF this] show ?thesis using vals by (auto simp: feldera_safe_def)
  qed
  show "oid = ev_rel ev \<and> oid \<notin> dom (fd_table_names self)" if "r = Err (UnknownRelation oid)"
    using result
  proof (elim disjE exE conjE)
    fix table r'
    assume t: "fd_table_names self (ev_rel ev) = Some table" "insert_batch env table [?ev] self = (r', self')"
      "r = Err (UnknownRelation oid) \<longrightarrow> r' = Err (UnknownOid oid)"
    then have "?conv = Err (UnknownOid oid)"
      using that by (auto simp: insert_batch_def split: outcome.splits sum.splits prod.splits)
    from convert_one_Err [OF this] known [OF t(1)] show ?thesis by simp
  qed (use that in auto)
  show "fd_table_names self' = fd_table_names self \<and> fd_field_names self' = fd_field_names self"
    using result insert_batch_names by fastforce
qed

text \<open>The Feldera sink keeps the contract of the trait, over every client.\<close>

lemma feldera_kafka_sink:
  "kafka_sink (feldera_sink env) feldera_ready (\<lambda>self. dom (fd_table_names self)) (feldera_safe env)"
proof
  fix self self' :: "'a FelderaConnector" and rel r
  assume "feldera_ready self" "s_on_relation (feldera_sink env) rel self = (r, self')"
  then show "r = Ok () \<and> feldera_ready self' \<and>
      dom (fd_table_names self') = insert (relation_oid rel) (dom (fd_table_names self))"
    unfolding feldera_sink_def feldera_on_relation_def feldera_ready_def table_names_insert_def
    by clarsimp
next
  fix self self' :: "'a FelderaConnector" and ev r
  assume a: "feldera_ready self" "feldera_safe env ev" "s_on_event (feldera_sink env) ev self = (r, self')"
  then have e: "feldera_on_event env ev self = (r, self')" by (simp add: feldera_sink_def)
  show "r \<noteq> Panic \<and> feldera_ready self' \<and> dom (fd_table_names self') = dom (fd_table_names self)"
    using feldera_on_event_contract(1,3) [OF a(1) e] a by (auto simp: feldera_ready_def)
next
  fix self self' :: "'a FelderaConnector" and ev oid
  assume a: "feldera_ready self" "s_on_event (feldera_sink env) ev self = (Err (UnknownRelation oid), self')"
  then show "oid = ev_rel ev \<and> oid \<notin> dom (fd_table_names self)"
    using feldera_on_event_contract(2) [OF a(1)] by (fastforce simp: feldera_sink_def)
qed

interpretation feldera: kafka_sink "feldera_sink env" feldera_ready "\<lambda>self. dom (fd_table_names self)"
    "feldera_safe env" for env
  by (rule feldera_kafka_sink)

subsection \<open>What an event posts\<close>

definition event_updates :: "bool \<Rightarrow> (i64 \<Rightarrow> string option) \<Rightarrow> string list \<Rightarrow> Op \<Rightarrow> FelderaEvent list" where
  "event_updates chk fmt names op' =
     (case snd (merge_toasted op') of
        Insert r \<Rightarrow> [FelderaInsert (row_map chk fmt names r)]
      | Update olds r \<Rightarrow> [FelderaDelete (row_map chk fmt names olds), FelderaInsert (row_map chk fmt names r)]
      | Delete olds \<Rightarrow> [FelderaDelete (row_map chk fmt names olds)])"

lemma convert_one_updates:
  assumes "field_names (ev_rel ev) = Some names" and "distinct names"
    and "\<forall>v\<in>op_values (ev_op ev). json_safe v" and "op' = snd (merge_toasted (ev_op ev))"
  shows "convert_op_batches chk fmt field_names [ev\<lparr>ev_op := op'\<rparr>] [] =
    Ok (event_updates chk fmt names (ev_op ev))"
proof -
  have "\<forall>v\<in>op_values (snd (merge_toasted (ev_op ev))). json_safe v"
    using assms(3) merge_toasted_values by blast
  then show ?thesis
    unfolding assms(4) using convert_row_safe [where field_names = field_names, OF assms(1,2)]
    by (cases "snd (merge_toasted (ev_op ev))") (auto simp: event_updates_def op_values_def)
qed

lemma to_lines_append:
  "to_lines w (xs @ ys) s = (case to_lines w xs s of Inl e \<Rightarrow> Inl e | Inr s' \<Rightarrow> to_lines w ys s')"
  by (induction w xs s rule: to_lines.induct) (auto split: sum.splits)

lemma to_lines_total:
  assumes "\<And>e. w e = Inr (json e)"
  shows "to_lines w es s = Inr (s @ concat (map (\<lambda>e. json e @ [CHR 0x0A]) es))"
  by (induction es arbitrary: s) (simp_all add: assms)

lemma collect_row_Panic_iff:
  "collect_row chk fmt ps m = Panic \<longleftrightarrow> (\<exists>p\<in>set ps. chk \<and> \<not> json_safe (fst p))"
proof
  show "\<exists>p\<in>set ps. chk \<and> \<not> json_safe (fst p)" if "collect_row chk fmt ps m = Panic"
    using collect_row_Panic [OF that] .
  show "collect_row chk fmt ps m = Panic" if "\<exists>p\<in>set ps. chk \<and> \<not> json_safe (fst p)"
    using that
  proof (induction ps arbitrary: m)
    case Nil
    then show ?case by simp
  next
    case (Cons p ps)
    obtain v f where p: "p = (v, f)" by (cases p)
    show ?case
    proof (cases "(to_json_value chk fmt v :: json_value fres) = Panic")
      case True
      then show ?thesis by (simp add: p)
    next
      case False
      then have "\<not> (chk \<and> \<not> json_safe v)"
        by (auto simp: to_json_value_Panic_iff json_safe_def split: PgValue.splits)
      then have "\<exists>p\<in>set ps. chk \<and> \<not> json_safe (fst p)" using Cons.prems by (auto simp: p)
      from Cons.IH [OF this] show ?thesis
        by (cases "to_json_value chk fmt v :: json_value fres") (auto simp: p)
    qed
  qed
qed

lemma insert_batch_Panic_iff:
  "fst (insert_batch env table records self) = Panic \<longleftrightarrow>
   convert_op_batches (fe_overflow_checks env) (fe_fmt_micros env) (fd_field_names self) records [] = Panic"
  by (auto simp: insert_batch_def split: outcome.split sum.split prod.split)

lemma feldera_on_event_Panic_iff:
  assumes "merge_toasted (ev_op ev) = (Ok (), op')" and "fd_table_names self (ev_rel ev) = Some table"
  shows "fst (feldera_on_event env ev self) = Panic \<longleftrightarrow>
    fst (insert_batch env table [ev\<lparr>ev_op := op'\<rparr>] self) = Panic"
proof -
  obtain r self' where "insert_batch env table [ev\<lparr>ev_op := op'\<rparr>] self = (r, self')" by fastforce
  then show ?thesis
    using assms
    by (cases r) (auto simp: feldera_on_event_def table_names_get_def split: FelderaError.split)
qed

subsection \<open>Properties\<close>

text \<open>The connector for the table of the example stream, over a service that records the requests.\<close>

definition recording_env :: "bool \<Rightarrow> InputRequest list feldera_env" where
  "recording_env chk =
     \<lparr>fe_overflow_checks = chk, fe_fmt_micros = (\<lambda>_. None),
      fe_write_json = (\<lambda>e. Inr (case e of FelderaInsert _ \<Rightarrow> ''+'' | FelderaDelete _ \<Rightarrow> ''-'')),
      fe_send = (\<lambda>rq log. (Inr (), log @ [rq]))\<rparr>"

definition counters_connector :: "InputRequest list FelderaConnector" where
  "counters_connector = feldera_new [] ''p'' [7 \<mapsto> counters_rel]"

lemma counters_connector_names:
  "fd_table_names counters_connector 7 = Some ''counters''" "fd_field_names counters_connector 7 = Some [''id'']"
  by (simp_all add: counters_connector_def feldera_new_def table_names_from_rels_def counters_rel_def
      extract_names_def)

text \<open>
  C23: for an event of a relation it knows, the Feldera sink makes one request on the relation's table
  with one line per update, in order: an insert posts the new row, a delete the old one, an update the
  deletion of the old row and then the insertion of the new one; each row pairs the column names with
  the JSON forms of the values.  The outcome is that of the request.
\<close>

theorem event_posts_updates:
  assumes "fd_table_names self (ev_rel ev) = Some table" and "fd_field_names self (ev_rel ev) = Some names"
    and "distinct names" and "\<forall>v\<in>op_values (ev_op ev). json_safe v"
    and "fst (merge_toasted (ev_op ev)) = Ok ()" and "\<And>e. fe_write_json env e = Inr (json e)"
  shows "feldera_on_event env ev self =
    (case fe_send env
            \<lparr>rq_pipeline = fd_pipeline self, rq_table = table, rq_format = ''json'',
             rq_update_format = ''insert_delete'', rq_force = False,
             rq_body = concat (map (\<lambda>e. json e @ [CHR 0x0A])
               (event_updates (fe_overflow_checks env) (fe_fmt_micros env) names (ev_op ev)))\<rparr> (fd_inner self) of
       (Inl e, c) \<Rightarrow> (Err (Platform (''Feldera api had an error '' @ e)), self\<lparr>fd_inner := c\<rparr>)
     | (Inr _, c) \<Rightarrow> (Ok (), self\<lparr>fd_inner := c\<rparr>))"
proof -
  obtain op' where m: "merge_toasted (ev_op ev) = (Ok (), op')"
    using assms(5) by (cases "merge_toasted (ev_op ev)") simp
  have "convert_op_batches (fe_overflow_checks env) (fe_fmt_micros env) (fd_field_names self) [ev\<lparr>ev_op := op'\<rparr>] [] =
      Ok (event_updates (fe_overflow_checks env) (fe_fmt_micros env) names (ev_op ev))"
    using convert_one_updates [where field_names = "fd_field_names self", OF assms(2-4)] m by simp
  then show ?thesis
    using assms(1)
    by (simp add: feldera_on_event_def m table_names_get_def insert_batch_def
        to_lines_total [of "fe_write_json env", OF assms(6)] feldera_error_to_string_def
        split: prod.split sum.split)
qed

theorem event_posts_updates_witness:
  "feldera_on_event (recording_env True) \<lparr>ev_op = Update [Int4 1] [Int4 2], ev_rel = 7\<rparr> counters_connector =
     (Ok (), counters_connector\<lparr>fd_inner :=
        [\<lparr>rq_pipeline = ''p'', rq_table = ''counters'', rq_format = ''json'', rq_update_format = ''insert_delete'',
          rq_force = False, rq_body = [CHR ''-'', CHR 0x0A, CHR ''+'', CHR 0x0A]\<rparr>]\<rparr>)"
proof -
  let ?ev = "\<lparr>ev_op = Update [Int4 1] [Int4 2], ev_rel = 7\<rparr>"
  let ?json = "\<lambda>e. case e of FelderaInsert _ \<Rightarrow> ''+'' | FelderaDelete _ \<Rightarrow> ''-''"
  have m: "merge_toasted (ev_op ?ev) = (Ok (), ev_op ?ev)" by (simp add: merge_toasted_def)
  have s: "\<forall>v\<in>op_values (ev_op ?ev). json_safe v" by (simp add: op_values_def json_safe_def)
  have w: "fe_write_json (recording_env True) e = Inr (?json e)" for e by (simp add: recording_env_def)
  have names: "fd_table_names counters_connector (ev_rel ?ev) = Some ''counters''"
    "fd_field_names counters_connector (ev_rel ?ev) = Some [''id'']"
    using counters_connector_names by simp_all
  have "fd_pipeline counters_connector = ''p''" "fd_inner counters_connector = []"
    by (simp_all add: counters_connector_def feldera_new_def)
  then show ?thesis
    using event_posts_updates [OF names _ s _ w] m
    by (simp add: event_updates_def) (simp add: recording_env_def)
qed

text \<open>
  C34: an insert into a known table brings the connector down exactly when the build checks overflow and
  some column value is a timestamp too close to the end of \<open>i64\<close>; PostgreSQL's \<open>infinity\<close>, sent as the
  largest \<open>i64\<close>, is such a value.
\<close>

theorem insert_panics_iff_timestamp_overflows:
  assumes "fd_table_names self rel = Some table" and "fd_field_names self rel = Some names"
    and "length r \<le> length names"
  shows "fst (feldera_on_event env \<lparr>ev_op = Insert r, ev_rel = rel\<rparr> self) = Panic \<longleftrightarrow>
    fe_overflow_checks env \<and>
    (\<exists>t. Timestamp t \<in> set r \<and> 2 ^ 63 \<le> sint t + sint pg_epoch_to_unix_micros)"
proof -
  let ?row = "\<lambda>chk fmt. collect_row chk fmt (zip r names) Map.empty"
  have fst: "fst ` set (zip r names) = set r"
    using assms(3) by (simp add: map_fst_zip_take flip: set_map)
  have safe: "\<not> json_safe v \<longleftrightarrow> (\<exists>t. v = Timestamp t \<and> 2 ^ 63 \<le> sint t + sint pg_epoch_to_unix_micros)" for v
    by (auto simp: json_safe_def not_less split: PgValue.splits)
  let ?ev = "\<lparr>ev_op = Insert r, ev_rel = rel\<rparr>"
  have "fst (feldera_on_event env ?ev self) = Panic \<longleftrightarrow> ?row (fe_overflow_checks env) (fe_fmt_micros env) = Panic"
    using feldera_on_event_Panic_iff [of ?ev "Insert r" self table env] assms(1,2)
    by (cases "?row (fe_overflow_checks env) (fe_fmt_micros env)")
      (simp_all add: insert_batch_Panic_iff merge_toasted_def convert_row_def)
  also have "\<dots> \<longleftrightarrow> fe_overflow_checks env \<and> (\<exists>v\<in>set r. \<not> json_safe v)"
    unfolding collect_row_Panic_iff fst [symmetric] by auto
  finally show ?thesis unfolding safe by auto
qed

theorem insert_panics_iff_timestamp_overflows_witness:
  "fst (feldera_on_event (recording_env True) \<lparr>ev_op = Insert [Timestamp 0x7FFFFFFFFFFFFFFF], ev_rel = 7\<rparr>
     counters_connector) = Panic"
proof -
  have "2 ^ 63 \<le> sint (0x7FFFFFFFFFFFFFFF :: i64) + sint pg_epoch_to_unix_micros"
    by (simp add: pg_epoch_to_unix_micros_def)
  then show ?thesis
    using insert_panics_iff_timestamp_overflows [OF counters_connector_names,
        of "[Timestamp 0x7FFFFFFFFFFFFFFF]" "recording_env True"]
    by (simp add: recording_env_def)
qed

end
