(* ===== verification/Connector_Main.thy ===== *)
theory Connector_Main imports Pg_Connector Feldera_Connector begin

text \<open>
  The \<open>main\<close> functions of \<open>postgres-connector\<close> and \<open>feldera-connector\<close> from the point where the
  configuration is loaded, and \<open>KafkaConfig::connect\<close> of \<open>cdc-sink\<close>: connect to Kafka, load the
  relations, build the sink, subscribe and consume.  \<open>None\<close> stands for a panic, at start that of an
  \<open>expect\<close>.
\<close>

subsection \<open>Connecting\<close>

record KafkaClient =
  kcl_consumer :: consumer
  kcl_topic :: string

definition kafka_connect :: "((string \<times> string) list \<Rightarrow> string + consumer) \<Rightarrow> SinkKafkaConfig \<Rightarrow> KafkaClient option" where
  "kafka_connect create self =
     (case create (consumer_settings self) of
        Inl e \<Rightarrow> None
      | Inr c \<Rightarrow> Some \<lparr>kcl_consumer = c, kcl_topic = sk_topic self\<rparr>)"

text \<open>
  Kafka as the connector meets it: the creation of a consumer, what its stream yields while the
  relations are loaded, the subscription, and what the stream yields after it.
\<close>

record kafka_world =
  kw_create :: "(string \<times> string) list \<Rightarrow> string + consumer"
  kw_relations :: "(nat \<times> (string + byte list option)) list"
  kw_subscribe :: "string list \<Rightarrow> string + unit"
  kw_stream :: "(string + message) list"

definition connect_and_load :: "avro_reader \<Rightarrow> kafka_world \<Rightarrow> SinkKafkaConfig \<Rightarrow> (u32 \<rightharpoonup> Relation) option" where
  "connect_and_load codec w config =
     (case kafka_connect (kw_create w) config of
        None \<Rightarrow> None
      | Some kafka \<Rightarrow>
          (case load_relations codec (kcl_consumer kafka) (kcl_topic kafka) (kw_relations w) of
             Inl e \<Rightarrow> None
           | Inr relations \<Rightarrow> Some relations))"

definition subscribe_and_consume :: "avro_reader \<Rightarrow> kafka_world \<Rightarrow> SinkKafkaConfig \<Rightarrow> 's sink \<Rightarrow> 's \<Rightarrow> 's consuming option" where
  "subscribe_and_consume codec w config ops s =
     (case kw_subscribe w (subscription (sk_topic config)) of
        Inl e \<Rightarrow> None
      | Inr _ \<Rightarrow> consume_from_kafka codec (sk_topic config) ops (kw_stream w) (initial_consuming s))"

subsection \<open>The PostgreSQL connector\<close>

record PgBridgeConfig =
  pb_kafka :: SinkKafkaConfig
  pb_postgres :: ConnectorConfig
  pb_metrics :: u16

definition pg_main :: "avro_reader \<Rightarrow> kafka_world \<Rightarrow> (string \<Rightarrow> string + 'c) \<Rightarrow> (i64 \<Rightarrow> bool) \<Rightarrow> ('c, 'q) pg_client \<Rightarrow>
    PgBridgeConfig \<Rightarrow> ('c, 'q) PostgresSink consuming option" where
  "pg_main codec w connect chrono_range cl config =
     (case connect_and_load codec w (pb_kafka config) of
        None \<Rightarrow> None
      | Some relations \<Rightarrow>
          (case postgres_sink_new connect (pb_postgres config) relations of
             Inl e \<Rightarrow> None
           | Inr s \<Rightarrow> subscribe_and_consume codec w (pb_kafka config) (postgres_sink chrono_range cl) s))"

subsection \<open>The Feldera connector\<close>

record FelderaConfig =
  fc_url :: string
  fc_pipeline :: string

record FelderaBridgeConfig =
  fb_kafka :: SinkKafkaConfig
  fb_feldera :: FelderaConfig
  fb_metrics :: u16

definition feldera_main :: "avro_reader \<Rightarrow> kafka_world \<Rightarrow> (string \<Rightarrow> 'c) \<Rightarrow> 'c feldera_env \<Rightarrow>
    FelderaBridgeConfig \<Rightarrow> 'c FelderaConnector consuming option" where
  "feldera_main codec w new_client env config =
     (case connect_and_load codec w (fb_kafka config) of
        None \<Rightarrow> None
      | Some relations \<Rightarrow>
          subscribe_and_consume codec w (fb_kafka config) (feldera_sink env)
            (feldera_new (new_client (fc_url (fb_feldera config))) (fc_pipeline (fb_feldera config)) relations))"

subsection \<open>Start-up\<close>

text \<open>Kafka answers: the consumer is created, the partitions are assigned, payloads arrive in time.\<close>

definition kafka_answers :: "kafka_world \<Rightarrow> SinkKafkaConfig \<Rightarrow> (nat \<times> byte list) list \<Rightarrow> bool" where
  "kafka_answers w config ms \<longleftrightarrow>
     (\<exists>c u. kw_create w (consumer_settings config) = Inr c \<and>
        reset_committed_offsets_and_assign c (sk_topic config @ ''.relations'') = Inr u) \<and>
     kw_relations w = map (\<lambda>(e, p). (e, Inr (Some p))) ms \<and> (\<forall>(e, p)\<in>set ms. e < 5000) \<and>
     (\<exists>u. kw_subscribe w (subscription (sk_topic config)) = Inr u)"

definition announced :: "avro_reader \<Rightarrow> (nat \<times> byte list) list \<Rightarrow> u32 set" where
  "announced codec ms = {relation_oid rel |e p rel. (e, p) \<in> set ms \<and> from_avro_relation codec p = Inr rel}"

lemma relations_loaded:
  assumes "kafka_answers w config ms"
  shows "\<exists>rels. connect_and_load codec w config = Some rels \<and> dom rels = announced codec ms"
proof -
  let ?pairs = "List.map_filter
    (\<lambda>(e, p). case from_avro_relation codec p of Inr rel \<Rightarrow> Some (relation_oid rel, rel) | Inl _ \<Rightarrow> None) ms"
  have "fst ` set ?pairs = announced codec ms"
  proof (induction ms)
    case Nil
    then show ?case by (simp add: List.map_filter_simps announced_def)
  next
    case (Cons m ms)
    have "announced codec (m # ms) =
        (case from_avro_relation codec (snd m) of Inr rel \<Rightarrow> {relation_oid rel} | Inl _ \<Rightarrow> {}) \<union> announced codec ms"
      by (cases m) (auto simp: announced_def split: sum.splits)
    then show ?case
      using Cons.IH by (cases m) (auto simp: List.map_filter_simps split: sum.splits)
  qed
  then have "dom (map_of (rev ?pairs)) = announced codec ms" by (simp add: dom_map_of_conv_image_fst)
  moreover obtain c u where c: "kw_create w (consumer_settings config) = Inr c"
    "reset_committed_offsets_and_assign c (sk_topic config @ ''.relations'') = Inr u"
    using assms by (auto simp: kafka_answers_def)
  moreover have t: "\<forall>(e, p)\<in>set ms. e < 5000" "kw_relations w = map (\<lambda>(e, p). (e, Inr (Some p))) ms"
    using assms by (simp_all add: kafka_answers_def)
  ultimately show ?thesis
    using load_relations_loop_payloads [OF t(1), of codec Map.empty]
    by (simp add: connect_and_load_def kafka_connect_def load_relations_def)
qed

text \<open>Over any sink that keeps its contract, consuming goes on and forgets no relation.\<close>

context kafka_sink begin

lemma consuming_survives:
  assumes "kafka_answers w config ms" and "ready s"
    and "\<forall>m\<in>set (map projr (filter (Not \<circ> isl) (kw_stream w))). safe_message codec m"
  shows "\<exists>st'. subscribe_and_consume codec w config ops s = Some st' \<and> ready (sink_state st') \<and>
    known s \<subseteq> known (sink_state st')"
proof -
  have "kw_subscribe w (subscription (sk_topic config)) = Inr ()"
    using assms(1) by (auto simp: kafka_answers_def)
  then show ?thesis
    using consume_from_kafka_ready [of "initial_consuming s" "kw_stream w" codec "sk_topic config"] assms(2,3)
    by (simp add: subscribe_and_consume_def initial_consuming_def)
qed

end

lemma feldera_main_survives:
  assumes "kafka_answers w (fb_kafka config) ms"
    and "\<forall>m\<in>set (map projr (filter (Not \<circ> isl) (kw_stream w))). kafka_sink.safe_message (feldera_safe env) codec m"
  shows "\<exists>st'. feldera_main codec w new_client env config = Some st' \<and>
    announced codec ms \<subseteq> dom (fd_table_names (sink_state st'))"
proof -
  obtain rels where rels: "connect_and_load codec w (fb_kafka config) = Some rels" "dom rels = announced codec ms"
    using relations_loaded [OF assms(1)] by blast
  let ?s = "feldera_new (new_client (fc_url (fb_feldera config))) (fc_pipeline (fb_feldera config)) rels"
  have names: "dom (fd_table_names ?s) = dom rels" "dom (fd_field_names ?s) = dom rels"
    by (auto simp: feldera_new_def table_names_from_rels_def)
  then have "feldera_ready ?s" by (simp add: feldera_ready_def)
  from feldera.consuming_survives [OF assms(1) this assms(2)] show ?thesis
    using rels names by (auto simp: feldera_main_def)
qed

subsection \<open>Properties\<close>

text \<open>
  C26: the PostgreSQL connector starts and goes on.  When Kafka and the database can be reached, \<open>main\<close>
  gets past its \<open>expect\<close>s to the consuming loop, and there, whatever the database answers and whatever
  arrives from Kafka, it does not panic as long as the timestamps of the events are dates that \<open>chrono\<close>
  can represent.  It knows, from then on, every relation announced in the relations topic, and its four
  caches always speak of the same relations.
\<close>

theorem pg_main_survives:
  fixes cl :: "('c, 'q) pg_client"
  assumes "kafka_answers w (pb_kafka config) ms" and "connect (to_postgres_string (pb_postgres config)) = Inr c"
    and "\<forall>m\<in>set (map projr (filter (Not \<circ> isl) (kw_stream w))). pg.safe_message chrono_range codec m"
  shows "\<exists>st'. pg_main codec w connect chrono_range cl config = Some st' \<and>
    consistent_cache (relation_cache (sink_state st')) \<and>
    announced codec ms \<subseteq> dom (table_names (relation_cache (sink_state st')))"
proof -
  obtain rels where rels: "connect_and_load codec w (pb_kafka config) = Some rels" "dom rels = announced codec ms"
    using relations_loaded [OF assms(1)] by blast
  obtain s :: "('c, 'q) PostgresSink" where s: "postgres_sink_new connect (pb_postgres config) rels = Inr s"
    "relation_cache s = RelationCache_from_rels rels"
    using assms(2) by (simp add: postgres_sink_new_def)
  have names: "dom (table_names (relation_cache s)) = dom rels"
    by (auto simp: s(2) RelationCache_from_rels_def table_names_from_rels_def)
  have "consistent_cache (relation_cache s)" by (simp add: s(2) consistent_cache_from_rels)
  from pg.consuming_survives [OF assms(1) this assms(3)] show ?thesis
    using rels names s(1) by (auto simp: pg_main_def)
qed

definition sample_world :: kafka_world where
  "sample_world =
     \<lparr>kw_create = (\<lambda>_. Inr sample_consumer), kw_relations = [(10, Inr (Some (to_be_bytes (7 :: u32))))],
      kw_subscribe = (\<lambda>_. Inr ()),
      kw_stream = [Inr (sample_message ''cdc.events.public.counters'' 7 0), Inl ''down'',
        Inr (sample_message ''cdc.relations'' 8 0)]\<rparr>"

definition sample_bridge :: PgBridgeConfig where
  "sample_bridge =
     \<lparr>pb_kafka = \<lparr>sk_brokers = ''b'', sk_topic = ''cdc'', sk_groupid = ''g''\<rparr>,
      pb_postgres = \<lparr>cc_host = ''db'', cc_user = ''u'', cc_password = ''p'', cc_port = 5432\<rparr>, pb_metrics = 9000\<rparr>"

theorem pg_main_survives_witness:
  "\<exists>st'. pg_main sample_reader sample_world (\<lambda>_. Inr []) (\<lambda>_. True) recording_client sample_bridge = Some st' \<and>
    consistent_cache (relation_cache (sink_state st')) \<and> 7 \<in> dom (table_names (relation_cache (sink_state st')))"
proof -
  have k: "kafka_answers sample_world (pb_kafka sample_bridge) [(10, to_be_bytes (7 :: u32))]"
    by (simp add: kafka_answers_def sample_world_def sample_consumer_def reset_committed_offsets_and_assign_def)
  have db: "(\<lambda>_. Inr []) (to_postgres_string (pb_postgres sample_bridge)) = Inr []" by simp
  have safe: "\<forall>m\<in>set (map projr (filter (Not \<circ> isl) (kw_stream sample_world))).
      pg.safe_message (\<lambda>_. True) sample_reader m"
    by (simp add: pg.safe_message_def representable_def)
  have "announced sample_reader [(10, to_be_bytes (7 :: u32))] = {7}"
    by (simp add: announced_def sample_reader_def)
  then show ?thesis using pg_main_survives [OF k db safe, of recording_client] by auto
qed

end
