(* ===== verification/Configuration.thy ===== *)
theory Configuration imports Producer_Main Connector_Main begin

text \<open>
  The loading of the configurations (\<open>cdc-producer/src/main.rs\<close>, \<open>postgres-connector/src/main.rs\<close>,
  \<open>feldera-connector/src/main.rs\<close> and the structs of \<open>cdc-wal-reader\<close> and \<open>cdc-sink\<close> that derive
  \<open>Deserialize\<close>): the sources each program names, and which settings are required or have a default.
  The crate \<open>config\<close> is a parameter; its documentation is the locale \<open>config_library\<close>.
\<close>

subsection \<open>The crate \<open>config\<close>\<close>

text \<open>
  \<open>File::with_name(..).required(..)\<close> and \<open>Environment::with_prefix(..).separator(..)\<close>.  What is built is a
  tree of tables with scalars of the crate's own type at the leaves, given by its nodes.
\<close>

datatype config_source = ConfigFile string bool | ConfigEnvironment string string

datatype 'v node = Scalar 'v | Table

type_synonym 'v settings = "string list \<rightharpoonup> 'v node"

record 'v config_crate =
  cr_build :: "config_source list \<Rightarrow> string + 'v settings"
  cr_string :: "'v \<Rightarrow> (string, string) outcome"
  cr_u16 :: "'v \<Rightarrow> (string, u16) outcome"
  cr_bool :: "'v \<Rightarrow> (string, bool) outcome"

text \<open>Derived deserializers: a field without a default must be there, a table is not a scalar.\<close>

fun scalar :: "('v \<Rightarrow> (string, 'a) outcome) \<Rightarrow> 'v node \<Rightarrow> (string, 'a) outcome" where
  "scalar conv (Scalar v) = conv v"
| "scalar conv Table = Err ''invalid type: map''"

definition required :: "('v \<Rightarrow> (string, 'a) outcome) \<Rightarrow> 'v settings \<Rightarrow> string list \<Rightarrow> (string, 'a) outcome" where
  "required conv c path =
     (case c path of Some n \<Rightarrow> scalar conv n | None \<Rightarrow> Err (''missing field '' @ last path))"

definition defaulted :: "'a \<Rightarrow> ('v \<Rightarrow> (string, 'a) outcome) \<Rightarrow> 'v settings \<Rightarrow> string list \<Rightarrow> (string, 'a) outcome" where
  "defaulted d conv c path = (case c path of Some n \<Rightarrow> scalar conv n | None \<Rightarrow> Ok d)"

definition required_table :: "'v settings \<Rightarrow> string \<Rightarrow> (string, 'a) outcome \<Rightarrow> (string, 'a) outcome" where
  "required_table c name body =
     (case c [name] of
        Some Table \<Rightarrow> body
      | Some (Scalar v) \<Rightarrow> Err ''invalid type: expected a struct''
      | None \<Rightarrow> Err (''missing field '' @ name))"

definition defaulted_table :: "'a \<Rightarrow> 'v settings \<Rightarrow> string \<Rightarrow> (string, 'a) outcome \<Rightarrow> (string, 'a) outcome" where
  "defaulted_table d c name body =
     (case c [name] of
        Some Table \<Rightarrow> body
      | Some (Scalar v) \<Rightarrow> Err ''invalid type: expected a struct''
      | None \<Rightarrow> Ok d)"

lemmas settings_defs = required_def defaulted_def required_table_def defaulted_table_def

subsection \<open>The producer\<close>

definition postgres_settings :: "'v config_crate \<Rightarrow> 'v settings \<Rightarrow> (string, PostgresConfig) outcome" where
  "postgres_settings cr c =
     and_then (required (cr_string cr) c [''postgres'', ''host'']) (\<lambda>host.
     and_then (required (cr_string cr) c [''postgres'', ''user'']) (\<lambda>user.
     and_then (required (cr_string cr) c [''postgres'', ''password'']) (\<lambda>password.
     and_then (required (cr_string cr) c [''postgres'', ''slotname'']) (\<lambda>slotname.
     and_then (required (cr_string cr) c [''postgres'', ''dbname'']) (\<lambda>dbname.
     and_then (required (cr_string cr) c [''postgres'', ''publication'']) (\<lambda>publication.
     and_then (defaulted default_port (cr_u16 cr) c [''postgres'', ''port'']) (\<lambda>port.
       Ok \<lparr>pg_host = host, pg_user = user, pg_password = password, pg_slotname = slotname,
           pg_dbname = dbname, pg_publication = publication, pg_port = port\<rparr>)))))))"

definition producer_kafka_settings :: "'v config_crate \<Rightarrow> 'v settings \<Rightarrow> (string, KafkaConfig) outcome" where
  "producer_kafka_settings cr c =
     and_then (required (cr_string cr) c [''kafka'', ''brokers'']) (\<lambda>brokers.
     and_then (defaulted default_topic (cr_string cr) c [''kafka'', ''topic'']) (\<lambda>topic.
     and_then (required (cr_string cr) c [''kafka'', ''key'']) (\<lambda>key.
       Ok \<lparr>kc_brokers = brokers, kc_topic = topic, kc_key = key\<rparr>)))"

definition producer_metrics_settings :: "'v config_crate \<Rightarrow> 'v settings \<Rightarrow> (string, MetricsConfig) outcome" where
  "producer_metrics_settings cr c =
     and_then (defaulted producer_default_metrics_config (cr_u16 cr) c [''metrics'', ''port'']) (\<lambda>port.
       Ok \<lparr>mc_port = port\<rparr>)"

definition producer_settings :: "'v config_crate \<Rightarrow> 'v settings \<Rightarrow> (string, ProducerConfig) outcome" where
  "producer_settings cr c =
     and_then (required_table c ''postgres'' (postgres_settings cr c)) (\<lambda>postgres.
     and_then (required_table c ''kafka'' (producer_kafka_settings cr c)) (\<lambda>kafka.
     and_then (defaulted_table metrics_config_default c ''metrics'' (producer_metrics_settings cr c)) (\<lambda>metrics.
     and_then (defaulted False (cr_bool cr) c [''will_connect_to_feldera'']) (\<lambda>feldera.
       Ok \<lparr>pc_postgres = postgres, pc_kafka = kafka, pc_metrics = metrics,
           pc_will_connect_to_feldera = feldera\<rparr>))))"

text \<open>\<open>None\<close> is the panic of one of the two \<open>expect\<close>s.\<close>

definition load_settings :: "'v config_crate \<Rightarrow> config_source list \<Rightarrow>
    ('v settings \<Rightarrow> (string, 'a) outcome) \<Rightarrow> 'a option" where
  "load_settings cr sources deserialize =
     (case cr_build cr sources of
        Inl e \<Rightarrow> None
      | Inr c \<Rightarrow> (case deserialize c of Ok config \<Rightarrow> Some config | _ \<Rightarrow> None))"

definition load_producer_config :: "'v config_crate \<Rightarrow> ProducerConfig option" where
  "load_producer_config cr =
     load_settings cr [ConfigFile ''config/cdc-producer'' False, ConfigEnvironment ''CDC_PROD'' ''_'']
       (producer_settings cr)"

text \<open>
  The metrics exporter: \<open>install\<close> starts its listener on a port of every interface, or fails, which is a
  panic; then the metrics are described.
\<close>

type_synonym exporter = "u16 \<Rightarrow> string + unit"

definition producer_init_metrics :: "exporter \<Rightarrow> MetricsConfig \<Rightarrow> (string \<times> string) list option" where
  "producer_init_metrics install config =
     (case install (mc_port config) of
        Inl e \<Rightarrow> None
      | Inr _ \<Rightarrow> Some
          [(''cdc_events_produced_total'', ''The total events produced by cdc-producer''),
           (''cdc_produce_errors_total'', ''The ammount of errors the producer got while producing''),
           (''cdc_lsn_committed'', ''The latest lsn commited''),
           (''cdc_bytes_produced_total'', ''The total bytes produced by the cdc-producer''),
           (''cdc_tuple_parse_duration_seconds'', ''The duration in seconds that we take to parse a certain operation''),
           (''cdc_kafka_lag_seconds'', ''The lag introduced by Kafka, in seconds'')])"

definition producer_program :: "platform \<Rightarrow> 'v config_crate \<Rightarrow> exporter \<Rightarrow> ('d, 'a, 'k) world \<Rightarrow>
    'k main_exit \<times> 'a option" where
  "producer_program P cr install w =
     (case load_producer_config cr of
        None \<Rightarrow> (MainPanicked, None)
      | Some own_config \<Rightarrow>
          (case producer_init_metrics install (pc_metrics own_config) of
             None \<Rightarrow> (MainPanicked, None)
           | Some descriptions \<Rightarrow> producer_main P w own_config))"

subsection \<open>The connectors\<close>

definition sink_kafka_settings :: "'v config_crate \<Rightarrow> 'v settings \<Rightarrow> (string, SinkKafkaConfig) outcome" where
  "sink_kafka_settings cr c =
     and_then (required (cr_string cr) c [''kafka'', ''brokers'']) (\<lambda>brokers.
     and_then (defaulted sink_default_topic (cr_string cr) c [''kafka'', ''topic'']) (\<lambda>topic.
     and_then (defaulted default_group (cr_string cr) c [''kafka'', ''groupid'']) (\<lambda>groupid.
       Ok \<lparr>sk_brokers = brokers, sk_topic = topic, sk_groupid = groupid\<rparr>)))"

definition sink_metrics_settings :: "'v config_crate \<Rightarrow> 'v settings \<Rightarrow> (string, u16) outcome" where
  "sink_metrics_settings cr c = defaulted default_metrics_config (cr_u16 cr) c [''metrics'', ''port'']"

definition connector_postgres_settings :: "'v config_crate \<Rightarrow> 'v settings \<Rightarrow> (string, ConnectorConfig) outcome" where
  "connector_postgres_settings cr c =
     and_then (required (cr_string cr) c [''postgres'', ''host'']) (\<lambda>host.
     and_then (required (cr_string cr) c [''postgres'', ''user'']) (\<lambda>user.
     and_then (required (cr_string cr) c [''postgres'', ''password'']) (\<lambda>password.
     and_then (required (cr_u16 cr) c [''postgres'', ''port'']) (\<lambda>port.
       Ok \<lparr>cc_host = host, cc_user = user, cc_password = password, cc_port = port\<rparr>))))"

definition pg_bridge_settings :: "'v config_crate \<Rightarrow> 'v settings \<Rightarrow> (string, PgBridgeConfig) outcome" where
  "pg_bridge_settings cr c =
     and_then (required_table c ''kafka'' (sink_kafka_settings cr c)) (\<lambda>kafka.
     and_then (required_table c ''postgres'' (connector_postgres_settings cr c)) (\<lambda>postgres.
     and_then (defaulted_table default_metrics_config c ''metrics'' (sink_metrics_settings cr c)) (\<lambda>metrics.
       Ok \<lparr>pb_kafka = kafka, pb_postgres = postgres, pb_metrics = metrics\<rparr>)))"

definition load_pg_config :: "'v config_crate \<Rightarrow> PgBridgeConfig option" where
  "load_pg_config cr =
     load_settings cr [ConfigFile ''config/postgres-connector'' False, ConfigEnvironment ''PG_CONN'' ''_'']
       (pg_bridge_settings cr)"

definition feldera_settings :: "'v config_crate \<Rightarrow> 'v settings \<Rightarrow> (string, FelderaConfig) outcome" where
  "feldera_settings cr c =
     and_then (required (cr_string cr) c [''feldera'', ''url'']) (\<lambda>url.
     and_then (required (cr_string cr) c [''feldera'', ''pipeline'']) (\<lambda>pipeline.
       Ok \<lparr>fc_url = url, fc_pipeline = pipeline\<rparr>))"

definition feldera_bridge_settings :: "'v config_crate \<Rightarrow> 'v settings \<Rightarrow> (string, FelderaBridgeConfig) outcome" where
  "feldera_bridge_settings cr c =
     and_then (required_table c ''kafka'' (sink_kafka_settings cr c)) (\<lambda>kafka.
     and_then (required_table c ''feldera'' (feldera_settings cr c)) (\<lambda>feldera.
     and_then (defaulted_table default_metrics_config c ''metrics'' (sink_metrics_settings cr c)) (\<lambda>metrics.
       Ok \<lparr>fb_kafka = kafka, fb_feldera = feldera, fb_metrics = metrics\<rparr>)))"

definition load_feldera_config :: "'v config_crate \<Rightarrow> FelderaBridgeConfig option" where
  "load_feldera_config cr =
     load_settings cr [ConfigFile ''config/feldera-connector'' False, ConfigEnvironment ''FELD_CONN'' ''_'']
       (feldera_bridge_settings cr)"

definition sink_init_metrics :: "exporter \<Rightarrow> u16 \<Rightarrow> (string \<times> string) list option" where
  "sink_init_metrics install port =
     (case install port of
        Inl e \<Rightarrow> None
      | Inr _ \<Rightarrow> Some
          [(''cdc_events_consumed_total'', ''The total ammount of events consumed by this instance''),
           (''cdc_event_process_duration_seconds'', ''The duration of the processing''),
           (''cdc_kafka_lag_seconds'', ''The lag introduced by Kafka, in seconds'')])"

definition pg_program :: "'v config_crate \<Rightarrow> exporter \<Rightarrow> avro_reader \<Rightarrow> kafka_world \<Rightarrow> (string \<Rightarrow> string + 'c) \<Rightarrow>
    (i64 \<Rightarrow> bool) \<Rightarrow> ('c, 'q) pg_client \<Rightarrow> ('c, 'q) PostgresSink consuming option" where
  "pg_program cr install codec w connect chrono_range cl =
     (case load_pg_config cr of
        None \<Rightarrow> None
      | Some config \<Rightarrow>
          (case sink_init_metrics install (pb_metrics config) of
             None \<Rightarrow> None
           | Some descriptions \<Rightarrow> pg_main codec w connect chrono_range cl config))"

definition feldera_program :: "'v config_crate \<Rightarrow> exporter \<Rightarrow> avro_reader \<Rightarrow> kafka_world \<Rightarrow> (string \<Rightarrow> 'c) \<Rightarrow>
    'c feldera_env \<Rightarrow> 'c FelderaConnector consuming option" where
  "feldera_program cr install codec w new_client env =
     (case load_feldera_config cr of
        None \<Rightarrow> None
      | Some config \<Rightarrow>
          (case sink_init_metrics install (fb_metrics config) of
             None \<Rightarrow> None
           | Some descriptions \<Rightarrow> feldera_main codec w new_client env config))"

subsection \<open>The environment as a source\<close>

text \<open>
  The documented naming, with \<open>to_lowercase\<close> on ASCII: prefix and separator are taken off the front of a variable's name, whatever the
  case, and every further separator starts a new segment of the key.
\<close>

fun lower :: "char \<Rightarrow> char" where
  "lower (Char b0 b1 b2 b3 b4 b5 b6 b7) =
     Char b0 b1 b2 b3 b4
       (b5 \<or> b6 \<and> \<not> b7 \<and> (b0 \<or> b1 \<or> b2 \<or> b3 \<or> b4) \<and> \<not> (b4 \<and> b3 \<and> (b2 \<or> b1 \<and> b0)))
       b6 b7"

lemma lower_letters: "map lower ''@AZ[_az{09'' = ''@az[_az{09''"
  by simp

fun segments :: "char \<Rightarrow> string \<Rightarrow> string list" where
  "segments s [] = [[]]"
| "segments s (c # cs) =
     (if c = s then [] # segments s cs
      else (case segments s cs of [] \<Rightarrow> [[c]] | x # xs \<Rightarrow> (c # x) # xs))"

definition variable_path :: "string \<Rightarrow> char \<Rightarrow> string \<Rightarrow> string list option" where
  "variable_path pre s name =
     (let p = map lower (pre @ [s]); n = map lower name
      in if take (length p) n = p then Some (segments s (drop (length p) n)) else None)"

type_synonym environment = "(string \<times> string) list"

definition provided :: "string \<Rightarrow> char \<Rightarrow> environment \<Rightarrow> (string list \<times> string) list" where
  "provided pre s env =
     List.map_filter (\<lambda>(name, t). map_option (\<lambda>path. (path, t)) (variable_path pre s name)) env"

definition below :: "'a list \<Rightarrow> 'a list \<Rightarrow> bool" where
  "below path q \<longleftrightarrow> length path < length q \<and> take (length path) q = path"

definition env_lookup :: "(string list \<times> string) list \<Rightarrow> string list \<Rightarrow> string node option" where
  "env_lookup vars path =
     (if list_ex (\<lambda>(q, t). below path q) vars then Some Table else map_option Scalar (map_of vars path))"

text \<open>No variable is given twice, or both as a scalar and as a table.\<close>

definition clash_free :: "(string list \<times> string) list \<Rightarrow> bool" where
  "clash_free vars \<longleftrightarrow> distinct (map fst vars) \<and> list_all (\<lambda>(p, _). list_all (\<lambda>(q, _). \<not> below p q) vars) vars"

text \<open>
  The contract of the crate, with the environment \<open>env\<close> and the settings \<open>stored f\<close> of a well-formed (or
  missing) file: environment variables win over the file, other settings are the file's; the text of a
  variable is converted to the type of the field.
\<close>

locale config_library =
  fixes cr :: "'v config_crate" and env :: environment and stored :: "string \<Rightarrow> 'v settings" and of_text :: "string \<Rightarrow> 'v"
  assumes builds: "\<exists>c. cr_build cr [ConfigFile f False, ConfigEnvironment pre [s]] = Inr c"
    and from_environment: "cr_build cr [ConfigFile f False, ConfigEnvironment pre [s]] = Inr c \<Longrightarrow>
      clash_free (provided pre s env) \<Longrightarrow> env_lookup (provided pre s env) path = Some n \<Longrightarrow>
      c path = Some (map_node of_text n)"
    and from_file: "cr_build cr [ConfigFile f False, ConfigEnvironment pre [s]] = Inr c \<Longrightarrow>
      env_lookup (provided pre s env) path = None \<Longrightarrow> c path = Some m \<Longrightarrow> stored f path = Some m"
    and strings: "cr_string cr (of_text t) = Ok t"
    and numbers: "k < 2 ^ 16 \<Longrightarrow> cr_u16 cr (of_text (decimal k)) = Ok (word_of_nat k)"
    and booleans: "cr_bool cr (of_text ''true'') = Ok True" "cr_bool cr (of_text ''false'') = Ok False"
begin

lemma not_in_file:
  assumes "cr_build cr [ConfigFile f False, ConfigEnvironment pre [s]] = Inr c"
    and "env_lookup (provided pre s env) path = None" and "stored f path = None"
  shows "c path = None"
  using from_file [OF assms(1,2)] assms(3) by (cases "c path") auto

end

text \<open>A segment of a key contains no separator, so that a key with one in it is never found.\<close>

lemma segments_no_separator: "x \<in> set (segments s cs) \<Longrightarrow> s \<notin> set x"
  by (induction cs arbitrary: x) (auto split: if_splits list.splits)

lemma provided_no_separator:
  assumes "(path, t) \<in> set (provided pre s env)" and "x \<in> set path"
  shows "s \<notin> set x"
  using assms segments_no_separator
  by (auto simp: provided_def List.map_filter_def variable_path_def Let_def split: if_splits)

lemma env_lookup_separator:
  assumes "x \<in> set path" and "s \<in> set x"
  shows "env_lookup (provided pre s env) path = None"
proof -
  have never: "x \<notin> set q" if "(q, t) \<in> set (provided pre s env)" for q t
    using provided_no_separator [OF that, of x] assms(2) by blast
  have "\<not> below path q" if "(q, t) \<in> set (provided pre s env)" for q t
    using never [OF that] assms(1) by (metis below_def in_set_takeD)
  then have "\<not> list_ex (\<lambda>(q, t). below path q) (provided pre s env)" by (auto simp: list_ex_iff)
  moreover have "map_of (provided pre s env) path = None"
    using never assms(1) by (auto simp: map_of_eq_None_iff)
  ultimately show ?thesis by (simp add: env_lookup_def)
qed

text \<open>A crate that reads the environment and finds no file.\<close>

definition number_of_text :: "string \<Rightarrow> nat option" where
  "number_of_text t =
     (if t \<noteq> [] \<and> list_all (\<lambda>c. 48 \<le> (of_char c :: nat) \<and> of_char c \<le> (57 :: nat)) t
      then Some (foldl (\<lambda>n c. 10 * n + (of_char c - 48)) 0 t) else None)"

lemma number_of_decimal: "number_of_text (decimal n) = Some n"
proof (induction n rule: decimal.induct)
  case (1 n)
  show ?case
  proof (cases "n < 10")
    case True
    then show ?thesis by (simp add: decimal.simps [of n] number_of_text_def digit_def)
  next
    case False
    then show ?thesis
      using 1 by (simp add: decimal.simps [of n] number_of_text_def digit_def split: if_splits)
  qed
qed

definition environment_crate :: "environment \<Rightarrow> string config_crate" where
  "environment_crate env =
     \<lparr>cr_build = (\<lambda>sources. case sources of
        [ConfigFile f req, ConfigEnvironment pre s] \<Rightarrow> Inr (env_lookup (provided pre (hd s) env))
      | _ \<Rightarrow> Inl ''unsupported''),
      cr_string = Ok,
      cr_u16 = (\<lambda>t. case number_of_text t of
         Some n \<Rightarrow> if n < 2 ^ 16 then Ok (word_of_nat n) else Err ''invalid value'' | None \<Rightarrow> Err ''invalid type''),
      cr_bool = (\<lambda>t. if t = ''true'' then Ok True else if t = ''false'' then Ok False else Err ''invalid type'')\<rparr>"

interpretation environment_only: config_library "environment_crate env" env "\<lambda>f. Map.empty" id for env
  by unfold_locales
    (auto simp: environment_crate_def number_of_decimal node.map_id0)

subsection \<open>Properties\<close>

text \<open>The flag of the Feldera connector is not among the keys that the environment can give.\<close>

lemma feldera_flag_from_file:
  assumes "config_library cr env stored of_text"
    and "stored ''config/cdc-producer'' [''will_connect_to_feldera''] = None"
    and "load_producer_config cr = Some config"
  shows "\<not> pc_will_connect_to_feldera config"
proof -
  have sep: "env_lookup (provided ''CDC_PROD'' CHR ''_'' env) [''will_connect_to_feldera''] = None"
    by (rule env_lookup_separator [of "''will_connect_to_feldera''"]) simp_all
  obtain c where c: "cr_build cr [ConfigFile ''config/cdc-producer'' False, ConfigEnvironment ''CDC_PROD'' ''_''] = Inr c"
    "producer_settings cr c = Ok config"
    using assms(3) by (auto simp: load_producer_config_def load_settings_def split: sum.splits outcome.splits)
  have "c [''will_connect_to_feldera''] = None"
    by (rule config_library.not_in_file [OF assms(1) c(1) sep assms(2)])
  then show ?thesis using c(2) by (auto simp: producer_settings_def defaulted_def outcome_inv)
qed

text \<open>
  C12: the environment cannot ask for whole old rows.  Whatever variables are set, CDC_PROD_WILL_CONNECT_TO_FELDERA
  among them: unless the configuration file sets the flag, every statement that \<open>main\<close> runs on the source
  sets a replica identity of DEFAULT, so that deletes reach the connectors with their key columns only.
\<close>

theorem environment_cannot_ask_for_full_rows:
  assumes "config_library cr env stored of_text"
    and "stored ''config/cdc-producer'' [''will_connect_to_feldera''] = None"
    and "load_producer_config cr = Some config" and "connect (pc_postgres config) = Inr (d, [])"
    and "configure_replica_identity connect (logged clt) (pc_postgres config) (pc_will_connect_to_feldera config) =
      (r, Some (d', l))"
  shows "\<forall>s\<in>set l. \<exists>schema table. s = alter_statement schema table ''DEFAULT''"
proof -
  have flag: "\<not> pc_will_connect_to_feldera config" by (rule feldera_flag_from_file [OF assms(1-3)])
  obtain q d1 where q: "d_published_tables clt [pg_publication (pc_postgres config)] d = (q, d1)" by fastforce
  show ?thesis
  proof (cases q)
    case (Inl e)
    then show ?thesis using assms(4,5) flag q by (simp add: configure_replica_identity_def logged_def)
  next
    case (Inr rws)
    obtain r' d2 l2 where i: "set_identities (logged clt) ''DEFAULT'' rws [] (d1, []) = (r', (d2, l2))"
      by (metis prod.exhaust)
    have published: "d_published_tables (logged clt) ps (d, []) = (let (r, d') = d_published_tables clt ps d in (r, (d', [])))" for ps
      by (simp add: logged_def)
    have "l = l2"
      using assms(4,5) flag q Inr i by (simp add: configure_replica_identity_def published Let_def)
    moreover have "\<exists>k. l2 = map (row_statement ''DEFAULT'') (take k rws)"
      using set_identities_logged [OF i] by (cases r') (auto intro: exI [of _ "length rws"])
    ultimately show ?thesis by (fastforce simp: row_statement_def)
  qed
qed

definition feldera_environment :: environment where
  "feldera_environment =
     [(''CDC_PROD_WILL_CONNECT_TO_FELDERA'', ''true''), (''CDC_PROD_POSTGRES_HOST'', ''db''),
      (''CDC_PROD_POSTGRES_USER'', ''u''), (''CDC_PROD_POSTGRES_PASSWORD'', ''p''),
      (''CDC_PROD_POSTGRES_SLOTNAME'', ''slot''), (''CDC_PROD_POSTGRES_DBNAME'', ''shop''),
      (''CDC_PROD_POSTGRES_PUBLICATION'', ''pub''), (''CDC_PROD_KAFKA_BROKERS'', ''localhost:9092''),
      (''CDC_PROD_KAFKA_KEY'', ''k''), (''RUST_LOG'', ''debug'')]"

lemma feldera_environment_provides:
  "provided ''CDC_PROD'' CHR ''_'' feldera_environment =
     [([''will'', ''connect'', ''to'', ''feldera''], ''true''), ([''postgres'', ''host''], ''db''),
      ([''postgres'', ''user''], ''u''), ([''postgres'', ''password''], ''p''),
      ([''postgres'', ''slotname''], ''slot''), ([''postgres'', ''dbname''], ''shop''),
      ([''postgres'', ''publication''], ''pub''), ([''kafka'', ''brokers''], ''localhost:9092''),
      ([''kafka'', ''key''], ''k'')]"
  by (simp add: feldera_environment_def provided_def variable_path_def List.map_filter_simps)

lemma feldera_environment_loads:
  "load_producer_config (environment_crate feldera_environment) =
     Some \<lparr>pc_postgres = sample_postgres, pc_kafka = sample_config, pc_metrics = metrics_config_default,
       pc_will_connect_to_feldera = False\<rparr>"
  by (simp add: load_producer_config_def load_settings_def environment_crate_def feldera_environment_provides
      producer_settings_def postgres_settings_def producer_kafka_settings_def settings_defs env_lookup_def below_def
      sample_postgres_def sample_config_def default_topic_def)

theorem environment_cannot_ask_for_full_rows_witness:
  "\<exists>config l. load_producer_config (environment_crate feldera_environment) = Some config \<and>
    snd (configure_replica_identity (\<lambda>_. Inr ((), [])) (logged two_tables) (pc_postgres config)
      (pc_will_connect_to_feldera config)) = Some ((), l) \<and>
    l \<noteq> [] \<and> (\<exists>schema table. hd l = alter_statement schema table ''DEFAULT'')"
proof -
  let ?config = "\<lparr>pc_postgres = sample_postgres, pc_kafka = sample_config, pc_metrics = metrics_config_default,
       pc_will_connect_to_feldera = False\<rparr>"
  have l: "logged two_tables =
     \<lparr>d_published_tables = (\<lambda>ps (d, l). (Inr [(''public'', ''users''), (''public'', ''locked'')], (d, l))),
      d_execute = (\<lambda>s (d, l).
        (if s = alter_statement ''public'' ''locked'' ''FULL'' then Inl ''locked'' else Inr 0, (d, l @ [s])))\<rparr>"
    by (simp add: logged_def two_tables_def)
  obtain r log where run: "configure_replica_identity (\<lambda>_. Inr ((), [])) (logged two_tables) (pc_postgres ?config)
      (pc_will_connect_to_feldera ?config) = (r, Some ((), log))" "log \<noteq> []"
    by (simp add: configure_replica_identity_def l Let_def alter_statement_def)
  have "\<forall>s\<in>set log. \<exists>schema table. s = alter_statement schema table ''DEFAULT''"
    by (rule environment_cannot_ask_for_full_rows [OF environment_only.config_library_axioms _
          feldera_environment_loads _ run(1)]) simp_all
  then show ?thesis
    using run feldera_environment_loads by (intro exI [of _ ?config] exI [of _ log]) auto
qed

text \<open>
  The address of the sink database has no default in the code: without a file and without the variable
  the PostgreSQL connector does not start.
\<close>

lemma sink_address_required:
  assumes "config_library cr env stored of_text" and "stored ''config/postgres-connector'' = Map.empty"
    and "env_lookup (provided ''PG_CONN'' CHR ''_'' env) [''postgres'', name] = None"
    and "name \<in> {''host'', ''user'', ''password'', ''port''}"
  shows "load_pg_config cr = None"
proof -
  obtain c where c: "cr_build cr [ConfigFile ''config/postgres-connector'' False, ConfigEnvironment ''PG_CONN'' ''_''] = Inr c"
    using config_library.builds [OF assms(1)] by blast
  have "c [''postgres'', name] = None"
    using config_library.not_in_file [OF assms(1) c assms(3)] assms(2) by simp
  then have "\<nexists>v. connector_postgres_settings cr c = Ok v"
    using assms(4) by (auto simp: connector_postgres_settings_def required_def outcome_inv)
  then have "\<nexists>v. pg_bridge_settings cr c = Ok v"
    by (auto simp: pg_bridge_settings_def required_table_def outcome_inv split: option.splits node.splits)
  then show ?thesis
    by (auto simp: load_pg_config_def load_settings_def c split: outcome.splits)
qed

end
