(* ===== verification/Test_Infra.thy ===== *)
theory Test_Infra imports Configuration begin

text \<open>
  The harness of the end-to-end tests, \<open>cdc-integration-tests/src/lib.rs\<close>: it starts containers and the
  programs, runs statements on the source database and polls the sink database.  Docker, the processes,
  the databases and the clock are a parameter, the record \<open>host\<close>; time is in milliseconds.
\<close>

subsection \<open>Actions\<close>

text \<open>
  An action takes the state to a result and the state after; the result is \<open>None\<close> after a panic.  An
  action that does not return is \<open>None\<close> as a whole.
\<close>

type_synonym ('s, 'a) act = "'s \<Rightarrow> ('a option \<times> 's) option"

definition finish :: "'a \<Rightarrow> ('s, 'a) act" where
  "finish a s = Some (Some a, s)"

definition panic :: "('s, 'a) act" where
  "panic s = Some (None, s)"

definition await :: "('s, 'a) act \<Rightarrow> ('a \<Rightarrow> ('s, 'b) act) \<Rightarrow> ('s, 'b) act" where
  "await m f s =
     (case m s of
        None \<Rightarrow> None
      | Some (None, s') \<Rightarrow> Some (None, s')
      | Some (Some a, s') \<Rightarrow> f a s')"

definition assert_that :: "bool \<Rightarrow> ('s, unit) act" where
  "assert_that b = (if b then finish () else panic)"

text \<open>
  What goes out of scope is dropped, on the way out of a block (\<open>dropping\<close>) or only when a panic
  unwinds it (\<open>unwinding\<close>).
\<close>

definition dropping :: "('s, unit) act \<Rightarrow> ('s, 'a) act \<Rightarrow> ('s, 'a) act" where
  "dropping d m s =
     (case m s of
        None \<Rightarrow> None
      | Some (r, s') \<Rightarrow>
          (case d s' of
             None \<Rightarrow> None
           | Some (None, s'') \<Rightarrow> Some (None, s'')
           | Some (Some _, s'') \<Rightarrow> Some (r, s'')))"

definition unwinding :: "('s, unit) act \<Rightarrow> ('s, 'a) act \<Rightarrow> ('s, 'a) act" where
  "unwinding d m s =
     (case m s of
        None \<Rightarrow> None
      | Some (Some a, s') \<Rightarrow> Some (Some a, s')
      | Some (None, s') \<Rightarrow> (case d s' of None \<Rightarrow> None | Some (_, s'') \<Rightarrow> Some (None, s'')))"

subsection \<open>The host\<close>

record command =
  cmd_program :: string
  cmd_args :: "string list"
  cmd_dir :: string
  cmd_env :: environment

record container =
  ct_image :: string
  ct_tag :: string
  ct_cmd :: "string list"
  ct_ports :: "(nat \<times> nat) list"
  ct_settings :: "(string \<times> string) list"

record database_address =
  da_host :: string
  da_port :: nat
  da_user :: string
  da_password :: string
  da_dbname :: string

text \<open>
  Containers are known by their id, children and clients by a number.  The output of a child is what its
  reader thread has got from the pipe so far, a line or an error at a time.
\<close>

record 'w host =
  ho_now :: "'w \<Rightarrow> nat"
  ho_sleep :: "nat \<Rightarrow> 'w \<Rightarrow> 'w"
  ho_status :: "command \<Rightarrow> 'w \<Rightarrow> (string + bool) \<times> 'w"
  ho_spawn :: "command \<Rightarrow> 'w \<Rightarrow> (string + nat) \<times> 'w"
  ho_kill :: "nat \<Rightarrow> 'w \<Rightarrow> (string + unit) \<times> 'w"
  ho_stdout :: "nat \<Rightarrow> 'w \<Rightarrow> (string + string) list"
  ho_stderr :: "nat \<Rightarrow> 'w \<Rightarrow> (string + string) list"
  ho_start :: "container \<Rightarrow> 'w \<Rightarrow> (string + string) \<times> 'w"
  ho_stop :: "string \<Rightarrow> 'w \<Rightarrow> (string + unit) \<times> 'w"
  ho_connect :: "database_address \<Rightarrow> 'w \<Rightarrow> (string + nat) \<times> 'w"
  ho_query_opt :: "nat \<Rightarrow> string \<Rightarrow> 'w \<Rightarrow> (string + bool) \<times> 'w"
  ho_batch_execute :: "nat \<Rightarrow> string \<Rightarrow> 'w \<Rightarrow> (string + unit) \<times> 'w"
  ho_consumer :: "(string \<times> string) list \<Rightarrow> 'w \<Rightarrow> (string \<Rightarrow> string + (string + byte list option) list) option"
  ho_get :: "string \<Rightarrow> 'w \<Rightarrow> (string + string) \<times> 'w"

text \<open>A call whose error is a panic (\<open>expect\<close>); the state has other parts than the host's.\<close>

definition expect_call :: "('w \<Rightarrow> (string + 'a) \<times> 'w) \<Rightarrow> ('w \<times> 'i, 'a) act" where
  "expect_call call s =
     (case call (fst s) of
        (Inl e, w) \<Rightarrow> Some (None, (w, snd s))
      | (Inr a, w) \<Rightarrow> Some (Some a, (w, snd s)))"

definition sleeping :: "'w host \<Rightarrow> nat \<Rightarrow> ('w \<times> 'i, unit) act" where
  "sleeping h d s = Some (Some (), (ho_sleep h d (fst s), snd s))"

definition build_crate :: "'w host \<Rightarrow> string \<Rightarrow> ('w \<times> 'i, unit) act" where
  "build_crate h name =
     await (expect_call (ho_status h
       \<lparr>cmd_program = ''cargo'', cmd_args = [''build'', ''--bin'', name], cmd_dir = ''..'', cmd_env = []\<rparr>))
       (\<lambda>success. if success then finish () else panic)"

subsection \<open>The programs under test\<close>

definition cdc_producer_command :: command where
  "cdc_producer_command =
     \<lparr>cmd_program = ''../target/debug/cdc-producer'', cmd_args = [], cmd_dir = ''.'',
      cmd_env =
       [(''CDC_PROD_WILL_CONNECT_TO_FELDERA'', ''false''),
        (''CDC_PROD_POSTGRES_HOST'', ''localhost''),
        (''CDC_PROD_POSTGRES_USER'', ''cdc''),
        (''CDC_PROD_POSTGRES_PASSWORD'', ''cdc''),
        (''CDC_PROD_POSTGRES_SLOTNAME'', ''cdc_slot''),
        (''CDC_PROD_POSTGRES_DBNAME'', ''cdc''),
        (''CDC_PROD_POSTGRES_PUBLICATION'', ''cdc_pub''),
        (''CDC_PROD_POSTGRES_PORT'', ''5400''),
        (''CDC_PROD_KAFKA_BROKERS'', ''localhost:9092''),
        (''CDC_PROD_KAFKA_TOPIC'', ''example-topic''),
        (''CDC_PROD_KAFKA_KEY'', ''default''),
        (''CDC_PROD_POSTGRESS_DBNAME'', ''cdc''),
        (''CDC_PROD_METRICS_PORT'', ''9001''),
        (''RUST_LOG'', ''debug'')]\<rparr>"

definition postgres_connector_command :: command where
  "postgres_connector_command =
     \<lparr>cmd_program = ''../target/debug/postgres-connector'', cmd_args = [], cmd_dir = ''.'',
      cmd_env =
       [(''PG_CONN_POSTGRES_HOST'', ''127.0.0.1''),
        (''PG_CONN_POSTGRES_USER'', ''cdc''),
        (''PG_CONN_POSTGRES_PASSWORD'', ''cdc''),
        (''PG_CONN_POSTGRES_PORT'', ''5401''),
        (''PG_CONN_KAFKA_BROKERS'', ''localhost:9092''),
        (''PG_CONN_KAFKA_TOPIC'', ''example-topic''),
        (''PG_CONN_KAFKA_GROUPID'', ''default''),
        (''PG_CONN_METRICS_PORT'', ''9002''),
        (''RUST_LOG'', ''debug'')]\<rparr>"

definition feldera_connector_command :: command where
  "feldera_connector_command =
     \<lparr>cmd_program = ''../target/debug/postgres-connector'', cmd_args = [], cmd_dir = ''.'',
      cmd_env =
       [(''FELD_CONN_POSTGRES_HOST'', ''127.0.0.1''),
        (''FELD_CONN_POSTGRES_USER'', ''cdc''),
        (''FELD_CONN_POSTGRES_PASSWORD'', ''cdc''),
        (''FELD_CONN_POSTGRES_PORT'', ''5401''),
        (''FELD_CONN_KAFKA_BROKERS'', ''localhost:9092''),
        (''FELD_CONN_KAFKA_TOPIC'', ''example-topic''),
        (''FELD_CONN_KAFKA_GROUPID'', ''default''),
        (''FELD_CONN_METRICS_PORT'', ''9002''),
        (''RUST_LOG'', ''debug'')]\<rparr>"

text \<open>A \<open>TestBinary\<close> is its child; the lines kept are those before the first one that is not UTF-8.\<close>

definition spawn_binary :: "'w host \<Rightarrow> command \<Rightarrow> ('w \<times> 'i, nat) act" where
  "spawn_binary h cmd = expect_call (ho_spawn h cmd)"

definition captured :: "(string + string) list \<Rightarrow> string list" where
  "captured ls = map projr (takeWhile (Not \<circ> isl) ls)"

definition stdout_lines :: "'w host \<Rightarrow> nat \<Rightarrow> 'w \<Rightarrow> string list" where
  "stdout_lines h child w = captured (ho_stdout h child w)"

definition stderr_lines :: "'w host \<Rightarrow> nat \<Rightarrow> 'w \<Rightarrow> string list" where
  "stderr_lines h child w = captured (ho_stderr h child w)"

definition kill_binary :: "'w host \<Rightarrow> nat \<Rightarrow> ('w \<times> 'i, unit) act" where
  "kill_binary h child = expect_call (ho_kill h child)"

subsection \<open>The infrastructure\<close>

record Infra =
  red_panda :: string
  src_postgres :: string
  src_client :: nat
  sink_postgres :: string
  sink_client :: nat
  cdc_producer :: nat
  postgres_connector :: nat

definition row_query :: "string \<Rightarrow> string \<Rightarrow> string" where
  "row_query table where_clause = ''SELECT 1 FROM '' @ table @ '' WHERE '' @ where_clause"

partial_function (option) poll_for_row :: "'w host \<Rightarrow> nat \<Rightarrow> string \<Rightarrow> nat \<Rightarrow> nat \<Rightarrow> 'w \<Rightarrow> (unit option \<times> 'w) option" where
  "poll_for_row h client sql start timeout w =
     (if ho_now h w - start > timeout then Some (None, w)
      else (case ho_query_opt h client sql w of
              (Inl e, w') \<Rightarrow> Some (None, w')
            | (Inr found, w') \<Rightarrow>
                (if found then Some (Some (), w')
                 else poll_for_row h client sql start timeout (ho_sleep h 500 w'))))"

partial_function (option) poll_for_no_row :: "'w host \<Rightarrow> nat \<Rightarrow> string \<Rightarrow> nat \<Rightarrow> nat \<Rightarrow> 'w \<Rightarrow> (unit option \<times> 'w) option" where
  "poll_for_no_row h client sql start timeout w =
     (if ho_now h w - start > timeout then Some (Some (), w)
      else (case ho_query_opt h client sql w of
              (Inl e, w') \<Rightarrow> Some (None, w')
            | (Inr found, w') \<Rightarrow>
                (if found then Some (None, w')
                 else poll_for_no_row h client sql start timeout (ho_sleep h 500 w'))))"

definition with_infra :: "('w \<Rightarrow> Infra \<Rightarrow> (unit option \<times> 'w) option) \<Rightarrow> ('w \<times> Infra, unit) act" where
  "with_infra f s = map_option (\<lambda>(r, w). (r, (w, snd s))) (f (fst s) (snd s))"

definition wait_for_sink_row :: "'w host \<Rightarrow> string \<Rightarrow> string \<Rightarrow> nat \<Rightarrow> ('w \<times> Infra, unit) act" where
  "wait_for_sink_row h table where_clause timeout =
     with_infra (\<lambda>w self. poll_for_row h (sink_client self) (row_query table where_clause) (ho_now h w) timeout w)"

definition not_sink_row :: "'w host \<Rightarrow> string \<Rightarrow> string \<Rightarrow> nat \<Rightarrow> ('w \<times> Infra, unit) act" where
  "not_sink_row h table where_clause timeout =
     with_infra (\<lambda>w self. poll_for_no_row h (sink_client self) (row_query table where_clause) (ho_now h w) timeout w)"

definition exec_on_source :: "'w host \<Rightarrow> string \<Rightarrow> ('w \<times> Infra, unit) act" where
  "exec_on_source h query s = expect_call (ho_batch_execute h (src_client (snd s)) query) s"

text \<open>An assignment to a field drops the value that was there, after the new one has been made.\<close>

definition restart_producer :: "'w host \<Rightarrow> ('w \<times> Infra, unit) act" where
  "restart_producer h s =
     (let old = cdc_producer (snd s)
      in await (kill_binary h old) (\<lambda>_.
         await (sleeping h 500) (\<lambda>_.
         await (spawn_binary h cdc_producer_command) (\<lambda>child (w, self).
           kill_binary h old (w, self\<lparr>cdc_producer := child\<rparr>)))) s)"

definition restart_connector :: "'w host \<Rightarrow> ('w \<times> Infra, unit) act" where
  "restart_connector h s =
     (let old = postgres_connector (snd s)
      in await (kill_binary h old) (\<lambda>_.
         await (sleeping h 500) (\<lambda>_.
         await (spawn_binary h postgres_connector_command) (\<lambda>child (w, self).
           kill_binary h old (w, self\<lparr>postgres_connector := child\<rparr>)))) s)"

text \<open>\<open>Drop for Infra\<close>, then the fields in order, of which the two binaries are killed again.\<close>

definition infra_drop :: "'w host \<Rightarrow> ('w \<times> Infra, unit) act" where
  "infra_drop h s =
     await (kill_binary h (postgres_connector (snd s))) (\<lambda>_.
     await (kill_binary h (cdc_producer (snd s))) (\<lambda>_.
     await (kill_binary h (cdc_producer (snd s))) (\<lambda>_.
       kill_binary h (postgres_connector (snd s))))) s"

subsection \<open>Setting up\<close>

definition create_conn :: "'w host \<Rightarrow> nat \<Rightarrow> ('w \<times> 'i, nat) act" where
  "create_conn h port =
     expect_call (ho_connect h
       \<lparr>da_host = ''127.0.0.1'', da_port = port, da_user = ''cdc'', da_password = ''cdc'', da_dbname = ''cdc''\<rparr>)"

text \<open>
  \<open>RUNNING_IDS\<close>, the containers to stop at Ctrl-C, is the second part of the state; the hash set is a list
  without repetitions.
\<close>

definition register_ids :: "string list \<Rightarrow> ('w \<times> string list, unit) act" where
  "register_ids new s = Some (Some (), (fst s, fold (\<lambda>i ids. if i \<in> set ids then ids else ids @ [i]) new (snd s)))"

text \<open>The task that waits for Ctrl-C: it stops what is registered and exits with 130.\<close>

fun stop_running :: "'w host \<Rightarrow> string list \<Rightarrow> ('w \<times> 'i, int) act" where
  "stop_running h [] = finish 130"
| "stop_running h (i # ids) = await (expect_call (ho_stop h i)) (\<lambda>_. stop_running h ids)"

definition redpanda_container :: container where
  "redpanda_container =
     \<lparr>ct_image = ''docker.redpanda.com/redpandadata/redpanda'', ct_tag = ''v24.2.9'',
      ct_cmd =
       [''redpanda'', ''start'', ''--overprovisioned'', ''--smp'', ''1'', ''--memory'', ''1G'',
        ''--reserve-memory'', ''0M'', ''--node-id'', ''0'',
        ''--kafka-addr'', ''PLAIN://0.0.0.0:29092,OUTSIDE://0.0.0.0:9092'',
        ''--advertise-kafka-addr'', ''PLAIN://redpanda:29092,OUTSIDE://localhost:9092'',
        ''--rpc-addr'', ''0.0.0.0:33145'', ''--advertise-rpc-addr'', ''redpanda:33145''],
      ct_ports = [(9092, 9092), (29092, 29092), (9644, 9644)],
      ct_settings =
       [(''health_check'', ''rpk cluster health''), (''interval'', ''5s''), (''timeout'', ''5s''), (''retries'', ''10'')]\<rparr>"

definition source_container :: container where
  "source_container =
     \<lparr>ct_image = ''postgres'', ct_tag = ''18-alpine'',
      ct_cmd =
       [''postgres'', ''-c'', ''wal_level=logical'', ''-c'', ''max_replication_slots=4'', ''-c'', ''max_wal_senders=4''],
      ct_ports = [(5400, 5432)],
      ct_settings =
       [(''db_name'', ''cdc''), (''user'', ''cdc''), (''password'', ''cdc''), (''host_auth'', ''true''),
        (''init_sql'', ''../../scripts/init-source.sql'')]\<rparr>"

definition sink_container :: container where
  "sink_container =
     \<lparr>ct_image = ''postgres'', ct_tag = ''18-alpine'', ct_cmd = [], ct_ports = [(5401, 5432)],
      ct_settings =
       [(''db_name'', ''cdc''), (''user'', ''cdc''), (''password'', ''cdc''), (''host_auth'', ''true''),
        (''init_sql'', ''../../scripts/init-sink.sql'')]\<rparr>"

text \<open>A container that does not start is noticed after the programs have been started.\<close>

definition start_container :: "'w host \<Rightarrow> container \<Rightarrow> ('w \<times> 'i, string + string) act" where
  "start_container h c s = (let (r, w) = ho_start h c (fst s) in Some (Some r, (w, snd s)))"

definition expect_result :: "string + 'a \<Rightarrow> ('s, 'a) act" where
  "expect_result r = (case r of Inl e \<Rightarrow> panic | Inr a \<Rightarrow> finish a)"

text \<open>The futures of a \<open>join!\<close> run one after the other here; none looks at what the others do.\<close>

definition connect_infra :: "'w host \<Rightarrow> string + string \<Rightarrow> string + string \<Rightarrow> string + string \<Rightarrow> nat \<Rightarrow> nat \<Rightarrow>
    ('w \<times> string list, Infra) act" where
  "connect_infra h res_redpanda res_src_postgres res_sink_postgres pid_p pid_c =
     await (sleeping h 1000) (\<lambda>_.
     await (create_conn h 5400) (\<lambda>clt_src.
     await (create_conn h 5401) (\<lambda>clt_sink.
     await (expect_result res_redpanda) (\<lambda>panda.
     await (expect_result res_src_postgres) (\<lambda>src.
     await (expect_result res_sink_postgres) (\<lambda>snk.
     await (register_ids [panda, src, snk]) (\<lambda>_.
       finish \<lparr>red_panda = panda, src_postgres = src, src_client = clt_src, sink_postgres = snk,
               sink_client = clt_sink, cdc_producer = pid_p, postgres_connector = pid_c\<rparr>)))))))"

definition start_programs :: "'w host \<Rightarrow> (nat \<Rightarrow> nat \<Rightarrow> ('w \<times> 'i, 'a) act) \<Rightarrow> ('w \<times> 'i, 'a) act" where
  "start_programs h rest =
     await (spawn_binary h cdc_producer_command) (\<lambda>pid_p.
       unwinding (kill_binary h pid_p) (
         await (sleeping h 3000) (\<lambda>_.
         await (spawn_binary h postgres_connector_command) (\<lambda>pid_c.
           unwinding (kill_binary h pid_c) (rest pid_p pid_c)))))"

definition init_infra :: "'w host \<Rightarrow> ('w \<times> string list, Infra) act" where
  "init_infra h =
     await (start_container h redpanda_container) (\<lambda>res_redpanda.
     await (start_container h source_container) (\<lambda>res_src_postgres.
     await (start_container h sink_container) (\<lambda>res_sink_postgres.
     await (build_crate h ''cdc-producer'') (\<lambda>_.
     await (build_crate h ''postgres-connector'') (\<lambda>_.
     await (sleeping h 1000) (\<lambda>_.
       start_programs h (connect_infra h res_redpanda res_src_postgres res_sink_postgres)))))))"

text \<open>A test function: the infrastructure, the body, and the drop of the infrastructure at the end.\<close>

definition run_test :: "'w host \<Rightarrow> ('w \<times> Infra, unit) act \<Rightarrow> ('w \<times> string list, unit) act" where
  "run_test h body s =
     (case init_infra h s of
        None \<Rightarrow> None
      | Some (None, s') \<Rightarrow> Some (None, s')
      | Some (Some infra, (w, ids)) \<Rightarrow>
          map_option (\<lambda>(r, (w', _)). (r, (w', ids))) (dropping (infra_drop h) body (w, infra)))"

subsection \<open>Looking at the programs\<close>

definition get_metrics_for :: "'w host \<Rightarrow> nat \<Rightarrow> 'w \<Rightarrow> (string + string) \<times> 'w" where
  "get_metrics_for h port = ho_get h (''http://localhost:'' @ decimal port @ ''/metrics'')"

definition test_lsn_settings :: "(string \<times> string) list" where
  "test_lsn_settings =
     [(''group.id'', ''test-lsn-read''),
      (''bootstrap.servers'', ''localhost:9092''),
      (''enable.partition.eof'', ''false''),
      (''session.timeout.ms'', ''6000''),
      (''isolation.level'', ''read_committed''),
      (''auto.offset.reset'', ''earliest'')]"

fun test_lsn_loop :: "u64 \<Rightarrow> (string + byte list option) list \<Rightarrow> string + u64" where
  "test_lsn_loop latest_lsn [] = Inr latest_lsn"
| "test_lsn_loop latest_lsn (Inr (Some lsn_bytes) # ms) =
     test_lsn_loop (if length lsn_bytes = 8 then from_be_bytes lsn_bytes else latest_lsn) ms"
| "test_lsn_loop latest_lsn (Inr None # ms) = test_lsn_loop latest_lsn ms"
| "test_lsn_loop latest_lsn (Inl e # ms) = Inl e"

definition test_read_lsn :: "'w host \<Rightarrow> ('w \<times> 'i, string + u64) act" where
  "test_read_lsn h s =
     (case ho_consumer h test_lsn_settings (fst s) of
        None \<Rightarrow> panic s
      | Some subscribe \<Rightarrow>
          (case subscribe ''example-topic.lsn'' of
             Inl e \<Rightarrow> finish (Inl e) s
           | Inr ms \<Rightarrow> finish (test_lsn_loop 0 ms) s))"

text \<open>The tests read the LSN as the producer does.\<close>

lemma test_lsn_loop_read_lsn_loop: "test_lsn_loop l ms = read_lsn_loop l ms"
  by (induction l ms rule: test_lsn_loop.induct) auto

lemma test_read_lsn_read_lsn:
  assumes "ho_consumer h test_lsn_settings w = Some subscribe" and "kc_topic config = ''example-topic''"
  shows "test_read_lsn h (w, i) = Some (Some (read_lsn subscribe config), (w, i))"
  using assms
  by (simp add: test_read_lsn_def read_lsn_def finish_def test_lsn_loop_read_lsn_loop split: sum.split)

record InfraOptions =
  pg_connector_json :: bool

definition infra_options_default :: InfraOptions where
  "infra_options_default = \<lparr>pg_connector_json = False\<rparr>"

definition TWO_SECONDS :: nat where
  "TWO_SECONDS = 2000"

subsection \<open>Polling\<close>

text \<open>The clock: a sleep lasts at least as long as it is asked to, a query does not go back in time.\<close>

locale host_clock =
  fixes h :: "'w host"
  assumes sleep_lasts: "ho_now h w + d \<le> ho_now h (ho_sleep h d w)"
    and query_takes_time: "ho_now h w \<le> ho_now h (snd (ho_query_opt h client sql w))"
begin

lemma later_after_round:
  assumes "ho_query_opt h client sql w = (r, w')"
  shows "ho_now h w + 500 \<le> ho_now h (ho_sleep h 500 w')"
  using query_takes_time [of w client sql] sleep_lasts [of w' 500] assms by simp

lemma poll_for_row_keeps:
  assumes "\<And>w. I w \<Longrightarrow> I (ho_sleep h 500 w)" and "\<And>w. I w \<Longrightarrow> I (snd (ho_query_opt h client sql w))" and "I w"
  shows "\<exists>r w'. poll_for_row h client sql start timeout w = Some (r, w') \<and> I w'"
  using assms(3)
proof (induction "start + timeout + 1 - ho_now h w" arbitrary: w rule: less_induct)
  case less
  show ?case
  proof (cases "ho_now h w - start > timeout")
    case True
    then show ?thesis using less.prems by (simp add: poll_for_row.simps)
  next
    case False
    obtain q w1 where q: "ho_query_opt h client sql w = (q, w1)" by fastforce
    have keep: "I w1" "I (ho_sleep h 500 w1)" using assms(1,2) less.prems q by (metis snd_conv)+
    have "start + timeout + 1 - ho_now h (ho_sleep h 500 w1) < start + timeout + 1 - ho_now h w"
      using later_after_round [OF q] False by simp
    from less.hyps [OF this keep(2)] show ?thesis
      using False q keep(1) by (cases q) (simp_all add: poll_for_row.simps [of h client sql start timeout w])
  qed
qed

lemma poll_for_no_row_keeps:
  assumes "\<And>w. I w \<Longrightarrow> I (ho_sleep h 500 w)" and "\<And>w. I w \<Longrightarrow> I (snd (ho_query_opt h client sql w))" and "I w"
  shows "\<exists>r w'. poll_for_no_row h client sql start timeout w = Some (r, w') \<and> I w'"
  using assms(3)
proof (induction "start + timeout + 1 - ho_now h w" arbitrary: w rule: less_induct)
  case less
  show ?case
  proof (cases "ho_now h w - start > timeout")
    case True
    then show ?thesis using less.prems by (simp add: poll_for_no_row.simps)
  next
    case False
    obtain q w1 where q: "ho_query_opt h client sql w = (q, w1)" by fastforce
    have keep: "I w1" "I (ho_sleep h 500 w1)" using assms(1,2) less.prems q by (metis snd_conv)+
    have "start + timeout + 1 - ho_now h (ho_sleep h 500 w1) < start + timeout + 1 - ho_now h w"
      using later_after_round [OF q] False by simp
    from less.hyps [OF this keep(2)] show ?thesis
      using False q keep(1) by (cases q) (simp_all add: poll_for_no_row.simps [of h client sql start timeout w])
  qed
qed

end

text \<open>
  The looks of a poll: a round is a query that finds nothing and a pause; the \<open>k\<close>-th look is the query
  after \<open>k\<close> rounds.
\<close>

definition poll_round :: "'w host \<Rightarrow> nat \<Rightarrow> string \<Rightarrow> 'w \<Rightarrow> 'w" where
  "poll_round h client sql w = ho_sleep h 500 (snd (ho_query_opt h client sql w))"

definition before_look :: "'w host \<Rightarrow> nat \<Rightarrow> string \<Rightarrow> nat \<Rightarrow> 'w \<Rightarrow> 'w" where
  "before_look h client sql k w = (poll_round h client sql ^^ k) w"

definition look :: "'w host \<Rightarrow> nat \<Rightarrow> string \<Rightarrow> nat \<Rightarrow> 'w \<Rightarrow> string + bool" where
  "look h client sql k w = fst (ho_query_opt h client sql (before_look h client sql k w))"

text \<open>A look in time finds the row, all before it answered that there is none.\<close>

definition found_in_time :: "'w host \<Rightarrow> nat \<Rightarrow> string \<Rightarrow> nat \<Rightarrow> nat \<Rightarrow> 'w \<Rightarrow> bool" where
  "found_in_time h client sql start timeout w \<longleftrightarrow>
     (\<exists>k. ho_now h (before_look h client sql k w) - start \<le> timeout \<and> look h client sql k w = Inr True \<and>
        (\<forall>j<k. look h client sql j w = Inr False))"

text \<open>The time is over, and all the looks there were answered that there is no row.\<close>

definition missing_in_time :: "'w host \<Rightarrow> nat \<Rightarrow> string \<Rightarrow> nat \<Rightarrow> nat \<Rightarrow> 'w \<Rightarrow> bool" where
  "missing_in_time h client sql start timeout w \<longleftrightarrow>
     (\<exists>k. timeout < ho_now h (before_look h client sql k w) - start \<and> (\<forall>j<k. look h client sql j w = Inr False))"

lemma look_0: "before_look h client sql 0 w = w" "look h client sql 0 w = fst (ho_query_opt h client sql w)"
  by (simp_all add: before_look_def look_def)

lemma look_Suc:
  "before_look h client sql (Suc k) w = before_look h client sql k (poll_round h client sql w)"
  "look h client sql (Suc k) w = look h client sql k (poll_round h client sql w)"
  by (simp_all add: before_look_def look_def funpow_swap1)

lemma ex_nat_split: "(\<exists>k. P k) \<longleftrightarrow> P 0 \<or> (\<exists>k. P (Suc k))"
  by (metis not0_implies_Suc)

lemma found_in_time_unfold:
  "found_in_time h client sql start timeout w \<longleftrightarrow>
     ho_now h w - start \<le> timeout \<and> fst (ho_query_opt h client sql w) = Inr True \<or>
     fst (ho_query_opt h client sql w) = Inr False \<and> found_in_time h client sql start timeout (poll_round h client sql w)"
  unfolding found_in_time_def
  by (subst ex_nat_split) (simp add: look_0 look_Suc All_less_Suc2, blast)

lemma missing_in_time_unfold:
  "missing_in_time h client sql start timeout w \<longleftrightarrow>
     timeout < ho_now h w - start \<or>
     fst (ho_query_opt h client sql w) = Inr False \<and> missing_in_time h client sql start timeout (poll_round h client sql w)"
  unfolding missing_in_time_def
  by (subst ex_nat_split) (simp add: look_0 look_Suc All_less_Suc2, blast)

context host_clock begin

lemma round_takes_time: "ho_now h w + 500 \<le> ho_now h (poll_round h client sql w)"
  unfolding poll_round_def by (rule later_after_round [OF prod.collapse [symmetric]])

lemma looks_take_time: "ho_now h w + 500 * k \<le> ho_now h (before_look h client sql k w)"
proof (induction k arbitrary: w)
  case (Suc k)
  have "ho_now h w + 500 * Suc k \<le> ho_now h (poll_round h client sql w) + 500 * k"
    using round_takes_time [of w client sql] by simp
  also have "\<dots> \<le> ho_now h (before_look h client sql (Suc k) w)" unfolding look_Suc by (rule Suc.IH)
  finally show ?case .
qed (simp add: look_0)

lemma not_found_late: "timeout < ho_now h w - start \<Longrightarrow> \<not> found_in_time h client sql start timeout w"
proof
  assume "timeout < ho_now h w - start" "found_in_time h client sql start timeout w"
  then obtain k where "ho_now h (before_look h client sql k w) - start \<le> timeout" by (auto simp: found_in_time_def)
  then show False using looks_take_time [of w k client sql] \<open>timeout < ho_now h w - start\<close> by simp
qed

lemma polls_verdict:
  "\<exists>r w'. poll_for_row h client sql start timeout w = Some (r, w') \<and>
     (r = Some () \<longleftrightarrow> found_in_time h client sql start timeout w)"
  "\<exists>r w'. poll_for_no_row h client sql start timeout w = Some (r, w') \<and>
     (r = Some () \<longleftrightarrow> missing_in_time h client sql start timeout w)"
proof -
  have "(\<exists>r w'. poll_for_row h client sql start timeout w = Some (r, w') \<and>
      (r = Some () \<longleftrightarrow> found_in_time h client sql start timeout w)) \<and>
    (\<exists>r w'. poll_for_no_row h client sql start timeout w = Some (r, w') \<and>
      (r = Some () \<longleftrightarrow> missing_in_time h client sql start timeout w))"
  proof (induction "start + timeout + 1 - ho_now h w" arbitrary: w rule: less_induct)
    case less
    note polls = poll_for_row.simps [of h client sql start timeout w] poll_for_no_row.simps [of h client sql start timeout w]
    show ?case
    proof (cases "timeout < ho_now h w - start")
      case True
      then show ?thesis using not_found_late missing_in_time_unfold [of h client sql start timeout w] by (simp add: polls)
    next
      case False
      obtain q w1 where q: "ho_query_opt h client sql w = (q, w1)" by fastforce
      then have round: "poll_round h client sql w = ho_sleep h 500 w1" by (simp add: poll_round_def)
      have "start + timeout + 1 - ho_now h (ho_sleep h 500 w1) < start + timeout + 1 - ho_now h w"
        using later_after_round [OF q] False by simp
      note IH = less.hyps [OF this]
      show ?thesis
      proof (cases "q = Inr False")
        case True
        then show ?thesis
          using IH False by (simp add: polls q found_in_time_unfold [of _ _ _ _ _ w] missing_in_time_unfold [of _ _ _ _ _ w] round)
      next
        case other: False
        then show ?thesis
          using False by (cases q)
            (simp_all add: polls q found_in_time_unfold [of _ _ _ _ _ w] missing_in_time_unfold [of _ _ _ _ _ w] round)
      qed
    qed
  qed
  then show "\<exists>r w'. poll_for_row h client sql start timeout w = Some (r, w') \<and>
       (r = Some () \<longleftrightarrow> found_in_time h client sql start timeout w)"
    "\<exists>r w'. poll_for_no_row h client sql start timeout w = Some (r, w') \<and>
       (r = Some () \<longleftrightarrow> missing_in_time h client sql start timeout w)"
    by blast+
qed

end

subsection \<open>The children\<close>

text \<open>
  An action that, from a state with \<open>I\<close>, always returns, to a state with \<open>I\<close>, whether it panics or not; the
  second form also speaks of the result.
\<close>

definition keeps :: "('s \<Rightarrow> bool) \<Rightarrow> ('s, 'a) act \<Rightarrow> bool" where
  "keeps I m \<longleftrightarrow> (\<forall>s. I s \<longrightarrow> (\<exists>r s'. m s = Some (r, s') \<and> I s'))"

named_theorems keeping "the actions that keep an invariant"

lemma keeps_run: "keeps I m \<Longrightarrow> I s \<Longrightarrow> \<exists>r s'. m s = Some (r, s') \<and> I s'"
  by (simp add: keeps_def)

lemma keeps_finish [keeping]: "keeps I (finish a)"
  by (simp add: keeps_def finish_def)

lemma keeps_panic [keeping]: "keeps I panic"
  by (simp add: keeps_def panic_def)

lemma keeps_assert_that [keeping]: "keeps I (assert_that b)"
  by (simp add: assert_that_def keeping)

lemma keeps_await [keeping]:
  assumes "keeps I m" and "\<And>a. keeps I (f a)"
  shows "keeps I (await m f)"
  unfolding keeps_def
proof (intro allI impI)
  fix s
  assume "I s"
  then obtain r s1 where m: "m s = Some (r, s1)" "I s1" using assms(1) by (auto simp: keeps_def)
  show "\<exists>r' s'. await m f s = Some (r', s') \<and> I s'"
  proof (cases r)
    case None
    then show ?thesis using m by (simp add: await_def)
  next
    case (Some a)
    then show ?thesis using m keeps_run [OF assms(2) m(2), of a] by (simp add: await_def)
  qed
qed

text \<open>
  Processes: every child gets a handle of its own, killing it ends it, and nothing else does.
\<close>

locale process_host = host_clock h for h :: "'w host" +
  fixes live :: "'w \<Rightarrow> nat set" and used :: "'w \<Rightarrow> nat set"
  assumes spawned: "ho_spawn h cmd w = (Inr child, w') \<Longrightarrow>
      child \<notin> used w \<and> live w' = insert child (live w) \<and> used w' = insert child (used w)"
    and not_spawned: "ho_spawn h cmd w = (Inl e, w') \<Longrightarrow> live w' = live w \<and> used w' = used w"
    and killed: "\<exists>w'. ho_kill h child w = (Inr (), w') \<and> live w' = live w - {child} \<and> used w' = used w"
    and others: "live (ho_sleep h d w) = live w" "used (ho_sleep h d w) = used w"
      "ho_status h cmd w = (q, w1) \<Longrightarrow> live w1 = live w \<and> used w1 = used w"
      "ho_start h c w = (p, w2) \<Longrightarrow> live w2 = live w \<and> used w2 = used w"
      "ho_connect h a w = (n, w3) \<Longrightarrow> live w3 = live w \<and> used w3 = used w"
      "ho_query_opt h n1 sql w = (b, w4) \<Longrightarrow> live w4 = live w \<and> used w4 = used w"
      "ho_batch_execute h n2 sql w = (u, w5) \<Longrightarrow> live w5 = live w \<and> used w5 = used w"
      "ho_get h url w = (g, w6) \<Longrightarrow> live w6 = live w \<and> used w6 = used w"
begin

text \<open>While a test runs, at most its two programs run on top of the processes of before.\<close>

definition running :: "nat set \<Rightarrow> 'w \<times> Infra \<Rightarrow> bool" where
  "running base s \<longleftrightarrow>
     (let p = cdc_producer (snd s); c = postgres_connector (snd s); w = fst s
      in base \<subseteq> live w \<and> live w \<subseteq> base \<union> {p, c} \<and> p \<notin> base \<and> c \<notin> base \<and> p \<noteq> c \<and>
         base \<union> {p, c} \<subseteq> used w)"

text \<open>What holds before and after: some processes run, known to the host.\<close>

definition only :: "nat set \<Rightarrow> nat set \<Rightarrow> 'w \<times> 'i \<Rightarrow> bool" where
  "only base us s \<longleftrightarrow> live (fst s) = base \<and> us \<subseteq> used (fst s)"

lemma keeps_call:
  assumes "\<And>w r w'. call w = (r, w') \<Longrightarrow> live w' = live w \<and> used w' = used w"
  shows "keeps (running base) (expect_call call)" and "keeps (only base us) (expect_call call)"
  using assms
  by (force simp: keeps_def expect_call_def running_def only_def Let_def split: sum.splits prod.splits)+

lemma keeps_sleeping [keeping]:
  "keeps (running base) (sleeping h d)" "keeps (only base us) (sleeping h d)"
  by (auto simp: keeps_def sleeping_def running_def only_def others Let_def)

lemma keeps_exec_on_source [keeping]: "keeps (running base) (exec_on_source h sql)"
proof -
  have "keeps (running base) (expect_call (ho_batch_execute h n sql))" for n
    using others(7) by (intro keeps_call(1)) blast
  then show ?thesis by (simp add: keeps_def exec_on_source_def)
qed

lemma keeps_wait_for_sink_row [keeping]: "keeps (running base) (wait_for_sink_row h table where_clause timeout)"
  and keeps_not_sink_row [keeping]: "keeps (running base) (not_sink_row h table where_clause timeout)"
proof -
  have round: "running base (ho_sleep h 500 w, self)" "running base (snd (ho_query_opt h client sql w), self)"
    if "running base (w, self)" for w self client sql
    using that others(1,2) others(6) [of client sql w] by (auto simp: running_def Let_def prod_eq_iff)
  note keep = poll_for_row_keeps [where I = "\<lambda>w. running base (w, self)" for self]
    poll_for_no_row_keeps [where I = "\<lambda>w. running base (w, self)" for self]
  show "keeps (running base) (wait_for_sink_row h table where_clause timeout)"
    unfolding keeps_def wait_for_sink_row_def with_infra_def using keep(1) [OF round] by fastforce
  show "keeps (running base) (not_sink_row h table where_clause timeout)"
    unfolding keeps_def not_sink_row_def with_infra_def using keep(2) [OF round] by fastforce
qed

end

context process_host begin

lemma kill_step:
  obtains w' where "kill_binary h child (w, i) = Some (Some (), (w', i))"
    and "live w' = live w - {child}" and "used w' = used w"
  using killed [of child w] by (auto simp: kill_binary_def expect_call_def)

lemma spawn_step:
  obtains (child) child w' where "spawn_binary h cmd (w, i) = Some (Some child, (w', i))" and "child \<notin> used w"
    and "live w' = insert child (live w)" and "used w' = insert child (used w)"
  | (failed) w' where "spawn_binary h cmd (w, i) = Some (None, (w', i))" and "live w' = live w" and "used w' = used w"
proof -
  obtain r w' where r: "ho_spawn h cmd w = (r, w')" by fastforce
  show thesis
  proof (cases r)
    case (Inl e)
    have "spawn_binary h cmd (w, i) = Some (None, (w', i))" by (simp add: spawn_binary_def expect_call_def r Inl)
    then show thesis using failed not_spawned [of cmd w e w'] r Inl by simp
  next
    case (Inr p)
    have "spawn_binary h cmd (w, i) = Some (Some p, (w', i))" by (simp add: spawn_binary_def expect_call_def r Inr)
    then show thesis using child spawned [of cmd w p w'] r Inr by simp
  qed
qed

text \<open>
  A restart replaces the child: killing the old one again, when the assignment drops it, does not reach
  the new one.
\<close>

lemma restart_producer_running:
  assumes "running base (w, self)"
  shows "\<exists>r w' self'. restart_producer h (w, self) = Some (r, (w', self')) \<and> running base (w', self') \<and>
    (r = Some () \<longrightarrow> cdc_producer self' \<in> live w' \<and> cdc_producer self' \<notin> used w)"
proof -
  let ?old = "cdc_producer self"
  obtain w1 where w1: "kill_binary h ?old (w, self) = Some (Some (), (w1, self))" "live w1 = live w - {?old}" "used w1 = used w"
    by (rule kill_step)
  have w2: "live (ho_sleep h 500 w1) = live w - {?old}" "used (ho_sleep h 500 w1) = used w"
    using w1 by (simp_all add: others)
  show ?thesis
  proof (cases rule: spawn_step [of cdc_producer_command "ho_sleep h 500 w1" self])
    case (child c w3)
    obtain w4 where w4: "kill_binary h ?old (w3, self\<lparr>cdc_producer := c\<rparr>) = Some (Some (), (w4, self\<lparr>cdc_producer := c\<rparr>))"
      "live w4 = live w3 - {?old}" "used w4 = used w3"
      by (rule kill_step)
    have "c \<noteq> ?old" using child(2) assms w2(2) by (auto simp: running_def Let_def)
    then show ?thesis
      using assms child w1 w2 w4
      by (auto simp: restart_producer_def await_def sleeping_def running_def Let_def)
  next
    case (failed w3)
    then show ?thesis
      using assms w1 w2 by (auto simp: restart_producer_def await_def sleeping_def running_def Let_def)
  qed
qed

lemma restart_connector_running:
  assumes "running base (w, self)"
  shows "\<exists>r w' self'. restart_connector h (w, self) = Some (r, (w', self')) \<and> running base (w', self') \<and>
    (r = Some () \<longrightarrow> postgres_connector self' \<in> live w' \<and> postgres_connector self' \<notin> used w)"
proof -
  let ?old = "postgres_connector self"
  obtain w1 where w1: "kill_binary h ?old (w, self) = Some (Some (), (w1, self))" "live w1 = live w - {?old}" "used w1 = used w"
    by (rule kill_step)
  have w2: "live (ho_sleep h 500 w1) = live w - {?old}" "used (ho_sleep h 500 w1) = used w"
    using w1 by (simp_all add: others)
  show ?thesis
  proof (cases rule: spawn_step [of postgres_connector_command "ho_sleep h 500 w1" self])
    case (child c w3)
    obtain w4 where w4: "kill_binary h ?old (w3, self\<lparr>postgres_connector := c\<rparr>) = Some (Some (), (w4, self\<lparr>postgres_connector := c\<rparr>))"
      "live w4 = live w3 - {?old}" "used w4 = used w3"
      by (rule kill_step)
    have "c \<noteq> ?old" using child(2) assms w2(2) by (auto simp: running_def Let_def)
    then show ?thesis
      using assms child w1 w2 w4
      by (auto simp: restart_connector_def await_def sleeping_def running_def Let_def)
  next
    case (failed w3)
    then show ?thesis
      using assms w1 w2 by (auto simp: restart_connector_def await_def sleeping_def running_def Let_def)
  qed
qed

lemma keeps_restart [keeping]:
  "keeps (running base) (restart_producer h)" "keeps (running base) (restart_connector h)"
proof -
  show "keeps (running base) (restart_producer h)"
    unfolding keeps_def using restart_producer_running by (fast elim: prod.exhaust)
  show "keeps (running base) (restart_connector h)"
    unfolding keeps_def using restart_connector_running by fast
qed

lemma infra_drop_stops:
  assumes "running base (w, self)"
  shows "\<exists>w'. infra_drop h (w, self) = Some (Some (), (w', self)) \<and> live w' = base"
proof -
  let ?p = "cdc_producer self" and ?c = "postgres_connector self"
  obtain w1 where w1: "kill_binary h ?c (w, self) = Some (Some (), (w1, self))" "live w1 = live w - {?c}" by (rule kill_step)
  obtain w2 where w2: "kill_binary h ?p (w1, self) = Some (Some (), (w2, self))" "live w2 = live w1 - {?p}" by (rule kill_step)
  obtain w3 where w3: "kill_binary h ?p (w2, self) = Some (Some (), (w3, self))" "live w3 = live w2 - {?p}" by (rule kill_step)
  obtain w4 where w4: "kill_binary h ?c (w3, self) = Some (Some (), (w4, self))" "live w4 = live w3 - {?c}" by (rule kill_step)
  have "live w4 = live w - {?c} - {?p} - {?p} - {?c}" by (simp only: w1(2) w2(2) w3(2) w4(2))
  then have "live w4 = live w - {?p, ?c}" by blast
  moreover have "base \<subseteq> live w" "live w \<subseteq> base \<union> {?p, ?c}" "?p \<notin> base" "?c \<notin> base"
    using assms by (simp_all add: running_def Let_def)
  ultimately have "live w4 = base" by blast
  then show ?thesis using w1(1) w2(1) w3(1) w4(1) by (simp add: infra_drop_def await_def)
qed

end

text \<open>
  Rules for the set-up: from \<open>I\<close> an action returns, with \<open>Q\<close> for its value or with \<open>E\<close> after a panic.
\<close>

definition leads :: "('s \<Rightarrow> bool) \<Rightarrow> ('a \<Rightarrow> 's \<Rightarrow> bool) \<Rightarrow> ('s \<Rightarrow> bool) \<Rightarrow> ('s, 'a) act \<Rightarrow> bool" where
  "leads I Q E m \<longleftrightarrow>
     (\<forall>s. I s \<longrightarrow> (\<exists>r s'. m s = Some (r, s') \<and> (case r of None \<Rightarrow> E s' | Some a \<Rightarrow> Q a s')))"

lemma leads_run:
  assumes "leads I Q E m" and "I s"
  obtains (returns) a s' where "m s = Some (Some a, s')" and "Q a s'"
    | (panics) s' where "m s = Some (None, s')" and "E s'"
proof -
  obtain r s' where "m s = Some (r, s')" "case r of None \<Rightarrow> E s' | Some a \<Rightarrow> Q a s'"
    using assms unfolding leads_def by blast
  then show thesis using returns panics by (cases r) auto
qed

lemma leads_keeps: "keeps I m \<Longrightarrow> leads I (\<lambda>_. I) I m"
  unfolding keeps_def leads_def by (fastforce split: option.split)

lemma leads_finish: "(\<And>s. I s \<Longrightarrow> Q a s) \<Longrightarrow> leads I Q E (finish a)"
  by (simp add: leads_def finish_def)

lemma leads_await:
  assumes "leads I R E m" and "\<And>a. leads (R a) Q E (f a)"
  shows "leads I Q E (await m f)"
  unfolding leads_def
proof (intro allI impI)
  fix s
  assume I: "I s"
  show "\<exists>r s'. await m f s = Some (r, s') \<and> (case r of None \<Rightarrow> E s' | Some a \<Rightarrow> Q a s')"
  proof (cases rule: leads_run [OF assms(1) I, case_names returns panics])
    case (returns a s1)
    then show ?thesis using assms(2) [of a] unfolding leads_def by (simp add: await_def)
  next
    case (panics s1)
    then show ?thesis by (simp add: await_def)
  qed
qed

lemma leads_unwinding:
  assumes "leads I Q E' m" and "leads E' (\<lambda>_. E) E d"
  shows "leads I Q E (unwinding d m)"
  unfolding leads_def
proof (intro allI impI)
  fix s
  assume I: "I s"
  show "\<exists>r s'. unwinding d m s = Some (r, s') \<and> (case r of None \<Rightarrow> E s' | Some a \<Rightarrow> Q a s')"
  proof (cases rule: leads_run [OF assms(1) I, case_names returns panics])
    case (returns a s1)
    then show ?thesis by (simp add: unwinding_def)
  next
    case (panics s1)
    show ?thesis by (cases rule: leads_run [OF assms(2) panics(2)]) (simp_all add: unwinding_def panics(1))
  qed
qed

lemma leads_weaken:
  assumes "leads I Q E m" and "\<And>a s. Q a s \<Longrightarrow> Q' a s"
  shows "leads I Q' E m"
  unfolding leads_def
proof (intro allI impI)
  fix s
  assume I: "I s"
  show "\<exists>r s'. m s = Some (r, s') \<and> (case r of None \<Rightarrow> E s' | Some a \<Rightarrow> Q' a s')"
    by (cases rule: leads_run [OF assms(1) I]) (simp_all add: assms(2))
qed

context process_host begin

lemma keeps_build_crate [keeping]: "keeps (only base us) (build_crate h name)"
  unfolding build_crate_def using others(3) by (intro keeping keeps_call(2)) (auto intro: keeping)

lemma keeps_create_conn [keeping]: "keeps (only base us) (create_conn h port)"
  unfolding create_conn_def using others(5) by (intro keeps_call(2)) blast

lemma keeps_start_container [keeping]: "keeps (only base us) (start_container h c)"
  using others(4) by (auto simp: keeps_def start_container_def only_def split: prod.splits)

lemma keeps_expect_result [keeping]: "keeps (only base us) (expect_result r)"
  by (cases r) (simp_all add: expect_result_def keeping)

lemma keeps_register_ids [keeping]: "keeps (only base us) (register_ids new)"
  by (auto simp: keeps_def register_ids_def only_def)

lemma leads_connect_infra:
  "leads (only base us) (\<lambda>self s. only base us s \<and> cdc_producer self = p \<and> postgres_connector self = c) (only base us)
     (connect_infra h res_r res_s res_k p c)"
  unfolding connect_infra_def
  by (intro leads_await [OF leads_keeps] keeping leads_finish) simp

lemma leads_spawn:
  "leads (only base base) (\<lambda>p s. p \<notin> base \<and> only (insert p base) (insert p base) s) (only base base)
     (spawn_binary h cmd)"
  unfolding leads_def
proof (intro allI impI)
  fix s :: "'w \<times> 'j"
  assume s: "only base base s"
  obtain w i where "s = (w, i)" by (cases s)
  then show "\<exists>r s'. spawn_binary h cmd s = Some (r, s') \<and>
      (case r of None \<Rightarrow> only base base s' | Some p \<Rightarrow> p \<notin> base \<and> only (insert p base) (insert p base) s')"
    using s by (cases rule: spawn_step [of cmd w i]) (fastforce simp: only_def)+
qed

lemma leads_kill:
  assumes "c \<notin> base"
  shows "leads (only (insert c base) (insert c base)) (\<lambda>_. only base base) (only base base) (kill_binary h c)"
  unfolding leads_def
proof (intro allI impI)
  fix s :: "'w \<times> 'j"
  assume s: "only (insert c base) (insert c base) s"
  obtain w i where wi: "s = (w, i)" by (cases s)
  obtain w' where "kill_binary h c (w, i) = Some (Some (), (w', i))" "live w' = live w - {c}" "used w' = used w"
    by (rule kill_step)
  then show "\<exists>r s'. kill_binary h c s = Some (r, s') \<and>
      (case r of None \<Rightarrow> only base base s' | Some _ \<Rightarrow> only base base s')"
    using s assms by (fastforce simp: only_def wi)
qed

end

context process_host begin

lemma leads_start_programs:
  assumes "\<And>p c. keeps (only (insert c (insert p base)) (insert c (insert p base))) (rest p c)"
    and "\<And>p c. p \<notin> base \<Longrightarrow> c \<notin> insert p base \<Longrightarrow>
      leads (only (insert c (insert p base)) (insert c (insert p base))) Q
        (only (insert c (insert p base)) (insert c (insert p base))) (rest p c)"
  shows "leads (only base base) Q (only base base) (start_programs h rest)"
  unfolding start_programs_def
proof (rule leads_await [OF leads_spawn])
  fix p
  let ?B = "insert p base"
  have inner: "leads (only ?B ?B) Q (only ?B ?B)
      (await (sleeping h 3000) (\<lambda>_. await (spawn_binary h postgres_connector_command) (\<lambda>c.
         unwinding (kill_binary h c) (rest p c))))" if p: "p \<notin> base"
  proof (rule leads_await [OF leads_keeps [OF keeps_sleeping(2)]], rule leads_await [OF leads_spawn])
    fix c
    show "leads (\<lambda>s. c \<notin> ?B \<and> only (insert c ?B) (insert c ?B) s) Q (only ?B ?B)
        (unwinding (kill_binary h c) (rest p c))"
    proof (cases "c \<in> ?B")
      case True
      then show ?thesis by (simp add: leads_def)
    next
      case False
      from leads_unwinding [OF assms(2) [OF p False] leads_kill [OF False]] show ?thesis by (simp add: leads_def)
    qed
  qed
  show "leads (\<lambda>s. p \<notin> base \<and> only ?B ?B s) Q (only base base)
      (unwinding (kill_binary h p) (await (sleeping h 3000) (\<lambda>_.
         await (spawn_binary h postgres_connector_command) (\<lambda>c. unwinding (kill_binary h c) (rest p c)))))"
  proof (cases "p \<in> base")
    case True
    then show ?thesis by (simp add: leads_def)
  next
    case False
    from leads_unwinding [OF inner [OF False] leads_kill [OF False]] show ?thesis by (simp add: leads_def)
  qed
qed

lemma leads_init_infra:
  "leads (only base base) (\<lambda>self (w, ids). running base (w, self)) (only base base) (init_infra h)"
  unfolding init_infra_def
proof (intro leads_await [OF leads_keeps] keeping leads_start_programs)
  fix r1 r2 r3 p c
  let ?B = "insert c (insert p base)"
  show "keeps (only ?B ?B) (connect_infra h r1 r2 r3 p c)"
    unfolding connect_infra_def by (intro keeping)
  assume "p \<notin> base" and "c \<notin> insert p base"
  then have "running base (fst s, self)" if "only ?B ?B s \<and> cdc_producer self = p \<and> postgres_connector self = c" for self and s :: "'w \<times> string list"
    using that by (auto simp: only_def running_def Let_def)
  then show "leads (only ?B ?B) (\<lambda>self (w, ids). running base (w, self)) (only ?B ?B) (connect_infra h r1 r2 r3 p c)"
    by (intro leads_weaken [OF leads_connect_infra [where p = p and c = c]]) (simp add: split_beta)
qed

text \<open>
  Whatever a test does with the infrastructure, and whether it passes or panics: it ends, and of the
  processes it started none is left.
\<close>

lemma test_leaves_no_process:
  assumes "keeps (running (live w)) body" and "live w \<subseteq> used w"
  shows "\<exists>r w' ids'. run_test h body (w, ids) = Some (r, (w', ids')) \<and> live w' = live w"
proof -
  have start: "only (live w) (live w) (w, ids)" using assms(2) by (simp add: only_def)
  show ?thesis
  proof (cases rule: leads_run [OF leads_init_infra start, case_names returns panics])
    case (panics s')
    then show ?thesis by (cases s') (simp add: run_test_def only_def)
  next
    case (returns self s')
    obtain w1 ids1 where s': "s' = (w1, ids1)" by (cases s')
    obtain r w2 self2 where b: "body (w1, self) = Some (r, (w2, self2))" "running (live w) (w2, self2)"
      using keeps_run [OF assms(1), of "(w1, self)"] returns(2) by (auto simp: s')
    from infra_drop_stops [OF b(2)] obtain w3 where
      d: "infra_drop h (w2, self2) = Some (Some (), (w3, self2))" "live w3 = live w" by blast
    show ?thesis
      using returns(1) b d by (simp add: run_test_def s' dropping_def)
  qed
qed

end

end
