(* ===== verification/Avro_Serde.thy ===== *)
theory Avro_Serde imports Avro_Types begin

text \<open>
  The Avro side of \<open>cdc-avro/src/lib.rs\<close>: the two schemas, the \<open>Serialize\<close> and \<open>Deserialize\<close>
  implementations (the hand-written ones for values, column kinds and replica kinds, and the derived
  ones for operations, events, fields and relations), and \<open>into_avro\<close>/\<open>from_avro\<close>.  The crate
  \<open>serde_avro_fast\<close> is a parameter: it turns a value into bytes by a schema and back.
\<close>

subsection \<open>Values and schemas\<close>

datatype avro_value =
    AvNull
  | AvBool bool
  | AvInt i32
  | AvLong i64
  | AvString string
  | AvArray "avro_value list"
  | AvRecord string "(string \<times> avro_value) list"

datatype avro_schema =
    SNull
  | SBoolean
  | SInt
  | SLong
  | SString
  | SArray avro_schema
  | SUnion "avro_schema list"
  | SRecord string "(string \<times> avro_schema) list"

text \<open>A value of a schema: records have the schema's name and its fields in order.\<close>

fun conforms_to :: "avro_schema \<Rightarrow> avro_value \<Rightarrow> bool"
  and conforms_some :: "avro_schema list \<Rightarrow> avro_value \<Rightarrow> bool"
  and conforms_fields :: "(string \<times> avro_schema) list \<Rightarrow> (string \<times> avro_value) list \<Rightarrow> bool" where
  "conforms_to SNull v = (v = AvNull)"
| "conforms_to SBoolean v = (case v of AvBool b \<Rightarrow> True | _ \<Rightarrow> False)"
| "conforms_to SInt v = (case v of AvInt n \<Rightarrow> True | _ \<Rightarrow> False)"
| "conforms_to SLong v = (case v of AvLong n \<Rightarrow> True | _ \<Rightarrow> False)"
| "conforms_to SString v = (case v of AvString s \<Rightarrow> True | _ \<Rightarrow> False)"
| "conforms_to (SArray s) v = (case v of AvArray vs \<Rightarrow> (\<forall>x\<in>set vs. conforms_to s x) | _ \<Rightarrow> False)"
| "conforms_to (SUnion ss) v = conforms_some ss v"
| "conforms_to (SRecord name fs) v =
     (case v of AvRecord n vs \<Rightarrow> n = name \<and> conforms_fields fs vs | _ \<Rightarrow> False)"
| "conforms_some [] v = False"
| "conforms_some (s # ss) v = (conforms_to s v \<or> conforms_some ss v)"
| "conforms_fields [] vs = (vs = [])"
| "conforms_fields ((f, s) # fs) vs =
     (case vs of [] \<Rightarrow> False | (g, v) # vs' \<Rightarrow> g = f \<and> conforms_to s v \<and> conforms_fields fs vs')"

text \<open>A column value is a record named after its kind, with one field of that name.\<close>

definition value_record :: "string \<Rightarrow> avro_schema \<Rightarrow> avro_schema" where
  "value_record name s = SRecord name [(name, s)]"

definition insert_items :: avro_schema where
  "insert_items =
     SUnion [value_record ''Text'' SString, value_record ''Int4'' SLong, value_record ''Toasted'' SNull,
       value_record ''Null'' SNull, value_record ''Int8'' SLong, value_record ''Bool'' SBoolean,
       value_record ''Timestamp'' SLong]"

definition row_items_schema :: avro_schema where
  "row_items_schema =
     SUnion [value_record ''Text'' SString, value_record ''Int4'' SLong, value_record ''Null'' SNull,
       value_record ''Toasted'' SNull, value_record ''Int8'' SLong, value_record ''Bool'' SBoolean,
       value_record ''Timestamp'' SLong]"

definition op_schema :: avro_schema where
  "op_schema =
     SUnion
       [SRecord ''Insert'' [(''row'', SArray insert_items)],
        SRecord ''Update'' [(''old'', SArray row_items_schema), (''row'', SArray row_items_schema)],
        SRecord ''Delete'' [(''old'', SArray row_items_schema)]]"

definition CHANGE_EVENT_SCHEMA :: avro_schema where
  "CHANGE_EVENT_SCHEMA = SRecord ''ChangeEvent'' [(''op'', op_schema), (''rel'', SLong)]"

definition field_schema :: avro_schema where
  "field_schema = SRecord ''Field'' [(''is_key'', SBoolean), (''name'', SString), (''kind'', SInt)]"

definition RELATION_SCHEMA :: avro_schema where
  "RELATION_SCHEMA =
     SRecord ''Relation''
       [(''relation_oid'', SLong), (''namespace'', SString), (''name'', SString),
        (''fields'', SArray field_schema), (''replica_id'', SInt)]"

subsection \<open>Serializing\<close>

text \<open>
  The serializer writes every integer at the width of the schema (\<open>int\<close> or \<open>long\<close>), a struct as a
  record, a struct variant as the record of the variant's name, and a struct's fields in the order of
  the schema.  \<open>*self as u8\<close> of a field-less enum is the index of its variant.
\<close>

definition field_kind_as_u8 :: "FieldKind \<Rightarrow> byte" where
  "field_kind_as_u8 k =
     (case k of FK_Int4 \<Rightarrow> 0 | FK_Text \<Rightarrow> 1 | FK_Int8 \<Rightarrow> 2 | FK_Bool \<Rightarrow> 3 | FK_Timestamp \<Rightarrow> 4)"

definition serialize_field_kind :: "FieldKind \<Rightarrow> avro_value" where
  "serialize_field_kind k = AvInt (ucast (field_kind_as_u8 k))"

definition replica_kind_as_u8 :: "ReplicaKind \<Rightarrow> byte" where
  "replica_kind_as_u8 k = (case k of Keys \<Rightarrow> 0 | Row \<Rightarrow> 1)"

definition serialize_replica_kind :: "ReplicaKind \<Rightarrow> avro_value" where
  "serialize_replica_kind k = AvInt (ucast (replica_kind_as_u8 k))"

fun serialize_pgvalue :: "PgValue \<Rightarrow> avro_value" where
  "serialize_pgvalue Null = AvRecord ''Null'' [(''Null'', AvNull)]"
| "serialize_pgvalue (Text s) = AvRecord ''Text'' [(''Text'', AvString s)]"
| "serialize_pgvalue (Int4 n) = AvRecord ''Int4'' [(''Int4'', AvLong (scast n))]"
| "serialize_pgvalue (Int8 n) = AvRecord ''Int8'' [(''Int8'', AvLong n)]"
| "serialize_pgvalue (Bool b) = AvRecord ''Bool'' [(''Bool'', AvBool b)]"
| "serialize_pgvalue (Timestamp t) = AvRecord ''Timestamp'' [(''Timestamp'', AvLong t)]"
| "serialize_pgvalue Toasted = AvRecord ''Toasted'' [(''Toasted'', AvNull)]"

definition serialize_row :: "PgValue list \<Rightarrow> avro_value" where
  "serialize_row vs = AvArray (map serialize_pgvalue vs)"

fun serialize_op :: "Op \<Rightarrow> avro_value" where
  "serialize_op (Insert r) = AvRecord ''Insert'' [(''row'', serialize_row r)]"
| "serialize_op (Update olds r) = AvRecord ''Update'' [(''old'', serialize_row olds), (''row'', serialize_row r)]"
| "serialize_op (Delete olds) = AvRecord ''Delete'' [(''old'', serialize_row olds)]"

definition serialize_event :: "ChangeEvent \<Rightarrow> avro_value" where
  "serialize_event ev =
     AvRecord ''ChangeEvent'' [(''op'', serialize_op (ev_op ev)), (''rel'', AvLong (ucast (ev_rel ev)))]"

definition serialize_field :: "Field \<Rightarrow> avro_value" where
  "serialize_field f =
     AvRecord ''Field'' [(''is_key'', AvBool (f_is_key f)), (''name'', AvString (f_name f)),
       (''kind'', serialize_field_kind (f_kind f))]"

definition serialize_relation :: "Relation \<Rightarrow> avro_value" where
  "serialize_relation r =
     AvRecord ''Relation''
       [(''relation_oid'', AvLong (ucast (relation_oid r))), (''namespace'', AvString (r_namespace r)),
        (''name'', AvString (r_name r)), (''fields'', AvArray (map serialize_field (r_fields r))),
        (''replica_id'', serialize_replica_kind (replica_id r))]"

subsection \<open>Deserializing\<close>

text \<open>
  The primitive \<open>Deserialize\<close> implementations of the standard types: an integer of the datum is
  converted with a range check, other types must match.
\<close>

definition des_bind :: "string + 'a \<Rightarrow> ('a \<Rightarrow> string + 'b) \<Rightarrow> string + 'b" where
  "des_bind r f = (case r of Inl e \<Rightarrow> Inl e | Inr x \<Rightarrow> f x)"

definition integer_of :: "avro_value \<Rightarrow> string + int" where
  "integer_of v =
     (case v of AvInt n \<Rightarrow> Inr (sint n) | AvLong n \<Rightarrow> Inr (sint n) | _ \<Rightarrow> Inl ''invalid type'')"

definition in_range :: "int \<Rightarrow> int \<Rightarrow> int \<Rightarrow> string + int" where
  "in_range lo hi n = (if lo \<le> n \<and> n \<le> hi then Inr n else Inl ''invalid value'')"

definition deserialize_u8 :: "avro_value \<Rightarrow> string + byte" where
  "deserialize_u8 v =
     des_bind (integer_of v) (\<lambda>n. des_bind (in_range 0 255 n) (\<lambda>n. Inr (word_of_int n)))"

definition deserialize_u32 :: "avro_value \<Rightarrow> string + u32" where
  "deserialize_u32 v =
     des_bind (integer_of v) (\<lambda>n. des_bind (in_range 0 4294967295 n) (\<lambda>n. Inr (word_of_int n)))"

definition deserialize_i32 :: "avro_value \<Rightarrow> string + i32" where
  "deserialize_i32 v =
     des_bind (integer_of v) (\<lambda>n. des_bind (in_range (- 2147483648) 2147483647 n) (\<lambda>n. Inr (word_of_int n)))"

definition deserialize_i64 :: "avro_value \<Rightarrow> string + i64" where
  "deserialize_i64 v = des_bind (integer_of v) (\<lambda>n. Inr (word_of_int n))"

definition deserialize_bool :: "avro_value \<Rightarrow> string + bool" where
  "deserialize_bool v = (case v of AvBool b \<Rightarrow> Inr b | _ \<Rightarrow> Inl ''invalid type'')"

definition deserialize_str :: "avro_value \<Rightarrow> string + string" where
  "deserialize_str v = (case v of AvString s \<Rightarrow> Inr s | _ \<Rightarrow> Inl ''invalid type'')"

definition deserialize_unit :: "avro_value \<Rightarrow> string + unit" where
  "deserialize_unit v = (case v of AvNull \<Rightarrow> Inr () | _ \<Rightarrow> Inl ''invalid type'')"

fun deserialize_items :: "(avro_value \<Rightarrow> string + 'a) \<Rightarrow> avro_value list \<Rightarrow> string + 'a list" where
  "deserialize_items d [] = Inr []"
| "deserialize_items d (v # vs) =
     des_bind (d v) (\<lambda>x. des_bind (deserialize_items d vs) (\<lambda>xs. Inr (x # xs)))"

definition deserialize_vec :: "(avro_value \<Rightarrow> string + 'a) \<Rightarrow> avro_value \<Rightarrow> string + 'a list" where
  "deserialize_vec d v = (case v of AvArray vs \<Rightarrow> deserialize_items d vs | _ \<Rightarrow> Inl ''invalid type'')"

text \<open>A field of a derived struct, by name; a schema does not repeat a name.\<close>

definition struct_field :: "string \<Rightarrow> (string \<times> avro_value) list \<Rightarrow> string + avro_value" where
  "struct_field name fs =
     (case map_of fs name of Some v \<Rightarrow> Inr v | None \<Rightarrow> Inl (''missing field '' @ name))"

definition deserialize_field_kind :: "avro_value \<Rightarrow> string + FieldKind" where
  "deserialize_field_kind v =
     des_bind (deserialize_u8 v) (\<lambda>n.
       if n = 0 then Inr FK_Int4
       else if n = 1 then Inr FK_Text
       else if n = 2 then Inr FK_Int8
       else if n = 3 then Inr FK_Bool
       else if n = 4 then Inr FK_Timestamp
       else Inl (''unknown FieldKind: '' @ decimal (unat n)))"

definition deserialize_replica_kind :: "avro_value \<Rightarrow> string + ReplicaKind" where
  "deserialize_replica_kind v =
     des_bind (deserialize_u8 v) (\<lambda>n.
       if n = 0 then Inr Keys
       else if n = 1 then Inr Row
       else Inl (''unknown FieldKind: '' @ decimal (unat n)))"

fun visit_map :: "(string \<times> avro_value) list \<Rightarrow> string + PgValue" where
  "visit_map [] = Inl ''empty PgValue record''"
| "visit_map ((key, v) # rest) =
     (if key = ''Text'' then des_bind (deserialize_str v) (\<lambda>s. Inr (Text s))
      else if key = ''Int4'' then des_bind (deserialize_i32 v) (\<lambda>n. Inr (Int4 n))
      else if key = ''Int8'' then des_bind (deserialize_i64 v) (\<lambda>n. Inr (Int8 n))
      else if key = ''Bool'' then des_bind (deserialize_bool v) (\<lambda>b. Inr (Bool b))
      else if key = ''Timestamp'' then des_bind (deserialize_i64 v) (\<lambda>t. Inr (Timestamp t))
      else if key = ''Null'' then des_bind (deserialize_unit v) (\<lambda>_. Inr Null)
      else if key = ''Toasted'' then des_bind (deserialize_unit v) (\<lambda>_. Inr Toasted)
      else Inl (''unknown PgValue variant: '' @ key))"

definition deserialize_pgvalue :: "avro_value \<Rightarrow> string + PgValue" where
  "deserialize_pgvalue v =
     (case v of
        AvRecord name fs \<Rightarrow> visit_map fs
      | _ \<Rightarrow> Inl ''expected a Text, Int4, Int8, Bool, Timestamp, Toasted or Null record'')"

definition deserialize_row :: "string \<Rightarrow> (string \<times> avro_value) list \<Rightarrow> string + PgValue list" where
  "deserialize_row name fs = des_bind (struct_field name fs) (deserialize_vec deserialize_pgvalue)"

definition deserialize_op :: "avro_value \<Rightarrow> string + Op" where
  "deserialize_op v =
     (case v of
        AvRecord variant fs \<Rightarrow>
          (if variant = ''Insert'' then des_bind (deserialize_row ''row'' fs) (\<lambda>r. Inr (Insert r))
           else if variant = ''Update'' then
             des_bind (deserialize_row ''old'' fs) (\<lambda>olds.
             des_bind (deserialize_row ''row'' fs) (\<lambda>r. Inr (Update olds r)))
           else if variant = ''Delete'' then des_bind (deserialize_row ''old'' fs) (\<lambda>olds. Inr (Delete olds))
           else Inl (''unknown variant '' @ variant))
      | _ \<Rightarrow> Inl ''invalid type'')"

definition deserialize_event :: "avro_value \<Rightarrow> string + ChangeEvent" where
  "deserialize_event v =
     (case v of
        AvRecord name fs \<Rightarrow>
          des_bind (des_bind (struct_field ''op'' fs) deserialize_op) (\<lambda>op'.
          des_bind (des_bind (struct_field ''rel'' fs) deserialize_u32) (\<lambda>rel.
            Inr \<lparr>ev_op = op', ev_rel = rel\<rparr>))
      | _ \<Rightarrow> Inl ''invalid type'')"

definition deserialize_field :: "avro_value \<Rightarrow> string + Field" where
  "deserialize_field v =
     (case v of
        AvRecord name fs \<Rightarrow>
          des_bind (des_bind (struct_field ''is_key'' fs) deserialize_bool) (\<lambda>k.
          des_bind (des_bind (struct_field ''name'' fs) deserialize_str) (\<lambda>n.
          des_bind (des_bind (struct_field ''kind'' fs) deserialize_field_kind) (\<lambda>kind.
            Inr \<lparr>f_is_key = k, f_name = n, f_kind = kind\<rparr>)))
      | _ \<Rightarrow> Inl ''invalid type'')"

definition deserialize_relation :: "avro_value \<Rightarrow> string + Relation" where
  "deserialize_relation v =
     (case v of
        AvRecord name fs \<Rightarrow>
          des_bind (des_bind (struct_field ''relation_oid'' fs) deserialize_u32) (\<lambda>oid.
          des_bind (des_bind (struct_field ''name'' fs) deserialize_str) (\<lambda>n.
          des_bind (des_bind (struct_field ''namespace'' fs) deserialize_str) (\<lambda>ns.
          des_bind (des_bind (struct_field ''fields'' fs) (deserialize_vec deserialize_field)) (\<lambda>fields.
          des_bind (des_bind (struct_field ''replica_id'' fs) deserialize_replica_kind) (\<lambda>rk.
            Inr \<lparr>relation_oid = oid, r_name = n, r_namespace = ns, r_fields = fields, replica_id = rk\<rparr>)))))
      | _ \<Rightarrow> Inl ''invalid type'')"

subsection \<open>Into and from Avro\<close>

text \<open>\<open>to_datum\<close> and \<open>from_datum_slice\<close> of \<open>serde_avro_fast\<close>; an error is its text.\<close>

record avro_library =
  to_datum :: "avro_schema \<Rightarrow> avro_value \<Rightarrow> string + byte list"
  from_datum_slice :: "avro_schema \<Rightarrow> byte list \<Rightarrow> string + avro_value"

datatype FromAvroError = NoEvents | Avro string

definition from_avro_error_eq :: "FromAvroError \<Rightarrow> FromAvroError \<Rightarrow> bool" where
  "from_avro_error_eq self other =
     (case (self, other) of
        (NoEvents, NoEvents) \<Rightarrow> True
      | (Avro _, Avro _) \<Rightarrow> True
      | _ \<Rightarrow> False)"

definition event_into_avro :: "avro_library \<Rightarrow> ChangeEvent \<Rightarrow> string + byte list" where
  "event_into_avro lib self = to_datum lib CHANGE_EVENT_SCHEMA (serialize_event self)"

definition event_from_avro :: "avro_library \<Rightarrow> byte list \<Rightarrow> FromAvroError + ChangeEvent" where
  "event_from_avro lib data =
     map_sum Avro id (des_bind (from_datum_slice lib CHANGE_EVENT_SCHEMA data) deserialize_event)"

definition relation_into_avro :: "avro_library \<Rightarrow> Relation \<Rightarrow> string + byte list" where
  "relation_into_avro lib self = to_datum lib RELATION_SCHEMA (serialize_relation self)"

definition relation_from_avro :: "avro_library \<Rightarrow> byte list \<Rightarrow> FromAvroError + Relation" where
  "relation_from_avro lib data =
     map_sum Avro id (des_bind (from_datum_slice lib RELATION_SCHEMA data) deserialize_relation)"

subsection \<open>Conformance\<close>

lemmas schema_defs = insert_items_def row_items_schema_def value_record_def

lemma pgvalue_conforms:
  "conforms_to insert_items (serialize_pgvalue p)" "conforms_to row_items_schema (serialize_pgvalue p)"
  by (cases p; simp add: schema_defs)+

lemma row_conforms:
  "conforms_to (SArray insert_items) (serialize_row vs)" "conforms_to (SArray row_items_schema) (serialize_row vs)"
  by (simp_all add: serialize_row_def pgvalue_conforms)

lemma event_conforms: "conforms_to CHANGE_EVENT_SCHEMA (serialize_event ev)"
  by (cases "ev_op ev") (simp_all add: CHANGE_EVENT_SCHEMA_def op_schema_def serialize_event_def row_conforms del: conforms_to.simps(6))

lemma relation_conforms: "conforms_to RELATION_SCHEMA (serialize_relation rel)"
  by (simp add: RELATION_SCHEMA_def field_schema_def serialize_relation_def serialize_field_def serialize_field_kind_def
      serialize_replica_kind_def)

subsection \<open>Integers\<close>

lemma sint_scast_i32: "sint (scast (m :: i32) :: i64) = sint m"
  by (rule sint_up_scast) (simp add: is_up)

lemma sint_ucast_u32: "sint (ucast (m :: u32) :: i64) = uint m"
  unfolding ucast_eq int_word_sint using uint_lt2p [of m] uint_ge_0 [of m] by simp

lemma sint_ucast_u8: "sint (ucast (m :: byte) :: i32) = uint m"
  unfolding ucast_eq int_word_sint using uint_lt2p [of m] uint_ge_0 [of m] by simp

lemma sint_word_of_int_i32: "- 2147483648 \<le> k \<Longrightarrow> k \<le> 2147483647 \<Longrightarrow> sint (word_of_int k :: i32) = k"
  by (simp add: int_word_sint)

lemma uint_word_of_int_u32: "0 \<le> k \<Longrightarrow> k \<le> 4294967295 \<Longrightarrow> uint (word_of_int k :: u32) = k"
  by (simp add: uint_word_of_int)

lemma uint_word_of_int_u8: "0 \<le> k \<Longrightarrow> k \<le> 255 \<Longrightarrow> uint (word_of_int k :: byte) = k"
  by (simp add: uint_word_of_int)

lemma des_bind_Inr_iff: "des_bind r f = Inr y \<longleftrightarrow> (\<exists>x. r = Inr x \<and> f x = Inr y)"
  by (cases r) (auto simp: des_bind_def)

lemma in_range_Inr_iff: "in_range lo hi n = Inr m \<longleftrightarrow> m = n \<and> lo \<le> n \<and> n \<le> hi"
  by (auto simp: in_range_def)

lemma deserialize_i64_iff: "deserialize_i64 (AvLong n) = Inr m \<longleftrightarrow> n = m"
  by (auto simp: deserialize_i64_def des_bind_Inr_iff integer_of_def)

lemma deserialize_i32_iff: "deserialize_i32 (AvLong n) = Inr m \<longleftrightarrow> n = scast m"
proof
  assume "deserialize_i32 (AvLong n) = Inr m"
  then have "- 2147483648 \<le> sint n" "sint n \<le> 2147483647" "m = word_of_int (sint n)"
    by (auto simp: deserialize_i32_def des_bind_Inr_iff in_range_Inr_iff integer_of_def)
  then have "sint m = sint n" using sint_word_of_int_i32 [of "sint n"] by metis
  then show "n = scast m" using sint_scast_i32 [of m] by (metis word_eq_iff_signed)
next
  assume "n = scast m"
  moreover have "- 2147483648 \<le> sint m" "sint m \<le> 2147483647"
    using sint_greater_eq [of m] sint_less [of m] by simp_all
  ultimately show "deserialize_i32 (AvLong n) = Inr m"
    by (simp add: deserialize_i32_def des_bind_Inr_iff in_range_Inr_iff integer_of_def sint_scast_i32)
qed

lemma deserialize_u32_iff: "deserialize_u32 (AvLong n) = Inr m \<longleftrightarrow> n = ucast m"
proof
  assume "deserialize_u32 (AvLong n) = Inr m"
  then have "0 \<le> sint n" "sint n \<le> 4294967295" "m = word_of_int (sint n)"
    by (auto simp: deserialize_u32_def des_bind_Inr_iff in_range_Inr_iff integer_of_def)
  then have "uint m = sint n" using uint_word_of_int_u32 [of "sint n"] by metis
  then show "n = ucast m" using sint_ucast_u32 by (metis word_eq_iff_signed)
next
  assume "n = ucast m"
  moreover have "0 \<le> uint m" "uint m \<le> 4294967295" using uint_lt2p [of m] by simp_all
  ultimately show "deserialize_u32 (AvLong n) = Inr m"
    by (simp add: deserialize_u32_def des_bind_Inr_iff in_range_Inr_iff integer_of_def sint_ucast_u32)
qed

lemma deserialize_u8_iff: "deserialize_u8 (AvInt n) = Inr m \<longleftrightarrow> n = ucast m"
proof
  assume "deserialize_u8 (AvInt n) = Inr m"
  then have "0 \<le> sint n" "sint n \<le> 255" "m = word_of_int (sint n)"
    by (auto simp: deserialize_u8_def des_bind_Inr_iff in_range_Inr_iff integer_of_def)
  then have "uint m = sint n" using uint_word_of_int_u8 [of "sint n"] by metis
  then show "n = ucast m" using sint_ucast_u8 by (metis word_eq_iff_signed)
next
  assume "n = ucast m"
  moreover have "0 \<le> uint m" "uint m \<le> 255" using uint_lt2p [of m] by simp_all
  ultimately show "deserialize_u8 (AvInt n) = Inr m"
    by (simp add: deserialize_u8_def des_bind_Inr_iff in_range_Inr_iff integer_of_def sint_ucast_u8)
qed

subsection \<open>Reading back\<close>

text \<open>On a value of its schema, each reader returns exactly what the writer wrote, or an error.\<close>

lemma field_kind_exact: "deserialize_field_kind (AvInt n) = Inr k \<longleftrightarrow> AvInt n = serialize_field_kind k"
  using deserialize_u8_iff [of n "field_kind_as_u8 k"]
  by (cases "deserialize_u8 (AvInt n)"; cases k)
    (auto simp: deserialize_field_kind_def des_bind_def serialize_field_kind_def field_kind_as_u8_def)

lemma replica_kind_exact: "deserialize_replica_kind (AvInt n) = Inr k \<longleftrightarrow> AvInt n = serialize_replica_kind k"
  using deserialize_u8_iff [of n "replica_kind_as_u8 k"]
  by (cases "deserialize_u8 (AvInt n)"; cases k)
    (auto simp: deserialize_replica_kind_def des_bind_def serialize_replica_kind_def replica_kind_as_u8_def)

lemma conforms_iff:
  "conforms_to SBoolean v \<longleftrightarrow> (\<exists>b. v = AvBool b)"
  "conforms_to SInt v \<longleftrightarrow> (\<exists>i. v = AvInt i)"
  "conforms_to SLong v \<longleftrightarrow> (\<exists>n. v = AvLong n)"
  "conforms_to SString v \<longleftrightarrow> (\<exists>s. v = AvString s)"
  "conforms_to (SArray sch) v \<longleftrightarrow> (\<exists>vs. v = AvArray vs \<and> (\<forall>x\<in>set vs. conforms_to sch x))"
  "conforms_to (SRecord name fs) v \<longleftrightarrow> (\<exists>vs. v = AvRecord name vs \<and> conforms_fields fs vs)"
  "conforms_fields ((f, sch) # fs) vs \<longleftrightarrow>
     (\<exists>x vs'. vs = (f, x) # vs' \<and> conforms_to sch x \<and> conforms_fields fs vs')"
  by (auto split: avro_value.splits list.splits)

lemma value_record_iff: "conforms_to (value_record n sch) v \<longleftrightarrow> (\<exists>x. v = AvRecord n [(n, x)] \<and> conforms_to sch x)"
  unfolding value_record_def conforms_iff by auto

lemma value_record_leaf:
  "conforms_to (value_record n SString) v \<longleftrightarrow> (\<exists>s. v = AvRecord n [(n, AvString s)])"
  "conforms_to (value_record n SLong) v \<longleftrightarrow> (\<exists>i. v = AvRecord n [(n, AvLong i)])"
  "conforms_to (value_record n SBoolean) v \<longleftrightarrow> (\<exists>b. v = AvRecord n [(n, AvBool b)])"
  "conforms_to (value_record n SNull) v \<longleftrightarrow> v = AvRecord n [(n, AvNull)]"
  by (auto simp: value_record_iff conforms_iff simp del: conforms_to.simps(2-6))

lemma items_iff:
  "conforms_to insert_items v \<or> conforms_to row_items_schema v \<longleftrightarrow>
    (\<exists>(n, sch)\<in>{(''Text'', SString), (''Int4'', SLong), (''Int8'', SLong), (''Bool'', SBoolean),
      (''Timestamp'', SLong), (''Null'', SNull), (''Toasted'', SNull)}. conforms_to (value_record n sch) v)"
  unfolding insert_items_def row_items_schema_def conforms_to.simps(7) conforms_some.simps
   by (simp only: bex_simps prod.case) argo

lemma value_conforms_cases:
  assumes "conforms_to insert_items v \<or> conforms_to row_items_schema v"
  obtains (Text) s where "v = AvRecord ''Text'' [(''Text'', AvString s)]"
  | (Int4) n where "v = AvRecord ''Int4'' [(''Int4'', AvLong n)]"
  | (Int8) n where "v = AvRecord ''Int8'' [(''Int8'', AvLong n)]"
  | (Bool) b where "v = AvRecord ''Bool'' [(''Bool'', AvBool b)]"
  | (Timestamp) t where "v = AvRecord ''Timestamp'' [(''Timestamp'', AvLong t)]"
  | (Null) "v = AvRecord ''Null'' [(''Null'', AvNull)]"
  | (Toasted) "v = AvRecord ''Toasted'' [(''Toasted'', AvNull)]"
  using assms unfolding items_iff bex_simps prod.case value_record_leaf
  by (elim disjE exE FalseE) (rule that, assumption)+
lemmas value_readers = deserialize_pgvalue_def des_bind_Inr_iff deserialize_str_def deserialize_bool_def
  deserialize_unit_def deserialize_i32_iff deserialize_i64_iff

lemma pgvalue_exact:
  assumes "conforms_to insert_items v \<or> conforms_to row_items_schema v"
  shows "deserialize_pgvalue v = Inr p \<longleftrightarrow> v = serialize_pgvalue p"
  using assms by (cases v rule: value_conforms_cases; cases p) (simp_all add: value_readers)

lemma items_exact:
  assumes "\<forall>v\<in>set vs. \<forall>x. d v = Inr x \<longleftrightarrow> v = ser x"
  shows "deserialize_items d vs = Inr xs \<longleftrightarrow> vs = map ser xs"
  using assms by (induction vs arbitrary: xs) (auto simp: des_bind_Inr_iff Cons_eq_map_conv)

lemma row_exact:
  assumes "conforms_to (SArray insert_items) v \<or> conforms_to (SArray row_items_schema) v"
  shows "deserialize_vec deserialize_pgvalue v = Inr r \<longleftrightarrow> v = serialize_row r"
proof -
  from assms obtain vs where v: "v = AvArray vs"
    and "\<forall>x\<in>set vs. conforms_to insert_items x \<or> conforms_to row_items_schema x"
    unfolding conforms_iff by auto
  then have "\<forall>x\<in>set vs. \<forall>p. deserialize_pgvalue x = Inr p \<longleftrightarrow> x = serialize_pgvalue p"
    using pgvalue_exact by blast
  from items_exact [OF this] show ?thesis by (simp add: v deserialize_vec_def serialize_row_def)
qed

lemma op_exact:
  assumes "conforms_to op_schema v"
  shows "deserialize_op v = Inr op' \<longleftrightarrow> v = serialize_op op'"
proof -
  from assms consider
      x where "v = AvRecord ''Insert'' [(''row'', x)]" "conforms_to (SArray insert_items) x"
    | x y where "v = AvRecord ''Update'' [(''old'', x), (''row'', y)]"
        "conforms_to (SArray row_items_schema) x" "conforms_to (SArray row_items_schema) y"
    | x where "v = AvRecord ''Delete'' [(''old'', x)]" "conforms_to (SArray row_items_schema) x"
    unfolding op_schema_def conforms_to.simps(7) conforms_some.simps conforms_iff(6,7) conforms_fields.simps(1) by blast
  then show ?thesis
  proof cases
    case 1
    then show ?thesis using row_exact [of x] 
      by (cases op') (auto simp: deserialize_op_def deserialize_row_def struct_field_def des_bind_Inr_iff)
  next
    case 2
    then show ?thesis using row_exact [of x] row_exact [of y]
      by (cases op') (auto simp: deserialize_op_def deserialize_row_def struct_field_def des_bind_Inr_iff)
  next
    case 3
    then show ?thesis using row_exact [of x]
      by (cases op') (auto simp: deserialize_op_def deserialize_row_def struct_field_def des_bind_Inr_iff)
  qed
qed

lemma event_exact:
  assumes "conforms_to CHANGE_EVENT_SCHEMA v"
  shows "deserialize_event v = Inr ev \<longleftrightarrow> v = serialize_event ev"
proof -
  from assms obtain x n where v: "v = AvRecord ''ChangeEvent'' [(''op'', x), (''rel'', AvLong n)]"
    and x: "conforms_to op_schema x"
    unfolding CHANGE_EVENT_SCHEMA_def conforms_iff(3,6,7) conforms_fields.simps(1) by blast
  show ?thesis
    using op_exact [OF x]
    by (cases ev) (auto simp: v deserialize_event_def struct_field_def des_bind_Inr_iff deserialize_u32_iff serialize_event_def)
qed

lemma field_exact:
  assumes "conforms_to field_schema v"
  shows "deserialize_field v = Inr f \<longleftrightarrow> v = serialize_field f"
proof -
  from assms obtain b s n where v: "v = AvRecord ''Field'' [(''is_key'', AvBool b), (''name'', AvString s), (''kind'', AvInt n)]"
    unfolding field_schema_def conforms_iff(1,2,4,6,7) conforms_fields.simps(1) by blast
  show ?thesis
    by (cases f) (auto simp: v deserialize_field_def struct_field_def des_bind_Inr_iff field_kind_exact
        deserialize_bool_def deserialize_str_def serialize_field_def)
qed

lemma relation_exact:
  assumes "conforms_to RELATION_SCHEMA v"
  shows "deserialize_relation v = Inr rel \<longleftrightarrow> v = serialize_relation rel"
proof -
  from assms obtain oid ns n fs k where v: "v = AvRecord ''Relation''
      [(''relation_oid'', AvLong oid), (''namespace'', AvString ns), (''name'', AvString n),
       (''fields'', AvArray fs), (''replica_id'', AvInt k)]"
    and fs: "\<forall>x\<in>set fs. conforms_to field_schema x"
    unfolding RELATION_SCHEMA_def conforms_iff(2-7) conforms_fields.simps(1) by blast
  have "deserialize_items deserialize_field fs = Inr xs \<longleftrightarrow> fs = map serialize_field xs" for xs
    using fs field_exact by (intro items_exact) blast
  then show ?thesis
    by (cases rel) (auto simp: v deserialize_relation_def struct_field_def des_bind_Inr_iff replica_kind_exact
        deserialize_u32_iff deserialize_vec_def deserialize_str_def serialize_relation_def)
qed

subsection \<open>The library's contract\<close>

text \<open>
  What the documentation of \<open>serde_avro_fast\<close> promises: a value of the schema is written, and reading
  what was written gives the value back; what is read is a value of the schema.
\<close>

locale avro_codec =
  fixes lib :: avro_library
  assumes write_read: "conforms_to sch v \<Longrightarrow> \<exists>b. to_datum lib sch v = Inr b \<and> from_datum_slice lib sch b = Inr v"
    and read_conforms: "from_datum_slice lib sch b = Inr v \<Longrightarrow> conforms_to sch v"
begin

lemma event_roundtrip: "\<exists>b. event_into_avro lib ev = Inr b \<and> event_from_avro lib b = Inr ev"
proof -
  obtain b where b: "to_datum lib CHANGE_EVENT_SCHEMA (serialize_event ev) = Inr b"
    "from_datum_slice lib CHANGE_EVENT_SCHEMA b = Inr (serialize_event ev)"
    using write_read [OF event_conforms] by blast
  have "deserialize_event (serialize_event ev) = Inr ev" using event_exact [OF event_conforms] by simp
  then show ?thesis using b by (simp add: event_into_avro_def event_from_avro_def des_bind_def)
qed

lemma relation_roundtrip: "\<exists>b. relation_into_avro lib rel = Inr b \<and> relation_from_avro lib b = Inr rel"
proof -
  obtain b where b: "to_datum lib RELATION_SCHEMA (serialize_relation rel) = Inr b"
    "from_datum_slice lib RELATION_SCHEMA b = Inr (serialize_relation rel)"
    using write_read [OF relation_conforms] by blast
  have "deserialize_relation (serialize_relation rel) = Inr rel"
    using relation_exact [OF relation_conforms] by simp
  then show ?thesis using b by (simp add: relation_into_avro_def relation_from_avro_def des_bind_def)
qed

lemma event_from_avro_exact:
  "event_from_avro lib b = Inr ev \<longleftrightarrow> from_datum_slice lib CHANGE_EVENT_SCHEMA b = Inr (serialize_event ev)"
proof (cases "from_datum_slice lib CHANGE_EVENT_SCHEMA b")
  case (Inl e)
  then show ?thesis by (simp add: event_from_avro_def des_bind_def)
next
  case (Inr v)
  then show ?thesis
    using event_exact [OF read_conforms [OF Inr], of ev]
    by (cases "deserialize_event v") (auto simp: event_from_avro_def des_bind_def)
qed

end

end
