(* ===== verification/Avro_Binary.thy ===== *)
theory Avro_Binary imports Avro_Serde begin

text \<open>
  The binary encoding of the Avro specification, as an instance of the library \<open>serde_avro_fast\<close> that
  the other theories take as a parameter: numbers are zigzag varints, strings and arrays carry their
  length, a union the index of its branch.  It shows that the contract of the library can be met, and
  witnesses run on it.  Arrays are read in one block, which is how they are written.
\<close>

subsection \<open>Numbers\<close>

fun varint :: "nat \<Rightarrow> byte list" where
  "varint n = (if n < 128 then [word_of_nat n] else word_of_nat (128 + n mod 128) # varint (n div 128))"

declare varint.simps [simp del]

fun read_varint :: "byte list \<Rightarrow> (nat \<times> byte list) option" where
  "read_varint [] = None"
| "read_varint (b # bs) =
     (if unat b < 128 then Some (unat b, bs)
      else (case read_varint bs of None \<Rightarrow> None | Some (n, r) \<Rightarrow> Some (unat b - 128 + 128 * n, r)))"

definition zigzag :: "int \<Rightarrow> nat" where
  "zigzag k = (if 0 \<le> k then nat (2 * k) else nat (- 2 * k - 1))"

definition unzigzag :: "nat \<Rightarrow> int" where
  "unzigzag n = (if even n then int (n div 2) else - int (n div 2) - 1)"

definition write_long :: "int \<Rightarrow> byte list" where
  "write_long k = varint (zigzag k)"

definition read_long :: "byte list \<Rightarrow> (int \<times> byte list) option" where
  "read_long bs = map_option (\<lambda>(n, r). (unzigzag n, r)) (read_varint bs)"

lemma read_varint_varint: "read_varint (varint n @ bs) = Some (n, bs)"
proof (induction n rule: varint.induct)
  case (1 n)
  show ?case
  proof (cases "n < 128")
    case True
    then show ?thesis by (simp add: varint.simps [of n] unat_of_nat)
  next
    case False
    have "128 + n mod 128 < 256" by simp
    then have "unat (word_of_nat (128 + n mod 128) :: byte) = 128 + n mod 128"
      unfolding unat_of_nat by simp
    then show ?thesis using 1 [OF False] False by (simp add: varint.simps [of n] mod_mult_div_eq)
  qed
qed

lemma unzigzag_zigzag: "unzigzag (zigzag k) = k"
proof (cases "0 \<le> k")
  case True
  then show ?thesis by (simp add: zigzag_def unzigzag_def nat_mult_distrib)
next
  case False
  then obtain m where m: "k = - int (Suc m)" using negD [of k] by auto
  then have "zigzag k = 2 * m + 1" by (simp add: zigzag_def nat_eq_iff)
  then show ?thesis by (simp add: unzigzag_def m)
qed

lemma read_long_write_long: "read_long (write_long k @ bs) = Some (k, bs)"
  by (simp add: read_long_def write_long_def read_varint_varint unzigzag_zigzag)

subsection \<open>Writing\<close>

fun write_all :: "('a \<Rightarrow> byte list option) \<Rightarrow> 'a list \<Rightarrow> byte list option" where
  "write_all w [] = Some []"
| "write_all w (v # vs) =
     (case w v of None \<Rightarrow> None | Some b \<Rightarrow> map_option (\<lambda>bs. b @ bs) (write_all w vs))"

fun write_value :: "avro_schema \<Rightarrow> avro_value \<Rightarrow> byte list option"
  and write_branch :: "nat \<Rightarrow> avro_schema list \<Rightarrow> avro_value \<Rightarrow> byte list option"
  and write_fields :: "(string \<times> avro_schema) list \<Rightarrow> (string \<times> avro_value) list \<Rightarrow> byte list option" where
  "write_value SNull v = (if v = AvNull then Some [] else None)"
| "write_value SBoolean v = (case v of AvBool b \<Rightarrow> Some [if b then 1 else 0] | _ \<Rightarrow> None)"
| "write_value SInt v = (case v of AvInt n \<Rightarrow> Some (write_long (sint n)) | _ \<Rightarrow> None)"
| "write_value SLong v = (case v of AvLong n \<Rightarrow> Some (write_long (sint n)) | _ \<Rightarrow> None)"
| "write_value SString v =
     (case v of AvString s \<Rightarrow> Some (write_long (int (length s)) @ bytes_of_str s) | _ \<Rightarrow> None)"
| "write_value (SArray s) v =
     (case v of
        AvArray vs \<Rightarrow>
          (if vs = [] then Some [0]
           else map_option (\<lambda>bs. write_long (int (length vs)) @ bs @ [0]) (write_all (write_value s) vs))
      | _ \<Rightarrow> None)"
| "write_value (SUnion ss) v = write_branch 0 ss v"
| "write_value (SRecord name fs) v =
     (case v of AvRecord n vs \<Rightarrow> (if n = name then write_fields fs vs else None) | _ \<Rightarrow> None)"
| "write_branch i [] v = None"
| "write_branch i (s # ss) v =
     (case write_value s v of
        Some b \<Rightarrow> Some (write_long (int i) @ b)
      | None \<Rightarrow> write_branch (Suc i) ss v)"
| "write_fields [] vs = (if vs = [] then Some [] else None)"
| "write_fields ((f, s) # fs) vs =
     (case vs of
        [] \<Rightarrow> None
      | (g, v) # vs' \<Rightarrow>
          (if g = f
           then (case write_value s v of
                   None \<Rightarrow> None
                 | Some b \<Rightarrow> map_option (\<lambda>bs. b @ bs) (write_fields fs vs'))
           else None))"

subsection \<open>Reading\<close>

fun read_many :: "(byte list \<Rightarrow> ('a \<times> byte list) option) \<Rightarrow> nat \<Rightarrow> byte list \<Rightarrow> ('a list \<times> byte list) option" where
  "read_many d 0 bs = Some ([], bs)"
| "read_many d (Suc n) bs =
     (case d bs of
        None \<Rightarrow> None
      | Some (v, r) \<Rightarrow> map_option (\<lambda>(vs, r'). (v # vs, r')) (read_many d n r))"

fun read_value :: "avro_schema \<Rightarrow> byte list \<Rightarrow> (avro_value \<times> byte list) option"
  and read_branch :: "avro_schema list \<Rightarrow> nat \<Rightarrow> byte list \<Rightarrow> (avro_value \<times> byte list) option"
  and read_fields :: "(string \<times> avro_schema) list \<Rightarrow> byte list \<Rightarrow> ((string \<times> avro_value) list \<times> byte list) option" where
  "read_value SNull bs = Some (AvNull, bs)"
| "read_value SBoolean bs =
     (case bs of
        [] \<Rightarrow> None
      | b # r \<Rightarrow> if b = 0 then Some (AvBool False, r) else if b = 1 then Some (AvBool True, r) else None)"
| "read_value SInt bs =
     (case read_long bs of
        None \<Rightarrow> None
      | Some (k, r) \<Rightarrow> if - (2 ^ 31) \<le> k \<and> k < 2 ^ 31 then Some (AvInt (word_of_int k), r) else None)"
| "read_value SLong bs =
     (case read_long bs of
        None \<Rightarrow> None
      | Some (k, r) \<Rightarrow> if - (2 ^ 63) \<le> k \<and> k < 2 ^ 63 then Some (AvLong (word_of_int k), r) else None)"
| "read_value SString bs =
     (case read_long bs of
        None \<Rightarrow> None
      | Some (k, r) \<Rightarrow>
          if 0 \<le> k \<and> nat k \<le> length r then Some (AvString (str_of_bytes (take (nat k) r)), drop (nat k) r) else None)"
| "read_value (SArray s) bs =
     (case read_long bs of
        None \<Rightarrow> None
      | Some (k, r) \<Rightarrow>
          if k = 0 then Some (AvArray [], r)
          else if k < 0 then None
          else (case read_many (read_value s) (nat k) r of
                  Some (vs, b # r') \<Rightarrow> if b = 0 then Some (AvArray vs, r') else None
                | _ \<Rightarrow> None))"
| "read_value (SUnion ss) bs =
     (case read_long bs of
        None \<Rightarrow> None
      | Some (k, r) \<Rightarrow> if k < 0 then None else read_branch ss (nat k) r)"
| "read_value (SRecord name fs) bs = map_option (\<lambda>(vs, r). (AvRecord name vs, r)) (read_fields fs bs)"
| "read_branch [] i bs = None"
| "read_branch (s # ss) i bs = (case i of 0 \<Rightarrow> read_value s bs | Suc j \<Rightarrow> read_branch ss j bs)"
| "read_fields [] bs = Some ([], bs)"
| "read_fields ((f, s) # fs) bs =
     (case read_value s bs of
        None \<Rightarrow> None
      | Some (v, r) \<Rightarrow> map_option (\<lambda>(vs, r'). ((f, v) # vs, r')) (read_fields fs r))"

subsection \<open>What is written is read back\<close>

lemma write_long_nonempty: "write_long k \<noteq> []"
  by (simp add: write_long_def varint.simps)

lemma read_long_zero: "read_long (0 # bs) = Some (0, bs)"
  by (simp add: read_long_def unzigzag_def)

lemma read_many_write_all:
  assumes "\<forall>v\<in>set vs. \<forall>b rest. w v = Some b \<longrightarrow> d (b @ rest) = Some (v, rest)" and "write_all w vs = Some b"
  shows "read_many d (length vs) (b @ rest) = Some (vs, rest)"
  using assms
proof (induction vs arbitrary: b)
  case Nil
  then show ?case by simp
next
  case (Cons v vs)
  then show ?case by (auto split: option.splits)
qed

lemma read_branch_nth: "i < length ss \<Longrightarrow> read_branch ss i bs = read_value (ss ! i) bs"
  by (induction ss arbitrary: i) (auto split: nat.splits)

lemma sint_bounds:
  "- 2147483648 \<le> sint (m :: i32)" "sint (m :: i32) < 2147483648"
  "- 9223372036854775808 \<le> sint (n :: i64)" "sint (n :: i64) < 9223372036854775808"
  using sint_greater_eq [of m] sint_less [of m] sint_greater_eq [of n] sint_less [of n] by simp_all

lemma read_written:
  "write_value sch v = Some b \<Longrightarrow> read_value sch (b @ rest) = Some (v, rest)"
  "write_branch i ss v = Some b \<Longrightarrow>
     \<exists>j b'. j < length ss \<and> b = write_long (int (i + j)) @ b' \<and> read_value (ss ! j) (b' @ rest) = Some (v, rest)"
  "write_fields fs vs = Some b \<Longrightarrow> read_fields fs (b @ rest) = Some (vs, rest)"
proof (induction sch v and i ss v and fs vs arbitrary: b rest and b rest and b rest
    rule: write_value_write_branch_write_fields.induct)
  case (3 v)
  show ?case
    using 3 by (auto simp: read_long_write_long sint_bounds split: avro_value.splits)
next
  case (4 v)
  then show ?case by (auto simp: read_long_write_long sint_bounds split: avro_value.splits)
next
  case (6 s v)
  then obtain vs where v: "v = AvArray vs" by (auto split: avro_value.splits)
  show ?case
  proof (cases "vs = []")
    case True
    then show ?thesis using 6(2) by (auto simp: v read_long_zero)
  next
    case False
    then obtain z where z: "write_all (write_value s) vs = Some z" "b = write_long (int (length vs)) @ z @ [0]"
      using 6 by (auto simp: v)
    have "read_many (read_value s) (length vs) (z @ 0 # rest) = Some (vs, 0 # rest)"
      using 6(1) [OF v False] z(1) by (intro read_many_write_all) auto
    then show ?thesis using False z(2) by (simp add: v read_long_write_long)
  qed
next
  case (7 ss v)
  have "write_branch 0 ss v = Some b" using 7(2) by simp
  from 7(1) [OF this, of rest] show ?case by (auto simp: read_long_write_long read_branch_nth)
next
  case (10 i s ss v)
  show ?case
  proof (cases "write_value s v")
    case None
    then have "write_branch (Suc i) ss v = Some b" using 10(3) by simp
    from 10(2) [OF None this, of rest] obtain j b' where
      "j < length ss" "b = write_long (int (Suc i + j)) @ b'" "read_value (ss ! j) (b' @ rest) = Some (v, rest)"
      by blast
    then show ?thesis by (intro exI [of _ "Suc j"] exI [of _ b']) simp
  next
    case (Some c)
    then show ?thesis using 10(1) [OF Some] 10(3) by (intro exI [of _ 0] exI [of _ c]) simp
  qed
qed (auto simp: read_long_write_long split: avro_value.splits option.splits list.splits if_splits)

lemma write_conforming:
  "conforms_to sch v \<Longrightarrow> \<exists>b. write_value sch v = Some b"
  "conforms_some ss v \<Longrightarrow> \<exists>b. write_branch i ss v = Some b"
  "conforms_fields fs vs \<Longrightarrow> \<exists>b. write_fields fs vs = Some b"
proof (induction sch v and ss v and fs vs arbitrary: and i and rule: conforms_to_conforms_some_conforms_fields.induct)
  case (6 s v)
  then obtain vs where v: "v = AvArray vs" "\<forall>x\<in>set vs. conforms_to s x" by (auto split: avro_value.splits)
  have "\<exists>b. write_all (write_value s) xs = Some b" if "set xs \<subseteq> set vs" for xs
    using that
  proof (induction xs)
    case (Cons x xs)
    then show ?case using 6(1) [OF v(1), of x] v(2) by fastforce
  qed simp
  then show ?case by (auto simp: v(1))
next
  case (10 s ss v)
  then show ?case by (auto split: option.splits)
next
  case (12 f s fs vs)
  then obtain v vs' where vs: "vs = (f, v) # vs'" "conforms_to s v" "conforms_fields fs vs'"
    by (auto split: list.splits)
  then show ?case using 12(1) [OF vs(1) refl vs(2)] 12(2) [OF vs(1) refl vs(3)] by (simp add: vs(1)) fastforce
qed (auto split: avro_value.splits list.splits option.splits)

lemma read_many_all:
  assumes "\<forall>bs v r. d bs = Some (v, r) \<longrightarrow> P v" and "read_many d n bs = Some (vs, r)"
  shows "\<forall>v\<in>set vs. P v"
  using assms(2)
proof (induction n arbitrary: bs vs)
  case 0
  then show ?case by simp
next
  case (Suc n)
  then show ?case using assms(1) by (fastforce split: option.splits prod.splits)
qed

lemma read_conforming:
  "read_value sch bs = Some (v, r) \<Longrightarrow> conforms_to sch v"
  "read_branch ss i bs = Some (v, r) \<Longrightarrow> conforms_some ss v"
  "read_fields fs bs = Some (vs, r) \<Longrightarrow> conforms_fields fs vs"
proof (induction sch bs and ss i bs and fs bs arbitrary: v r and v r and vs r
    rule: read_value_read_branch_read_fields.induct)
  case (6 s bs)
  then show ?case
    by (auto split: option.splits prod.splits list.splits if_splits dest!: read_many_all [of "read_value s" "conforms_to s", rotated])
qed (auto split: option.splits prod.splits list.splits if_splits nat.splits)

text \<open>The library the specification describes.\<close>

definition avro_binary :: avro_library where
  "avro_binary =
     \<lparr>to_datum = (\<lambda>sch v. case write_value sch v of Some b \<Rightarrow> Inr b | None \<Rightarrow> Inl ''not a value of the schema''),
      from_datum_slice = (\<lambda>sch bs. case read_value sch bs of Some (v, r) \<Rightarrow> Inr v | None \<Rightarrow> Inl ''malformed datum'')\<rparr>"

interpretation avro_spec: avro_codec avro_binary
proof
  fix sch v
  assume "conforms_to sch v"
  then obtain b where b: "write_value sch v = Some b" using write_conforming(1) by blast
  then show "\<exists>b. to_datum avro_binary sch v = Inr b \<and> from_datum_slice avro_binary sch b = Inr v"
    using read_written(1) [OF b, of "[]"] by (simp add: avro_binary_def)
next
  fix sch b v
  assume "from_datum_slice avro_binary sch b = Inr v"
  then show "conforms_to sch v"
    using read_conforming(1) by (auto simp: avro_binary_def split: option.splits)
qed


subsection \<open>Properties\<close>

text \<open>
  C13: the Avro round trip.  What the hand-written and derived serializers produce is a value of the
  schema given to the library, so every event and every relation can be written, and reading the bytes
  gives back the same event or relation: every column kind, TOASTed markers and replica kinds included.
\<close>

theorem avro_roundtrip:
  assumes "avro_codec lib"
  shows "conforms_to CHANGE_EVENT_SCHEMA (serialize_event ev) \<and> conforms_to RELATION_SCHEMA (serialize_relation rel) \<and>
    (\<exists>b. event_into_avro lib ev = Inr b \<and> event_from_avro lib b = Inr ev) \<and>
    (\<exists>b. relation_into_avro lib rel = Inr b \<and> relation_from_avro lib b = Inr rel)"
  using avro_codec.event_roundtrip [OF assms] avro_codec.relation_roundtrip [OF assms]
    event_conforms relation_conforms by blast

theorem avro_roundtrip_witness:
  "\<exists>b. event_into_avro avro_binary \<lparr>ev_op = Update [] [Text ''hola'', Toasted], ev_rel = 1024\<rparr> = Inr b \<and>
     event_from_avro avro_binary b = Inr \<lparr>ev_op = Update [] [Text ''hola'', Toasted], ev_rel = 1024\<rparr>"
  using avro_roundtrip [OF avro_spec.avro_codec_axioms] by blast

text \<open>
  C14: the readers accept, among the values of the schema, exactly what the writers write.  A datum whose
  \<open>Int4\<close> does not fit \<open>i32\<close>, whose relation does not fit \<open>u32\<close> or whose kind codes are unknown is an
  error, never another event or relation.
\<close>

theorem avro_readers_exact:
  assumes "conforms_to CHANGE_EVENT_SCHEMA v" and "conforms_to RELATION_SCHEMA w"
  shows "(deserialize_event v = Inr ev \<longleftrightarrow> v = serialize_event ev) \<and>
    (deserialize_relation w = Inr rel \<longleftrightarrow> w = serialize_relation rel)"
  using event_exact [OF assms(1)] relation_exact [OF assms(2)] by blast

definition oversized_event :: avro_value where
  "oversized_event =
     AvRecord ''ChangeEvent''
       [(''op'', AvRecord ''Delete'' [(''old'', AvArray [AvRecord ''Int4'' [(''Int4'', AvLong 4294967297)]])]),
        (''rel'', AvLong 7)]"

definition plain_relation :: Relation where
  "plain_relation =
     \<lparr>relation_oid = 1, r_name = ''Simple'', r_namespace = ''Public'',
      r_fields = [\<lparr>f_is_key = False, f_name = ''Hola'', f_kind = FK_Text\<rparr>], replica_id = Row\<rparr>"

theorem avro_readers_exact_witness:
  "(\<forall>ev. deserialize_event oversized_event \<noteq> Inr ev) \<and>
   deserialize_relation (serialize_relation plain_relation) = Inr plain_relation"
proof -
  have c: "conforms_to CHANGE_EVENT_SCHEMA oversized_event"
    by (simp add: CHANGE_EVENT_SCHEMA_def op_schema_def schema_defs oversized_event_def)
  have "oversized_event \<noteq> serialize_event ev" for ev
  proof
    assume eq: "oversized_event = serialize_event ev"
    then obtain vs where vs: "ev_op ev = Delete vs"
      by (cases "ev_op ev") (simp_all add: oversized_event_def serialize_event_def)
    then obtain p where p: "serialize_pgvalue p = AvRecord ''Int4'' [(''Int4'', AvLong 4294967297)]"
      using eq by (auto simp: oversized_event_def serialize_event_def serialize_row_def)
    then obtain n where "scast (n :: i32) = (4294967297 :: i64)" by (cases p) auto
    then have "sint n = 4294967297" using sint_scast_i32 [of n] by simp
    then show False using sint_bounds(2) [of n] by simp
  qed
  then show ?thesis
    using avro_readers_exact [OF c relation_conforms [of plain_relation]] by blast
qed

end
