(* ===== verification/Pipeline.thy ===== *)
theory Pipeline imports Producer_Main Pg_Connector Feldera_Connector Avro_Binary begin

text \<open>
  The components together: the stream of the source database, decoded by the WAL loop, published by the
  Kafka producer through the Avro codec, consumed by the loop of \<open>cdc-sink\<close> and replayed by a sink.
\<close>

subsection \<open>The codec of both ends\<close>

definition from_avro_error_to_string :: "FromAvroError \<Rightarrow> string" where
  "from_avro_error_to_string e =
     (case e of
        NoEvents \<Rightarrow> ''No events where found in the transmission''
      | Avro s \<Rightarrow> ''While ng from Avro: '' @ s)"

definition codec_writer :: "avro_library \<Rightarrow> avro" where
  "codec_writer lib = \<lparr>into_avro_event = event_into_avro lib, into_avro_relation = relation_into_avro lib\<rparr>"

definition codec_reader :: "avro_library \<Rightarrow> avro_reader" where
  "codec_reader lib =
     \<lparr>from_avro_event = (\<lambda>b. map_sum from_avro_error_to_string id (event_from_avro lib b)),
      from_avro_relation = (\<lambda>b. map_sum from_avro_error_to_string id (relation_from_avro lib b))\<rparr>"

lemma codec_decodes:
  assumes "avro_codec lib"
  shows "decodes (codec_writer lib) (codec_reader lib) i"
  using avro_codec.event_roundtrip [OF assms] avro_codec.relation_roundtrip [OF assms]
  by (cases i) (fastforce simp: decodes_def codec_writer_def codec_reader_def)+

text \<open>
  What the consumer sees of a run without failures, when it reads the committed records in the order in
  which they were written: the sink gets exactly the decoded items, each once, in order.
\<close>

definition published_messages :: "broker wal \<Rightarrow> message list \<Rightarrow> bool" where
  "published_messages st ms \<longleftrightarrow> list_all2 carries ms (concat (b_batches (w_producer st)))"

lemma codec_run:
  assumes "avro_codec lib" and "stream_contents P Map.empty txs = Some (iss, rels')"
  shows "\<exists>st. wal_loop P (kafka_producer (kafka_producer_fields config) (codec_writer lib) (broker_client False))
      (initial_wal (empty_broker faults)) (map Event (concat (map tx_events txs)) @ [Closed]) = (st, Finished) \<and>
    concat (b_batches (w_producer st)) =
      concat (map2 (\<lambda>lsn is. map (item_record (kafka_producer_fields config) (codec_writer lib)) is @
        [lsn_record (kafka_producer_fields config) lsn]) (map tx_end_lsn txs) iss) \<and>
    applied_lsns st = map tx_lsn txs"
proof -
  let ?self = "kafka_producer_fields config" and ?w = "codec_writer lib"
  have enc: "\<forall>is\<in>set iss. \<forall>i\<in>set is. encodable ?w i"
    using codec_decodes [OF assms(1)] decodes_encodable by blast
  have "map2 (\<lambda>tx items. map (item_record ?self ?w) items @ [lsn_record ?self (tx_end_lsn tx)]) txs iss =
      map2 (\<lambda>lsn items. map (item_record ?self ?w) items @ [lsn_record ?self lsn]) (map tx_end_lsn txs) iss"
    by (simp add: zip_map1 comp_def split_beta)
  then show ?thesis using steady_run [OF assms(2) enc, of ?self faults] by auto
qed

lemma pipeline_items:
  assumes "avro_codec lib" and "stream_contents P Map.empty txs = Some (iss, rels')"
  shows "\<exists>st. wal_loop P (kafka_producer (kafka_producer_fields config) (codec_writer lib) (broker_client False))
      (initial_wal (empty_broker faults)) (map Event (concat (map tx_events txs)) @ [Closed]) = (st, Finished) \<and>
    applied_lsns st = map tx_lsn txs \<and>
    (\<forall>ms ops s. published_messages st ms \<longrightarrow>
       map_option sink_state (consume_from_kafka (codec_reader lib) (kc_topic config) ops (map Inr ms)
         (initial_consuming s)) = apply_items ops (concat iss) s)"
proof -
  have dec: "\<forall>is\<in>set iss. \<forall>i\<in>set is. decodes (codec_writer lib) (codec_reader lib) i"
    using codec_decodes [OF assms(1)] by blast
  have len: "length iss = length (map tx_end_lsn txs)" using stream_contents_length [OF assms(2)] by simp
  from codec_run [OF assms, of config faults] show ?thesis
    using consume_batches [OF len _ dec, of _ config _ "initial_consuming _"]
    by (fastforce simp: published_messages_def initial_consuming_def)
qed

subsection \<open>Replaying on PostgreSQL\<close>

text \<open>
  The specification of the whole: the statements that a list of items stands for, by the descriptions of
  the relations as they are announced; \<open>None\<close> if some event has no statement.
\<close>

fun replay :: "(i64 \<Rightarrow> bool) \<Rightarrow> RelationCache \<Rightarrow> item list \<Rightarrow> (string \<times> sql_param list) list option" where
  "replay chrono_range rc [] = Some []"
| "replay chrono_range rc (RelationItem rel # is) = replay chrono_range (RelationCache_update rel rc) is"
| "replay chrono_range rc (EventItem rel ev # is) =
     (case event_statement rc ev of
        None \<Rightarrow> None
      | Some (text, vs) \<Rightarrow>
          (case encode_params chrono_range vs of
             Ok ps \<Rightarrow> map_option (\<lambda>l. (text, ps) # l) (replay chrono_range rc is)
           | _ \<Rightarrow> None))"

text \<open>
  A Relation message whose relation is new, or described as before: PostgreSQL sends one at the first
  change of a table in a session, and again when the table is altered.
\<close>

definition same_description :: "RelationCache \<Rightarrow> Relation \<Rightarrow> bool" where
  "same_description rc rel \<longleftrightarrow>
     table_names rc (relation_oid rel) = None \<or>
     (table_names rc (relation_oid rel) = Some (r_name rel) \<and>
      field_lists rc (relation_oid rel) = Some (extract_fields_names rel) \<and>
      key_lists rc (relation_oid rel) = Some (extract_keys_rel rel))"

fun unaltered :: "RelationCache \<Rightarrow> item list \<Rightarrow> bool" where
  "unaltered rc [] = True"
| "unaltered rc (RelationItem rel # is) = (same_description rc rel \<and> unaltered (RelationCache_update rel rc) is)"
| "unaltered rc (EventItem rel ev # is) = unaltered rc is"

lemma up_to_date_texts:
  assumes "up_to_date cl self"
  shows "upsert_stmt_cache self rel = Some stmt \<Longrightarrow>
      \<exists>table fs ks. table_names (relation_cache self) rel = Some table \<and>
        field_lists (relation_cache self) rel = Some fs \<and> key_lists (relation_cache self) rel = Some ks \<and>
        prepared cl (upsert_spec table fs ks @ left_over fs ks) stmt"
    and "delete_stmt_cache self rel = Some stmt \<Longrightarrow>
      \<exists>table ks. table_names (relation_cache self) rel = Some table \<and>
        key_lists (relation_cache self) rel = Some ks \<and> prepared cl (delete_spec table ks) stmt"
  using assms unfolding up_to_date_def by blast+

lemma pg_on_relation_up_to_date:
  assumes "up_to_date cl self" and "same_description (relation_cache self) rel"
  shows "up_to_date cl (snd (pg_on_relation rel self))"
proof -
  let ?oid = "relation_oid rel" and ?fs = "extract_fields_names rel" and ?ks = "extract_keys_rel rel"
  have upsert: "prepared cl (upsert_spec (r_name rel) ?fs ?ks @ left_over ?fs ?ks) stmt"
    if "upsert_stmt_cache self ?oid = Some stmt" for stmt
    using up_to_date_texts(1) [OF assms(1) that] assms(2) by (auto simp: same_description_def)
  have delete: "prepared cl (delete_spec (r_name rel) ?ks) stmt" if "delete_stmt_cache self ?oid = Some stmt" for stmt
    using up_to_date_texts(2) [OF assms(1) that] assms(2) by (auto simp: same_description_def)
  show ?thesis
    using up_to_date_texts [OF assms(1)] upsert delete
    by (simp add: up_to_date_def pg_on_relation_def RelationCache_update_def table_names_insert_def)
qed

lemma apply_items_replay:
  assumes "up_to_date recording_client self" and "unaltered (relation_cache self) is"
    and "replay chrono_range (relation_cache self) is = Some log"
  shows "\<exists>self'. apply_items (postgres_sink chrono_range recording_client) is self = Some self' \<and>
    pg_conn self' = pg_conn self @ log"
  using assms
proof (induction "is" arbitrary: self log)
  case Nil
  then show ?case by simp
next
  case (Cons i "is")
  show ?case
  proof (cases i)
    case (RelationItem rel)
    let ?self1 = "snd (pg_on_relation rel self)"
    have step: "apply_item (postgres_sink chrono_range recording_client) i self = (Ok (), ?self1)"
      by (simp add: apply_item_def RelationItem postgres_sink_def pg_on_relation_def)
    have "up_to_date recording_client ?self1" using pg_on_relation_up_to_date [OF Cons.prems(1), of rel] Cons.prems(2) by (simp add: RelationItem)
    moreover have "relation_cache ?self1 = RelationCache_update rel (relation_cache self)" "pg_conn ?self1 = pg_conn self"
      by (simp_all add: pg_on_relation_def)
    ultimately show ?thesis
      using Cons.IH [of ?self1 log] Cons.prems(2,3) step by (simp add: RelationItem)
  next
    case (EventItem rel ev)
    from Cons.prems(3) obtain sql vs ps log' where e: "event_statement (relation_cache self) ev = Some (sql, vs)"
      "encode_params chrono_range vs = Ok ps"
      "replay chrono_range (relation_cache self) is = Some log'" "log = (sql, ps) # log'"
      by (auto simp: EventItem split: option.splits outcome.splits)
    from pg_on_event_recording [OF Cons.prems(1) e(1,2)] obtain self1 where
      s: "pg_on_event chrono_range recording_client ev self = (Ok (), self1)" "up_to_date recording_client self1"
        "pg_conn self1 = pg_conn self @ [(sql, ps)]"
      by blast
    have step: "apply_item (postgres_sink chrono_range recording_client) i self = (Ok (), self1)"
      using s(1) by (simp add: apply_item_def EventItem postgres_sink_def)
    have "relation_cache self1 = relation_cache self" by (rule pg_on_event_cache [OF s(1)])
    then show ?thesis
      using Cons.IH [OF s(2), of log'] Cons.prems(2) e(3,4) s(3) step by (simp add: EventItem)
  qed
qed

subsection \<open>Properties\<close>

text \<open>
  C3: end to end.  Every row change of the source reaches the target database exactly once and in order.
  Take a stream of transactions, no call failing, a codec that keeps its contract, and a consumer that
  reads the committed records in order and starts from the relations it loaded; if every event has a
  statement and no table is altered on the way, then the producer acknowledges every transaction and the
  database has run, one after the other, exactly the statements the decoded changes stand for.
\<close>

theorem source_changes_reach_database:
  assumes "avro_codec lib" and "stream_contents P Map.empty txs = Some (iss, rels')"
    and "postgres_sink_new (\<lambda>_. Inr []) pg_config rels = Inr self"
    and "unaltered (relation_cache self) (concat iss)"
    and "replay chrono_range (relation_cache self) (concat iss) = Some log"
  shows "\<exists>st. wal_loop P (kafka_producer (kafka_producer_fields config) (codec_writer lib) (broker_client False))
      (initial_wal (empty_broker faults)) (map Event (concat (map tx_events txs)) @ [Closed]) = (st, Finished) \<and>
    applied_lsns st = map tx_lsn txs \<and>
    (\<forall>ms. published_messages st ms \<longrightarrow>
       (\<exists>st'. consume_from_kafka (codec_reader lib) (kc_topic config) (postgres_sink chrono_range recording_client)
           (map Inr ms) (initial_consuming self) = Some st' \<and> pg_conn (sink_state st') = log))"
proof -
  have self: "up_to_date recording_client self" "pg_conn self = []"
    using assms(3) by (auto simp: postgres_sink_new_def up_to_date_def)
  obtain self' where applied: "apply_items (postgres_sink chrono_range recording_client) (concat iss) self = Some self'"
    "pg_conn self' = log"
    using apply_items_replay [OF self(1) assms(4,5)] self(2) by auto
  let ?sink = "postgres_sink chrono_range recording_client"
  obtain st where run: "wal_loop P (kafka_producer (kafka_producer_fields config) (codec_writer lib) (broker_client False))
      (initial_wal (empty_broker faults)) (map Event (concat (map tx_events txs)) @ [Closed]) = (st, Finished)"
    "applied_lsns st = map tx_lsn txs"
    and items: "\<forall>ms ops (s :: ((string \<times> sql_param list) list, string) PostgresSink). published_messages st ms \<longrightarrow>
       map_option sink_state (consume_from_kafka (codec_reader lib) (kc_topic config) ops (map Inr ms)
         (initial_consuming s)) = apply_items ops (concat iss) s"
    using pipeline_items [OF assms(1,2), of config faults,
        where ?'a = "((string \<times> sql_param list) list, string) PostgresSink"] by blast
  have "\<exists>st'. consume_from_kafka (codec_reader lib) (kc_topic config) ?sink (map Inr ms) (initial_consuming self) =
      Some st' \<and> pg_conn (sink_state st') = log" if "published_messages st ms" for ms
  proof -
    have "map_option sink_state (consume_from_kafka (codec_reader lib) (kc_topic config) ?sink (map Inr ms)
        (initial_consuming self)) = Some self'"
      using items that applied(1) by simp
    then show ?thesis using applied(2) by auto
  qed
  then show ?thesis using run by blast
qed

text \<open>The committed records as messages of one partition, in the order of the log.\<close>

definition log_messages :: "broker wal \<Rightarrow> message list" where
  "log_messages st =
     map (\<lambda>(i, r). \<lparr>m_topic = fr_topic r, m_partition = 0, m_offset = int i, m_payload = Some (fr_payload r)\<rparr>)
       (enumerate 0 (concat (b_batches (w_producer st))))"

lemma published_log_messages: "published_messages st (log_messages st)"
  by (simp add: published_messages_def log_messages_def carries_def list_all2_conv_all_nth nth_enumerate_eq)

lemma counters_replay:
  "unaltered (RelationCache_from_rels Map.empty) (concat example_items)"
  "replay (\<lambda>_. True) (RelationCache_from_rels Map.empty) (concat example_items) =
     Some [(upsert_gen_str ''counters'' [''id''] [''id''], [SqlInt4 1]),
           (upsert_gen_str ''counters'' [''id''] [''id''], [SqlInt4 2])]"
proof -
  let ?rc = "RelationCache_update counters_rel (RelationCache_from_rels Map.empty)"
  have s: "event_statement ?rc (insert_event n) =
      Some (upsert_gen_str ''counters'' [''id''] [''id''], [Int4 (word_of_nat (unat n))])" for n
    by (simp add: event_statement_code RelationCache_update_def table_names_insert_def insert_event_def
        counters_rel_def merge_toasted_def extract_fields_names_def extract_keys_rel_def List.map_filter_simps)
  have m: "fst (merge_toasted (ev_op (insert_event n))) = Ok ()" for n
    by (simp add: merge_toasted_def insert_event_def)
  show "unaltered (RelationCache_from_rels Map.empty) (concat example_items)"
    by (simp add: example_items_def same_description_def RelationCache_from_rels_def table_names_from_rels_def)
  show "replay (\<lambda>_. True) (RelationCache_from_rels Map.empty) (concat example_items) =
     Some [(upsert_gen_str ''counters'' [''id''] [''id''], [SqlInt4 1]),
           (upsert_gen_str ''counters'' [''id''] [''id''], [SqlInt4 2])]"
    by (simp add: example_items_def s m)
qed

theorem source_changes_reach_database_witness:
  "\<exists>st st'. wal_loop x86_platform
      (kafka_producer (kafka_producer_fields sample_config) (codec_writer avro_binary) (broker_client False))
      (initial_wal (empty_broker [])) (map Event (concat (map tx_events example_stream)) @ [Closed]) = (st, Finished) \<and>
    applied_lsns st = [100, 200] \<and>
    consume_from_kafka (codec_reader avro_binary) ''cdc'' (postgres_sink (\<lambda>_. True) recording_client)
      (map Inr (log_messages st))
      (initial_consuming \<lparr>pg_conn = [], upsert_stmt_cache = Map.empty, delete_stmt_cache = Map.empty,
        relation_cache = RelationCache_from_rels Map.empty\<rparr>) = Some st' \<and>
    pg_conn (sink_state st') =
      [(upsert_gen_str ''counters'' [''id''] [''id''], [SqlInt4 1]),
       (upsert_gen_str ''counters'' [''id''] [''id''], [SqlInt4 2])]"
proof -
  let ?self = "\<lparr>pg_conn = [], upsert_stmt_cache = Map.empty, delete_stmt_cache = Map.empty,
    relation_cache = RelationCache_from_rels Map.empty\<rparr> :: ((string \<times> sql_param list) list, string) PostgresSink"
  have new: "postgres_sink_new (\<lambda>_. Inr []) \<lparr>cc_host = ''db'', cc_user = ''u'', cc_password = ''p'', cc_port = 5432\<rparr>
      Map.empty = Inr ?self"
    by (simp add: postgres_sink_new_def)
  have topic: "kc_topic sample_config = ''cdc''" by (simp add: sample_config_def)
  have lsns: "map tx_lsn example_stream = [100, 200]" by (simp add: example_stream_def)
  show ?thesis
    using source_changes_reach_database [OF avro_spec.avro_codec_axioms example_contents new, where
        config = sample_config and faults = "[]" and chrono_range = "\<lambda>_. True"] counters_replay published_log_messages
    by (simp add: topic lsns) blast
qed

end
