(* ===== verification/Topic_Order.thy ===== *)
theory Topic_Order imports Pipeline "HOL-Library.Multiset" begin

text \<open>
  What the consumer sees when it reads several topics at once.  Kafka keeps the order within a topic
  (the producer creates each with one partition) and nothing else: the messages of different topics
  arrive interleaved in any way.  The replay of an interleaving, and what of the order survives.
\<close>

subsection \<open>Interleavings of topics\<close>

text \<open>
  The messages delivered for a list of published records: topic by topic, the same records in the same
  order.  The LSN topic is not subscribed to; the loop passes its messages over, so anything may be there.
\<close>

definition delivered :: "string \<Rightarrow> message list \<Rightarrow> FutureRecord list \<Rightarrow> bool" where
  "delivered topic ms rs \<longleftrightarrow>
     (\<forall>t. t \<noteq> lsn_topic topic \<longrightarrow>
        list_all2 carries (filter (\<lambda>m. m_topic m = t) ms) (filter (\<lambda>r. fr_topic r = t) rs))"

definition same_order :: "('a \<Rightarrow> 'k) \<Rightarrow> 'a list \<Rightarrow> 'a list \<Rightarrow> bool" where
  "same_order key xs ys \<longleftrightarrow> (\<forall>k. filter (\<lambda>x. key x = k) xs = filter (\<lambda>x. key x = k) ys)"

lemma same_order_refl [simp]: "same_order key xs xs"
  by (simp add: same_order_def)

lemma same_order_set: "same_order key xs ys \<Longrightarrow> set xs = set ys"
proof -
  assume "same_order key xs ys"
  then have "set (filter (\<lambda>x. key x = k) xs) = set (filter (\<lambda>x. key x = k) ys)" for k
    by (simp add: same_order_def)
  then show ?thesis by (auto simp: set_eq_iff)
qed

lemma same_order_mset:
  assumes "same_order key xs ys"
  shows "mset xs = mset ys"
proof (rule multiset_eqI)
  fix x
  have "count (mset zs) x = count (mset (filter (\<lambda>y. key y = key x) zs)) x" for zs
    by (induction zs) auto
  then show "count (mset xs) x = count (mset ys) x"
    using assms unfolding same_order_def by metis
qed

text \<open>An element taken out of the list where it is the first of its key.\<close>

lemma same_order_Cons:
  assumes "same_order key xs (a @ b)" and "\<forall>y\<in>set a. key y \<noteq> key x"
  shows "same_order key (x # xs) (a @ x # b)"
proof -
  have "filter (\<lambda>y. key y = key x) a = []" using assms(2) by (simp add: filter_empty_conv)
  then show ?thesis using assms(1) by (auto simp: same_order_def)
qed

text \<open>A delivery is a rearrangement of the published records that keeps the order of each topic.\<close>

lemma delivered_rearranged:
  assumes "delivered topic ms (map mk is)" and "\<forall>i\<in>set is. fr_topic (mk i) \<noteq> lsn_topic topic"
  shows "\<exists>is'. list_all2 (\<lambda>m i. carries m (mk i)) (filter (\<lambda>m. m_topic m \<noteq> lsn_topic topic) ms) is' \<and>
    same_order (\<lambda>i. fr_topic (mk i)) is' is"
  using assms
proof (induction ms arbitrary: "is")
  case Nil
  have "filter (\<lambda>i. fr_topic (mk i) = t) is = []" for t
  proof (cases "t = lsn_topic topic")
    case True
    then show ?thesis using Nil.prems(2) by (simp add: filter_empty_conv)
  next
    case False
    then show ?thesis using Nil.prems(1) by (simp add: delivered_def filter_map comp_def)
  qed
  then show ?case by (simp add: same_order_def)
next
  case (Cons m ms)
  let ?key = "\<lambda>i. fr_topic (mk i)"
  show ?case
  proof (cases "m_topic m = lsn_topic topic")
    case True
    then have "delivered topic ms (map mk is)"
      using Cons.prems(1) by (auto simp: delivered_def)
    then show ?thesis using Cons.IH [OF _ Cons.prems(2)] True by simp
  next
    case False
    then have "list_all2 carries (m # filter (\<lambda>m'. m_topic m' = m_topic m) ms)
        (map mk (filter (\<lambda>i. ?key i = m_topic m) is))"
      using Cons.prems(1) by (auto simp: delivered_def filter_map comp_def split: if_splits)
    then obtain i fs where f: "filter (\<lambda>i. ?key i = m_topic m) is = i # fs" "carries m (mk i)"
      by (auto simp: list_all2_Cons1)
    then obtain a b where ab: "is = a @ i # b" "\<forall>y\<in>set a. ?key y \<noteq> ?key i" "?key i = m_topic m"
      by (auto simp: filter_eq_Cons_iff)
    have "delivered topic ms (map mk (a @ b))"
      unfolding delivered_def
    proof (intro allI impI)
      fix t
      assume t: "t \<noteq> lsn_topic topic"
      have "filter (\<lambda>y. ?key y = ?key i) a = []" using ab(2) by (simp add: filter_empty_conv)
      moreover have "list_all2 carries (filter (\<lambda>m. m_topic m = t) (m # ms))
          (map mk (filter (\<lambda>i. ?key i = t) is))"
        using Cons.prems(1) t by (simp add: delivered_def filter_map comp_def)
      ultimately show "list_all2 carries (filter (\<lambda>m. m_topic m = t) ms)
          (filter (\<lambda>r. fr_topic r = t) (map mk (a @ b)))"
        using ab(3) by (cases "t = m_topic m") (simp_all add: ab(1) filter_map comp_def)
    qed
    then obtain is' where is': "list_all2 (\<lambda>m i. carries m (mk i)) (filter (\<lambda>m. m_topic m \<noteq> lsn_topic topic) ms) is'"
      "same_order ?key is' (a @ b)"
      using Cons.IH [of "a @ b"] Cons.prems(2) by (auto simp: ab(1))
    have "same_order ?key (i # is') is"
      using same_order_Cons [OF is'(2) ab(2)] by (simp add: ab(1))
    then show ?thesis using is'(1) f(2) False by (intro exI [of _ "i # is'"]) simp
  qed
qed

text \<open>The loop passes the messages of the LSN topic over.\<close>

lemma consume_skips_lsn:
  "consume_from_kafka codec t ops (map Inr ms) st =
     consume_from_kafka codec t ops (map Inr (filter (\<lambda>m. m_topic m \<noteq> lsn_topic t) ms)) st"
  by (induction ms arbitrary: st) (auto simp: consume_lsn_topic split: option.splits)

lemma consume_delivered:
  assumes "delivered (kc_topic config) ms (map (item_record (kafka_producer_fields config) w) is)"
    and "\<forall>i\<in>set is. decodes w r i"
  shows "\<exists>is'. same_order (\<lambda>i. fr_topic (item_record (kafka_producer_fields config) w i)) is' is \<and>
    map_option sink_state (consume_from_kafka r (kc_topic config) ops (map Inr ms) st) =
      apply_items ops is' (sink_state st)"
proof -
  let ?mk = "item_record (kafka_producer_fields config) w"
  obtain is' where is': "list_all2 (\<lambda>m i. carries m (?mk i))
      (filter (\<lambda>m. m_topic m \<noteq> lsn_topic (kc_topic config)) ms) is'"
    "same_order (\<lambda>i. fr_topic (?mk i)) is' is"
    using delivered_rearranged [OF assms(1)] item_record_topic by blast
  have "\<forall>i\<in>set is'. decodes w r i" using assms(2) same_order_set [OF is'(2)] by simp
  then have "map_option sink_state (consume_from_kafka r (kc_topic config) ops (map Inr ms) st) =
      apply_items ops is' (sink_state st)"
    using is'(1) by (subst consume_skips_lsn) (rule consume_items, simp_all add: list_all2_map2)
  then show ?thesis using is'(2) by blast
qed

text \<open>The LSN records of a run are on the LSN topic, so a delivery of the run is one of its items.\<close>

lemma delivered_items:
  assumes "length lsns = length iss"
    and "delivered (kc_topic config) ms (concat (map2 (\<lambda>lsn is. map (item_record (kafka_producer_fields config) w) is @
      [lsn_record (kafka_producer_fields config) lsn]) lsns iss))"
  shows "delivered (kc_topic config) ms (map (item_record (kafka_producer_fields config) w) (concat iss))"
proof -
  have "filter (\<lambda>r. fr_topic r = t) (concat (map2 (\<lambda>lsn is. map (item_record (kafka_producer_fields config) w) is @
      [lsn_record (kafka_producer_fields config) lsn]) lsns iss)) =
    filter (\<lambda>r. fr_topic r = t) (map (item_record (kafka_producer_fields config) w) (concat iss))"
    if "t \<noteq> lsn_topic (kc_topic config)" for t
    using assms(1) that by (induction lsns iss rule: list_induct2) (auto simp: lsn_record_topic)
  then show ?thesis using assms(2) by (simp add: delivered_def)
qed


text \<open>Reading in the order of the log is one delivery; so is what keeps the order of each topic of one.\<close>

lemma carried_in_order:
  "list_all2 carries ms rs \<Longrightarrow>
   list_all2 carries (filter (\<lambda>m. m_topic m = t) ms) (filter (\<lambda>r. fr_topic r = t) rs)"
  by (induction ms rs rule: list_all2_induct) (auto simp: carries_def)

lemma published_delivered: "published_messages st ms \<Longrightarrow> delivered topic ms (concat (b_batches (w_producer st)))"
  by (simp add: published_messages_def delivered_def carried_in_order)

lemma delivered_same_order: "delivered topic ms rs \<Longrightarrow> same_order m_topic ms' ms \<Longrightarrow> delivered topic ms' rs"
  by (simp add: delivered_def same_order_def)

lemma same_order_partition: "same_order key (filter (\<lambda>x. key x \<in> K) xs @ filter (\<lambda>x. key x \<notin> K) xs) xs"
proof -
  have "filter (\<lambda>x. key x = k) (filter (\<lambda>x. key x \<in> K) xs @ filter (\<lambda>x. key x \<notin> K) xs) =
      filter (\<lambda>x. key x = k) xs" for k
  proof (cases "k \<in> K")
    case True
    then have "(\<lambda>x. key x \<in> K \<and> key x = k) = (\<lambda>x. key x = k)" "(\<lambda>x. key x \<notin> K \<and> key x = k) = (\<lambda>x. False)"
      by auto
    then show ?thesis by simp
  next
    case False
    then have "(\<lambda>x. key x \<in> K \<and> key x = k) = (\<lambda>x. False)" "(\<lambda>x. key x \<notin> K \<and> key x = k) = (\<lambda>x. key x = k)"
      by auto
    then show ?thesis by simp
  qed
  then show ?thesis by (simp add: same_order_def)
qed

subsection \<open>Replaying an interleaving on PostgreSQL\<close>

definition item_topic :: "string \<Rightarrow> item \<Rightarrow> string" where
  "item_topic topic i =
     (case i of
        EventItem rel ev \<Rightarrow> event_topic topic (r_namespace rel) (r_name rel)
      | RelationItem rel \<Rightarrow> relations_topic topic)"

lemma item_record_topic_eq:
  "fr_topic (item_record (kafka_producer_fields config) codec i) = item_topic (kc_topic config) i"
  by (cases i) (simp_all add: item_record_def item_topic_def kafka_producer_fields_def flip: relations_topic_def)

text \<open>The statement an item stands for by one description of the relations, if it has one.\<close>

definition item_statement :: "(i64 \<Rightarrow> bool) \<Rightarrow> RelationCache \<Rightarrow> item \<Rightarrow> (string \<times> sql_param list) option" where
  "item_statement chrono_range rc i =
     (case i of
        RelationItem rel \<Rightarrow> None
      | EventItem rel ev \<Rightarrow>
          (case event_statement rc ev of
             None \<Rightarrow> None
           | Some (sql, vs) \<Rightarrow>
               (case encode_params chrono_range vs of
                  Ok ps \<Rightarrow> Some (sql, ps)
                | _ \<Rightarrow> None)))"

text \<open>An item that the sink can replay wherever it arrives: a relation described as the sink knows it,
  an event with a statement.\<close>

fun anywhere :: "(i64 \<Rightarrow> bool) \<Rightarrow> RelationCache \<Rightarrow> item \<Rightarrow> bool" where
  "anywhere chrono_range rc (RelationItem rel) = (RelationCache_update rel rc = rc)"
| "anywhere chrono_range rc (EventItem rel ev) = (item_statement chrono_range rc (EventItem rel ev) \<noteq> None)"

lemma same_description_fixed: "RelationCache_update rel rc = rc \<Longrightarrow> same_description rc rel"
proof -
  assume eq: "RelationCache_update rel rc = rc"
  have "same_description (RelationCache_update rel rc) rel"
    by (simp add: same_description_def RelationCache_update_def table_names_insert_def)
  then show ?thesis by (simp add: eq)
qed

lemma replay_anywhere:
  "\<forall>i\<in>set is. anywhere chrono_range rc i \<Longrightarrow>
   unaltered rc is \<and> replay chrono_range rc is = Some (List.map_filter (item_statement chrono_range rc) is)"
proof (induction "is")
  case Nil
  then show ?case by (simp add: List.map_filter_simps)
next
  case (Cons i "is")
  show ?case
  proof (cases i)
    case (RelationItem rel)
    then show ?thesis
      using Cons same_description_fixed [of rel rc] by (simp add: List.map_filter_simps item_statement_def)
  next
    case (EventItem rel ev)
    then obtain sql vs ps where "event_statement rc ev = Some (sql, vs)" "encode_params chrono_range vs = Ok ps"
      using Cons.prems by (auto simp: item_statement_def split: option.splits outcome.splits)
    then show ?thesis
      using Cons EventItem by (simp add: List.map_filter_simps item_statement_def)
  qed
qed

lemma loaded_relation_fixed:
  "rels (relation_oid rel) = Some rel \<Longrightarrow>
   RelationCache_update rel (RelationCache_from_rels rels) = RelationCache_from_rels rels"
  by (auto simp: RelationCache_update_def RelationCache_from_rels_def table_names_insert_def
      table_names_from_rels_def fun_eq_iff)

text \<open>A sink that has just connected.\<close>

lemma reconnected_sink:
  assumes "postgres_sink_new (\<lambda>_. Inr log) pg_config rels = Inr self"
  shows "up_to_date recording_client self" "pg_conn self = log" "relation_cache self = RelationCache_from_rels rels"
  using assms by (auto simp: postgres_sink_new_def up_to_date_def)

lemmas new_sink = reconnected_sink [where log = "[]"]

lemma interleaving_replayed:
  assumes "avro_codec lib" and "up_to_date recording_client self" and "\<forall>i\<in>set is. anywhere chrono_range (relation_cache self) i"
    and "delivered (kc_topic config) ms (map (item_record (kafka_producer_fields config) (codec_writer lib)) is)"
  shows "\<exists>st' is'. consume_from_kafka (codec_reader lib) (kc_topic config) (postgres_sink chrono_range recording_client)
      (map Inr ms) (initial_consuming self) = Some st' \<and>
    same_order (item_topic (kc_topic config)) is' is \<and>
    pg_conn (sink_state st') = pg_conn self @ List.map_filter (item_statement chrono_range (relation_cache self)) is'"
proof -
  let ?sink = "postgres_sink chrono_range recording_client"
  have dec: "\<forall>i\<in>set is. decodes (codec_writer lib) (codec_reader lib) i" using codec_decodes [OF assms(1)] by blast
  from consume_delivered [OF assms(4) dec, of ?sink "initial_consuming self"]
  obtain is' where is': "same_order (item_topic (kc_topic config)) is' is"
    "map_option sink_state (consume_from_kafka (codec_reader lib) (kc_topic config) ?sink (map Inr ms)
      (initial_consuming self)) = apply_items ?sink is' self"
    by (auto simp: item_record_topic_eq initial_consuming_def)
  have "\<forall>i\<in>set is'. anywhere chrono_range (relation_cache self) i"
    using assms(3) same_order_set [OF is'(1)] by simp
  then obtain self' where "apply_items ?sink is' self = Some self'"
    "pg_conn self' = pg_conn self @ List.map_filter (item_statement chrono_range (relation_cache self)) is'"
    using apply_items_replay [OF assms(2)] replay_anywhere by blast
  then show ?thesis using is' by auto
qed

subsection \<open>Properties\<close>

text \<open>
  C4: the order of each table.  Kafka keeps the order within a topic only.  When the connector has loaded
  the description of every relation, then however the topics of a run are interleaved, the producer
  acknowledges every transaction and the database runs the statement of every change exactly once, and
  those of one topic, that is of one table, in the order of the source.
\<close>

theorem tables_replayed_in_order:
  assumes "avro_codec lib" and "stream_contents P Map.empty txs = Some (iss, rels')"
    and "postgres_sink_new (\<lambda>_. Inr []) pg_config rels = Inr self"
    and "\<And>rel. RelationItem rel \<in> set (concat iss) \<Longrightarrow> rels (relation_oid rel) = Some rel"
    and "\<And>rel ev. EventItem rel ev \<in> set (concat iss) \<Longrightarrow>
      item_statement chrono_range (RelationCache_from_rels rels) (EventItem rel ev) \<noteq> None"
  shows "\<exists>st. wal_loop P (kafka_producer (kafka_producer_fields config) (codec_writer lib) (broker_client False))
      (initial_wal (empty_broker faults)) (map Event (concat (map tx_events txs)) @ [Closed]) = (st, Finished) \<and>
    applied_lsns st = map tx_lsn txs \<and>
    (\<forall>ms. delivered (kc_topic config) ms (concat (b_batches (w_producer st))) \<longrightarrow>
       (\<exists>st' is'. consume_from_kafka (codec_reader lib) (kc_topic config) (postgres_sink chrono_range recording_client)
           (map Inr ms) (initial_consuming self) = Some st' \<and>
         same_order (item_topic (kc_topic config)) is' (concat iss) \<and>
         pg_conn (sink_state st') =
           List.map_filter (item_statement chrono_range (RelationCache_from_rels rels)) is'))"
proof -
  let ?self = "kafka_producer_fields config" and ?w = "codec_writer lib"
  note self = new_sink [OF assms(3)]
  have any: "\<forall>i\<in>set (concat iss). anywhere chrono_range (relation_cache self) i"
  proof
    fix i
    assume i: "i \<in> set (concat iss)"
    show "anywhere chrono_range (relation_cache self) i"
    proof (cases i)
      case (RelationItem rel)
      then show ?thesis using assms(4) [of rel] i loaded_relation_fixed by (simp add: self(3))
    next
      case (EventItem rel ev)
      then show ?thesis using assms(5) [of rel ev] i by (simp add: self(3))
    qed
  qed
  obtain st where st: "wal_loop P (kafka_producer ?self ?w (broker_client False))
      (initial_wal (empty_broker faults)) (map Event (concat (map tx_events txs)) @ [Closed]) = (st, Finished)"
    "concat (b_batches (w_producer st)) =
      concat (map2 (\<lambda>lsn is. map (item_record ?self ?w) is @ [lsn_record ?self lsn]) (map tx_end_lsn txs) iss)"
    "applied_lsns st = map tx_lsn txs"
    using codec_run [OF assms(1,2), of config faults] by blast
  have len: "length (map tx_end_lsn txs) = length iss" using stream_contents_length [OF assms(2)] by simp
  show ?thesis
    using st(1,3) delivered_items [OF len] interleaving_replayed [OF assms(1) self(1) any]
    by (intro exI [of _ st]) (auto simp: st(2) self(2,3) simp del: set_concat)
qed

text \<open>The run of the example stream, read with the events before the relations.\<close>

definition events_first :: "message list \<Rightarrow> message list" where
  "events_first ms =
     filter (\<lambda>m. m_topic m \<in> {''cdc.events.public.counters''}) ms @
     filter (\<lambda>m. m_topic m \<notin> {''cdc.events.public.counters''}) ms"

theorem tables_replayed_in_order_witness:
  "\<exists>st st' is'. wal_loop x86_platform
      (kafka_producer (kafka_producer_fields sample_config) (codec_writer avro_binary) (broker_client False))
      (initial_wal (empty_broker [])) (map Event (concat (map tx_events example_stream)) @ [Closed]) = (st, Finished) \<and>
    consume_from_kafka (codec_reader avro_binary) (kc_topic sample_config) (postgres_sink (\<lambda>_. True) recording_client)
      (map Inr (events_first (log_messages st))) (initial_consuming counters_sink) = Some st' \<and>
    same_order (item_topic (kc_topic sample_config)) is' (concat example_items) \<and>
    pg_conn (sink_state st') =
      List.map_filter (item_statement (\<lambda>_. True) (RelationCache_from_rels [7 \<mapsto> counters_rel])) is'"
proof -
  let ?config = "\<lparr>cc_host = ''db'', cc_user = ''u'', cc_password = ''p'', cc_port = 5432\<rparr>"
  have new: "postgres_sink_new (\<lambda>_. Inr []) ?config [7 \<mapsto> counters_rel] = Inr counters_sink"
    by (simp add: postgres_sink_new_def counters_sink_def)
  have rel: "[7 \<mapsto> counters_rel] (relation_oid rel) = Some rel" if "RelationItem rel \<in> set (concat example_items)" for rel
    using that by (simp add: example_items_def) (simp add: counters_rel_def)
  have s: "item_statement (\<lambda>_. True) (RelationCache_from_rels [7 \<mapsto> counters_rel]) (EventItem rel ev) \<noteq> None"
    if "EventItem rel ev \<in> set (concat example_items)" for rel ev
    using that
    by (auto simp: example_items_def item_statement_def insert_event_def counters_statement merge_toasted_def)
  have order: "delivered (kc_topic sample_config) (events_first (log_messages st)) (concat (b_batches (w_producer st)))" for st
    using delivered_same_order [OF published_delivered [OF published_log_messages] same_order_partition]
    by (simp only: events_first_def)
  show ?thesis
    using tables_replayed_in_order [OF avro_spec.avro_codec_axioms example_contents new rel s,
        of sample_config "[]"] order by blast
qed

text \<open>
  The description has to be known first.  A message that carries an event, or a relation:
\<close>

definition holds_event :: "avro_reader \<Rightarrow> string \<Rightarrow> Relation \<Rightarrow> message \<Rightarrow> ChangeEvent \<Rightarrow> bool" where
  "holds_event codec t rel m ev \<longleftrightarrow> m_topic m = event_topic t (r_namespace rel) (r_name rel) \<and>
     (\<exists>view. m_payload m = Some view \<and> from_avro_event codec view = Inr ev) \<and> ev_rel ev = relation_oid rel"

definition holds_relation :: "avro_reader \<Rightarrow> string \<Rightarrow> message \<Rightarrow> Relation \<Rightarrow> bool" where
  "holds_relation codec t m rel \<longleftrightarrow> m_topic m = relations_topic t \<and>
     (\<exists>view. m_payload m = Some view \<and> from_avro_relation codec view = Inr rel)"

lemma consume_held_event:
  "holds_event codec t rel m ev \<Longrightarrow> consume_message codec t ops m st = consume_event ops m ev st"
  by (auto simp: holds_event_def consume_event_topic)

lemma consume_held_relation:
  "holds_relation codec t m rel \<Longrightarrow> consume_message codec t ops m st = consume_relation ops rel st"
  by (auto simp: holds_relation_def consume_relations_topic)

lemma unknown_relation_refused:
  assumes "postgres_sink_new (\<lambda>_. Inr []) pg_config rels = Inr self" and "rels (ev_rel ev) = None"
  shows "\<exists>e. pg_on_event chrono_range cl ev self = (Err e, self)"
proof -
  have "self = \<lparr>pg_conn = [], upsert_stmt_cache = Map.empty, delete_stmt_cache = Map.empty,
      relation_cache = RelationCache_from_rels rels\<rparr>"
    using assms(1) by (auto simp: postgres_sink_new_def)
  moreover have "table_names (RelationCache_from_rels rels) (ev_rel ev) = None"
    "key_lists (RelationCache_from_rels rels) (ev_rel ev) = None"
    using assms(2) by (simp_all add: RelationCache_from_rels_def table_names_from_rels_def)
  ultimately show ?thesis
    by (auto simp: pg_on_event_def run_upsert_def run_delete_def upsert_statement_get_def
        delete_statement_get_def table_names_get_def split_beta split: Op.split)
qed

text \<open>
  C37: an event that overtakes the announcement of its table is lost.  Announcement and events travel in
  different topics, so a connector that did not know the table may get an event first.  It refuses it,
  learns the table, replays the next event of the same topic and commits that one: the database never
  runs the first event's statement, and the group's position is past it.
\<close>

theorem event_overtaking_its_relation_is_lost:
  assumes "postgres_sink_new (\<lambda>_. Inr []) pg_config rels = Inr self" and "rels (relation_oid rel) = None"
    and "holds_event codec t rel m1 ev1" and "holds_relation codec t mr rel" and "holds_event codec t rel m2 ev2"
    and "item_statement chrono_range (RelationCache_update rel (RelationCache_from_rels rels)) (EventItem rel ev2) =
      Some stmt"
    and "m_partition m1 = m_partition m2" and "m_offset m1 < m_offset m2"
  shows "\<exists>st'. consume_from_kafka codec t (postgres_sink chrono_range recording_client)
      [Inr m1, Inr mr, Inr m2] (initial_consuming self) = Some st' \<and>
    pg_conn (sink_state st') = [stmt] \<and> commits st' = [m2] \<and>
    m_offset m1 < resume_offset (commits st') (m_topic m1) (m_partition m1)"
proof -
  let ?sink = "postgres_sink chrono_range recording_client" and ?rel = "snd (pg_on_relation rel self)"
  note self = new_sink [OF assms(1)]
  have oids: "ev_rel ev1 = relation_oid rel" using assms(3) by (simp add: holds_event_def)
  obtain e where e: "pg_on_event chrono_range recording_client ev1 self = (Err e, self)"
    using unknown_relation_refused [OF assms(1), of ev1] assms(2) by (auto simp: oids)
  have "same_description (relation_cache self) rel"
    using assms(2) by (simp add: same_description_def self(3) RelationCache_from_rels_def table_names_from_rels_def)
  then have up: "up_to_date recording_client ?rel" by (rule pg_on_relation_up_to_date [OF self(1)])
  have rc: "relation_cache ?rel = RelationCache_update rel (RelationCache_from_rels rels)" "pg_conn ?rel = []"
    by (simp_all add: pg_on_relation_def self(2,3))
  obtain sql vs ps where s: "event_statement (relation_cache ?rel) ev2 = Some (sql, vs)"
    "encode_params chrono_range vs = Ok ps" "stmt = (sql, ps)"
    using assms(6) by (auto simp: item_statement_def rc(1) split: option.splits outcome.splits)
  obtain self2 where self2: "pg_on_event chrono_range recording_client ev2 ?rel = (Ok (), self2)" "pg_conn self2 = [stmt]"
    using pg_on_event_recording [OF up s(1,2)] s(3) rc(2) by auto
  have topics: "m_topic m1 = m_topic m2" using assms(3,5) by (simp add: holds_event_def)
  show ?thesis
    using e self2 assms(7,8)
    by (simp add: consume_held_event [OF assms(3)] consume_held_relation [OF assms(4)] consume_held_event [OF assms(5)]
        consume_event_def consume_relation_def initial_consuming_def postgres_sink_def pg_on_relation_def
        resume_offset_def topics)
qed

theorem event_overtaking_its_relation_is_lost_witness:
  "\<exists>st'. consume_from_kafka sample_reader ''cdc'' (postgres_sink (\<lambda>_. True) recording_client)
      [Inr (sample_message ''cdc.events.public.counters'' 7 0), Inr (sample_message ''cdc.relations'' 7 0),
       Inr (sample_message ''cdc.events.public.counters'' 7 1)]
      (initial_consuming (counters_sink\<lparr>relation_cache := RelationCache_from_rels Map.empty\<rparr>)) = Some st' \<and>
    pg_conn (sink_state st') = [(delete_gen_str ''counters'' [''id''], [])] \<and>
    commits st' = [sample_message ''cdc.events.public.counters'' 7 1]"
proof -
  let ?self = "counters_sink\<lparr>relation_cache := RelationCache_from_rels Map.empty\<rparr>"
  let ?config = "\<lparr>cc_host = ''db'', cc_user = ''u'', cc_password = ''p'', cc_port = 5432\<rparr>"
  let ?e = "sample_message ''cdc.events.public.counters'' 7" and ?r = "sample_message ''cdc.relations'' 7 0"
  let ?ev = "\<lparr>ev_op = Delete [], ev_rel = 7\<rparr>"
  have new: "postgres_sink_new (\<lambda>_. Inr []) ?config Map.empty = Inr ?self"
    by (simp add: postgres_sink_new_def counters_sink_def)
  have e: "holds_event sample_reader ''cdc'' counters_rel (?e n) ?ev" for n
    by (simp add: holds_event_def event_topic_def sample_reader_def sample_message_def) (simp add: counters_rel_def)
  have r: "holds_relation sample_reader ''cdc'' ?r counters_rel"
    by (simp add: holds_relation_def relations_topic_def sample_reader_def sample_message_def) (simp add: counters_rel_def)
  have s: "item_statement (\<lambda>_. True) (RelationCache_update counters_rel (RelationCache_from_rels Map.empty))
      (EventItem counters_rel ?ev) = Some (delete_gen_str ''counters'' [''id''], [])"
    by (simp add: item_statement_def event_statement_code RelationCache_update_def table_names_insert_def
        counters_rel_def merge_toasted_def extract_fields_names_def extract_keys_rel_def List.map_filter_simps
        extract_key_identity_def delete_params_def)
  have "m_partition (?e 0) = m_partition (?e 1)" "m_offset (?e 0) < m_offset (?e 1)"
    by (simp_all add: sample_message_def)
  from event_overtaking_its_relation_is_lost [OF new _ e r e s this] show ?thesis by auto
qed

end
