(* ===== verification/Table_Replica.thy ===== *)
theory Table_Replica imports Topic_Order begin

text \<open>
  The data: what the replayed statements make of a table of the target database, against the table of
  the source.  A table is a map from the key values of its rows to the rows.  What the database does with
  a statement is a parameter; its contract, the documented meaning of INSERT .. ON CONFLICT and DELETE on
  one table, is the locale \<open>sql_table\<close>.
\<close>

subsection \<open>Tables\<close>

type_synonym table = "sql_param list \<rightharpoonup> sql_param list"

definition row_key :: "Relation \<Rightarrow> sql_param list \<Rightarrow> sql_param list" where
  "row_key rel ps = nths ps (extract_keys_pos (r_fields rel))"

definition upsert_text :: "Relation \<Rightarrow> string" where
  "upsert_text rel =
     upsert_spec (r_name rel) (extract_fields_names rel) (extract_keys_rel rel) @
     left_over (extract_fields_names rel) (extract_keys_rel rel)"

definition delete_text :: "Relation \<Rightarrow> string" where
  "delete_text rel = delete_spec (r_name rel) (extract_keys_rel rel)"

lemma texts_differ: "upsert_text rel \<noteq> delete_text rel'"
  by (simp add: upsert_text_def delete_text_def upsert_spec_def delete_spec_def)

text \<open>A table the statements are valid for: it has a key, and no comma is left over in the upsert.\<close>

definition plain_table :: "Relation \<Rightarrow> bool" where
  "plain_table rel \<longleftrightarrow> distinct (extract_fields_names rel) \<and> extract_keys_rel rel \<noteq> [] \<and>
     (\<not> f_is_key (last (r_fields rel)) \<or> (\<forall>f\<in>set (r_fields rel). f_is_key f))"

text \<open>
  A row with a known key is inserted, or replaces the row with that key; \<open>k1 = $1 AND ..\<close> selects the row
  with that key.  SQL's NULL is equal to nothing, so the laws ask for keys without NULLs.
\<close>

locale sql_table =
  fixes effect :: "string \<times> sql_param list \<Rightarrow> 'd \<Rightarrow> 'd"
    and rows :: "'d \<Rightarrow> table"
    and rel :: Relation
  assumes upsert: "plain_table rel \<Longrightarrow> length ps = length (r_fields rel) \<Longrightarrow> SqlNull \<notin> set (row_key rel ps) \<Longrightarrow>
      rows (effect (upsert_text rel, ps) d) = (rows d)(row_key rel ps \<mapsto> ps)"
    and delete: "plain_table rel \<Longrightarrow> length ps = length (extract_keys_rel rel) \<Longrightarrow> SqlNull \<notin> set ps \<Longrightarrow>
      rows (effect (delete_text rel, ps) d) = (rows d)(ps := None)"
    and other: "fst s \<notin> {upsert_text rel, delete_text rel} \<Longrightarrow> rows (effect s d) = rows d"

text \<open>A database with this one table.\<close>

definition table_effect :: "Relation \<Rightarrow> string \<times> sql_param list \<Rightarrow> table \<Rightarrow> table" where
  "table_effect rel s T =
     (if fst s = upsert_text rel then T(row_key rel (snd s) \<mapsto> snd s)
      else if fst s = delete_text rel then T(snd s := None)
      else T)"

interpretation stored: sql_table "table_effect rel" "\<lambda>T. T" rel for rel
  by unfold_locales (simp_all add: table_effect_def texts_differ [symmetric])

subsection \<open>The source\<close>

definition params :: "(i64 \<Rightarrow> bool) \<Rightarrow> PgValue list \<Rightarrow> sql_param list" where
  "params chrono_range vs = (case encode_params chrono_range vs of Ok ps \<Rightarrow> ps | _ \<Rightarrow> [])"

text \<open>The key of an old tuple: the tuple itself if only the key was sent.\<close>

definition old_key :: "(i64 \<Rightarrow> bool) \<Rightarrow> Relation \<Rightarrow> PgValue list \<Rightarrow> sql_param list" where
  "old_key chrono_range rel olds =
     (case replica_id rel of
        Keys \<Rightarrow> params chrono_range olds
      | Row \<Rightarrow> row_key rel (params chrono_range olds))"

text \<open>
  What the change did to the source's table: an update removes the old row, whose key is that of the new
  one if no old tuple was sent, and stores the new one.
\<close>

definition source_apply :: "(i64 \<Rightarrow> bool) \<Rightarrow> Relation \<Rightarrow> ChangeEvent \<Rightarrow> table \<Rightarrow> table" where
  "source_apply chrono_range rel ev T =
     (case ev_op ev of
        Insert r \<Rightarrow> T(row_key rel (params chrono_range r) \<mapsto> params chrono_range r)
      | Update olds r \<Rightarrow>
          (let ps = params chrono_range (filled olds r);
               k = (if olds = [] then row_key rel ps else old_key chrono_range rel olds)
           in (T(k := None))(row_key rel ps \<mapsto> ps))
      | Delete olds \<Rightarrow> T(old_key chrono_range rel olds := None))"

text \<open>A change that the statements can carry over.\<close>

definition storable :: "(i64 \<Rightarrow> bool) \<Rightarrow> Relation \<Rightarrow> PgValue list \<Rightarrow> bool" where
  "storable chrono_range rel r \<longleftrightarrow> length r = length (r_fields rel) \<and>
     (\<exists>ps. encode_params chrono_range r = Ok ps) \<and> SqlNull \<notin> set (row_key rel (params chrono_range r))"

definition replicable :: "(i64 \<Rightarrow> bool) \<Rightarrow> Relation \<Rightarrow> ChangeEvent \<Rightarrow> bool" where
  "replicable chrono_range rel ev \<longleftrightarrow>
     (case ev_op ev of
        Insert r \<Rightarrow> storable chrono_range rel r
      | Update olds r \<Rightarrow>
          (\<forall>j<length r. r ! j = Toasted \<longrightarrow> j < length olds) \<and> storable chrono_range rel (filled olds r) \<and>
          (olds = [] \<or> old_key chrono_range rel olds = row_key rel (params chrono_range (filled olds r)))
      | Delete olds \<Rightarrow>
          encode_params chrono_range (delete_values (extract_key_identity rel) olds) =
            Ok (old_key chrono_range rel olds) \<and>
          length (old_key chrono_range rel olds) = length (extract_keys_rel rel) \<and>
          SqlNull \<notin> set (old_key chrono_range rel olds))"

text \<open>Such a change assigns one key.\<close>

fun assign :: "sql_param list \<times> sql_param list option \<Rightarrow> table \<Rightarrow> table" where
  "assign (k, v) T = T(k := v)"

definition assignment_of :: "(i64 \<Rightarrow> bool) \<Rightarrow> Relation \<Rightarrow> ChangeEvent \<Rightarrow> sql_param list \<times> sql_param list option" where
  "assignment_of chrono_range rel ev =
     (case ev_op ev of
        Insert r \<Rightarrow> (row_key rel (params chrono_range r), Some (params chrono_range r))
      | Update olds r \<Rightarrow> (row_key rel (params chrono_range (filled olds r)), Some (params chrono_range (filled olds r)))
      | Delete olds \<Rightarrow> (old_key chrono_range rel olds, None))"

lemma source_apply_assigns:
  "replicable chrono_range rel ev \<Longrightarrow> source_apply chrono_range rel ev = assign (assignment_of chrono_range rel ev)"
  by (auto simp: replicable_def source_apply_def assignment_of_def Let_def fun_eq_iff split: Op.splits)

lemma fold_assign: "fold assign as T k = (case map_of (rev as) k of Some v \<Rightarrow> v | None \<Rightarrow> T k)"
  by (induction as arbitrary: T) (auto simp: map_add_def split: option.splits)

lemma fold_assign_twice: "fold assign as (fold assign as T) = fold assign as T"
  by (simp add: fun_eq_iff fold_assign split: option.split)

lemma fold_source_apply:
  "\<forall>ev\<in>set evs. replicable chrono_range rel ev \<Longrightarrow>
   fold (source_apply chrono_range rel) evs T = fold assign (map (assignment_of chrono_range rel) evs) T"
  by (induction evs arbitrary: T) (simp_all add: source_apply_assigns)

subsection \<open>One statement\<close>

lemma encode_params_length: "encode_params chrono_range vs = Ok ps \<Longrightarrow> length ps = length vs"
  by (induction vs arbitrary: ps) (auto simp: outcome_inv)

lemma event_statement_loaded:
  assumes "rels (ev_rel ev) = Some rel"
  shows "event_statement (RelationCache_from_rels rels) ev =
    (case ev_op ev of
       Insert r \<Rightarrow> Some (upsert_text rel, r)
     | Update olds r \<Rightarrow>
         (if \<forall>j<length r. r ! j = Toasted \<longrightarrow> j < length olds then Some (upsert_text rel, filled olds r) else None)
     | Delete olds \<Rightarrow> Some (delete_text rel, delete_values (extract_key_identity rel) olds))"
  using assms
  by (cases "ev_op ev")
    (auto simp: event_statement_def RelationCache_from_rels_def table_names_from_rels_def upsert_text_def delete_text_def)

lemma item_statement_text:
  assumes "rels (ev_rel ev) = Some rel'"
    and "item_statement chrono_range (RelationCache_from_rels rels) (EventItem rel0 ev) = Some s"
  shows "fst s \<in> {upsert_text rel', delete_text rel'}"
  using assms(2) event_statement_loaded [of rels ev rel', OF assms(1)]
  by (auto simp: item_statement_def split: option.splits outcome.splits Op.splits if_splits)

context sql_table begin

lemma statement_effect:
  assumes "plain_table rel" and "rels (ev_rel ev) = Some rel" and "replicable chrono_range rel ev"
  shows "\<exists>s. item_statement chrono_range (RelationCache_from_rels rels) (EventItem rel ev) = Some s \<and>
    rows (effect s d) = source_apply chrono_range rel ev (rows d)"
proof -
  note st = event_statement_loaded [of rels ev rel, OF assms(2)]
  have up: "\<exists>s. item_statement chrono_range (RelationCache_from_rels rels) (EventItem rel ev) = Some s \<and>
      rows (effect s d) = (rows d)(row_key rel (params chrono_range r) \<mapsto> params chrono_range r)"
    if ev: "event_statement (RelationCache_from_rels rels) ev = Some (upsert_text rel, r)"
      and sto: "storable chrono_range rel r" for r
  proof -
    obtain ps where ps: "encode_params chrono_range r = Ok ps" using sto by (auto simp: storable_def)
    then have "params chrono_range r = ps" "length ps = length (r_fields rel)" "SqlNull \<notin> set (row_key rel ps)"
      using sto encode_params_length [OF ps] by (auto simp: storable_def params_def)
    then show ?thesis
      using upsert [OF assms(1), of ps d] ps ev by (simp add: item_statement_def)
  qed
  show ?thesis
  proof (cases "ev_op ev")
    case (Insert r)
    then show ?thesis
      using up [of r] st assms(3) by (simp add: replicable_def source_apply_def)
  next
    case (Update olds r)
    then show ?thesis
      using up [of "filled olds r"] st assms(3) source_apply_assigns [OF assms(3)]
      by (simp add: replicable_def assignment_of_def)
  next
    case (Delete olds)
    let ?k = "old_key chrono_range rel olds"
    have k: "encode_params chrono_range (delete_values (extract_key_identity rel) olds) = Ok ?k"
      "length ?k = length (extract_keys_rel rel)" "SqlNull \<notin> set ?k"
      using assms(3) by (simp_all add: replicable_def Delete)
    have "item_statement chrono_range (RelationCache_from_rels rels) (EventItem rel ev) = Some (delete_text rel, ?k)"
      using st k(1) by (simp add: item_statement_def Delete)
    then show ?thesis
      using delete [OF assms(1) k(2,3), of d] by (simp add: source_apply_def Delete)
  qed
qed

end

subsection \<open>A list of items\<close>

text \<open>The changes of one relation.\<close>

definition events_of :: "Relation \<Rightarrow> item list \<Rightarrow> ChangeEvent list" where
  "events_of rel is =
     List.map_filter
       (\<lambda>i. case i of EventItem rel' ev \<Rightarrow> if ev_rel ev = relation_oid rel then Some ev else None
            | RelationItem rel' \<Rightarrow> None) is"

lemma events_of_simps [simp]:
  "events_of rel [] = []"
  "events_of rel (RelationItem rel' # is) = events_of rel is"
  "events_of rel (EventItem rel' ev # is) =
     (if ev_rel ev = relation_oid rel then ev # events_of rel is else events_of rel is)"
  by (simp_all add: events_of_def List.map_filter_simps)

lemma events_of_append: "events_of rel (xs @ ys) = events_of rel xs @ events_of rel ys"
  by (simp add: events_of_def List.map_filter_def)

lemma in_events_of: "ev \<in> set (events_of rel is) \<longleftrightarrow> (\<exists>rel'. EventItem rel' ev \<in> set is) \<and> ev_rel ev = relation_oid rel"
proof (induction "is")
  case (Cons i "is")
  then show ?case by (cases i) auto
qed simp

text \<open>The items that a connector which knows the relations can replicate into the table of \<open>rel\<close>.\<close>

definition replicable_items :: "(i64 \<Rightarrow> bool) \<Rightarrow> (u32 \<rightharpoonup> Relation) \<Rightarrow> Relation \<Rightarrow> item list \<Rightarrow> bool" where
  "replicable_items chrono_range rels rel is \<longleftrightarrow>
     rels (relation_oid rel) = Some rel \<and>
     (\<forall>rel'. RelationItem rel' \<in> set is \<longrightarrow> rels (relation_oid rel') = Some rel') \<and>
     (\<forall>rel' ev. EventItem rel' ev \<in> set is \<longrightarrow>
        rels (ev_rel ev) = Some rel' \<and>
        item_statement chrono_range (RelationCache_from_rels rels) (EventItem rel' ev) \<noteq> None \<and>
        (ev_rel ev = relation_oid rel \<longrightarrow> replicable chrono_range rel ev) \<and>
        (ev_rel ev \<noteq> relation_oid rel \<longrightarrow>
           {upsert_text rel', delete_text rel'} \<inter> {upsert_text rel, delete_text rel} = {}))"

lemma replicable_items_subset:
  "replicable_items chrono_range rels rel ys \<Longrightarrow> set xs \<subseteq> set ys \<Longrightarrow> replicable_items chrono_range rels rel xs"
  unfolding replicable_items_def by (meson subsetD)

lemma replicable_items_Cons:
  "replicable_items chrono_range rels rel (i # is) \<Longrightarrow> replicable_items chrono_range rels rel is"
  by (erule replicable_items_subset) auto

lemma replicable_item:
  assumes "replicable_items chrono_range rels rel is" and "EventItem rel' ev \<in> set is"
  shows "rels (ev_rel ev) = Some rel'"
    and "item_statement chrono_range (RelationCache_from_rels rels) (EventItem rel' ev) \<noteq> None"
    and "ev_rel ev = relation_oid rel \<Longrightarrow> rel' = rel"
    and "ev_rel ev = relation_oid rel \<Longrightarrow> replicable chrono_range rel ev"
    and "ev_rel ev \<noteq> relation_oid rel \<Longrightarrow>
      {upsert_text rel', delete_text rel'} \<inter> {upsert_text rel, delete_text rel} = {}"
proof -
  show known: "rels (ev_rel ev) = Some rel'" using assms unfolding replicable_items_def by blast
  show "rel' = rel" if "ev_rel ev = relation_oid rel"
    using assms(1) known that unfolding replicable_items_def by simp
  show "item_statement chrono_range (RelationCache_from_rels rels) (EventItem rel' ev) \<noteq> None"
    using assms unfolding replicable_items_def by blast
  show "replicable chrono_range rel ev" if "ev_rel ev = relation_oid rel"
    using assms that unfolding replicable_items_def by blast
  show "{upsert_text rel', delete_text rel'} \<inter> {upsert_text rel, delete_text rel} = {}"
    if "ev_rel ev \<noteq> relation_oid rel"
    using assms that unfolding replicable_items_def by blast
qed

lemma replicable_anywhere:
  assumes "replicable_items chrono_range rels rel is"
  shows "\<forall>i\<in>set is. anywhere chrono_range (RelationCache_from_rels rels) i"
proof
  fix i
  assume i: "i \<in> set is"
  show "anywhere chrono_range (RelationCache_from_rels rels) i"
  proof (cases i)
    case (RelationItem rel')
    then show ?thesis using assms i loaded_relation_fixed by (simp add: replicable_items_def)
  next
    case (EventItem rel' ev)
    then show ?thesis using replicable_item(2) [OF assms] i by simp
  qed
qed

lemma replicable_events:
  "replicable_items chrono_range rels rel is \<Longrightarrow> \<forall>ev\<in>set (events_of rel is). replicable chrono_range rel ev"
  by (auto simp: in_events_of replicable_items_def)

text \<open>Only the order within the table's topic matters.\<close>

lemma events_of_topic:
  assumes "replicable_items chrono_range rels rel is"
  shows "events_of rel (filter (\<lambda>i. item_topic t i = event_topic t (r_namespace rel) (r_name rel)) is) = events_of rel is"
  using assms
proof (induction "is")
  case (Cons i "is")
  note IH = Cons.IH [OF replicable_items_Cons [OF Cons.prems]]
  show ?case
  proof (cases i)
    case (RelationItem rel')
    then show ?thesis using IH by (simp add: item_topic_def)
  next
    case (EventItem rel' ev)
    have "rel' = rel" if "ev_rel ev = relation_oid rel"
      using replicable_item(3) [OF Cons.prems, of rel' ev] that by (simp add: EventItem)
    then show ?thesis using IH by (simp add: EventItem item_topic_def)
  qed
qed simp

lemma events_of_same_order:
  assumes "replicable_items chrono_range rels rel is" and "same_order (item_topic t) is' is"
  shows "events_of rel is' = events_of rel is"
proof -
  have "replicable_items chrono_range rels rel is'"
    using replicable_items_subset [OF assms(1)] same_order_set [OF assms(2)] by blast
  then show ?thesis
    using events_of_topic [OF assms(1), of t] events_of_topic [of chrono_range rels rel is' t] assms(2)
    by (simp add: same_order_def)
qed

context sql_table begin

lemma replayed_rows:
  assumes "plain_table rel" and "replicable_items chrono_range rels rel is"
  shows "rows (fold effect (List.map_filter (item_statement chrono_range (RelationCache_from_rels rels)) is) d) =
    fold (source_apply chrono_range rel) (events_of rel is) (rows d)"
  using assms(2)
proof (induction "is" arbitrary: d)
  case Nil
  then show ?case by (simp add: List.map_filter_simps)
next
  case (Cons i "is")
  let ?st = "item_statement chrono_range (RelationCache_from_rels rels)"
  note IH = Cons.IH [OF replicable_items_Cons [OF Cons.prems]]
  show ?case
  proof (cases i)
    case (RelationItem rel')
    then show ?thesis using IH by (simp add: List.map_filter_simps item_statement_def)
  next
    case (EventItem rel' ev)
    have "EventItem rel' ev \<in> set (i # is)" by (simp add: EventItem)
    note item = replicable_item [OF Cons.prems this]
    have known: "rels (ev_rel ev) = Some rel'" and "?st i \<noteq> None" using item(1,2) by (simp_all add: EventItem)
    then obtain s where s: "?st i = Some s" by blast
    have step: "rows (effect s d) = (if ev_rel ev = relation_oid rel then source_apply chrono_range rel ev (rows d) else rows d)"
    proof (cases "ev_rel ev = relation_oid rel")
      case True
      then have "rel' = rel" "replicable chrono_range rel ev" using item(3,4) by simp_all
      then show ?thesis
        using statement_effect [OF assms(1), of rels ev chrono_range d] known s True by (auto simp: EventItem)
    next
      case False
      then have "{upsert_text rel', delete_text rel'} \<inter> {upsert_text rel, delete_text rel} = {}" by (rule item(5))
      moreover have "fst s \<in> {upsert_text rel', delete_text rel'}"
        using item_statement_text [of rels ev rel' chrono_range rel' s, OF known] s by (simp add: EventItem)
      ultimately have "fst s \<notin> {upsert_text rel, delete_text rel}" by blast
      then show ?thesis using False by (simp add: other)
    qed
    have "List.map_filter ?st (i # is) = s # List.map_filter ?st is" by (simp add: List.map_filter_simps s)
    then show ?thesis using IH [of "effect s d"] step by (simp add: EventItem)
  qed
qed

end

subsection \<open>Properties\<close>

lemma interleaving_rows:
  assumes "avro_codec lib" and "sql_table effect rows rel" and "plain_table rel"
    and "replicable_items chrono_range rels rel is" and "postgres_sink_new (\<lambda>_. Inr log) pg_config rels = Inr self"
    and "delivered (kc_topic config) ms (map (item_record (kafka_producer_fields config) (codec_writer lib)) is)"
  shows "\<exists>st'. consume_from_kafka (codec_reader lib) (kc_topic config) (postgres_sink chrono_range recording_client)
      (map Inr ms) (initial_consuming self) = Some st' \<and>
    rows (fold effect (pg_conn (sink_state st')) d) =
      fold (source_apply chrono_range rel) (events_of rel is) (rows (fold effect log d))"
proof -
  note self = reconnected_sink [OF assms(5)]
  have any: "\<forall>i\<in>set is. anywhere chrono_range (relation_cache self) i"
    using replicable_anywhere [OF assms(4)] by (simp add: self(3))
  from interleaving_replayed [OF assms(1) self(1) any assms(6)] obtain st' is' where run: "consume_from_kafka (codec_reader lib) (kc_topic config)
      (postgres_sink chrono_range recording_client) (map Inr ms) (initial_consuming self) = Some st'"
    and order: "same_order (item_topic (kc_topic config)) is' is"
    and conn: "pg_conn (sink_state st') =
      log @ List.map_filter (item_statement chrono_range (RelationCache_from_rels rels)) is'"
    by (auto simp: self(2,3))
  have "replicable_items chrono_range rels rel is'"
    using replicable_items_subset [OF assms(4)] same_order_set [OF order] by blast
  from sql_table.replayed_rows [OF assms(2,3) this, of "fold effect log d"] show ?thesis
    using run events_of_same_order [OF assms(4) order] by (simp add: conn)
qed

lemma replica_run:
  assumes "avro_codec lib" and "stream_contents P Map.empty txs = Some (iss, rels')"
    and "sql_table effect rows rel" and "plain_table rel" and "replicable_items chrono_range rels rel (concat iss)"
    and "postgres_sink_new (\<lambda>_. Inr []) pg_config rels = Inr self"
  shows "\<exists>st. wal_loop P (kafka_producer (kafka_producer_fields config) (codec_writer lib) (broker_client False))
      (initial_wal (empty_broker faults)) (map Event (concat (map tx_events txs)) @ [Closed]) = (st, Finished) \<and>
    (\<forall>ms. delivered (kc_topic config) ms (concat (b_batches (w_producer st))) \<longrightarrow>
       (\<exists>st'. consume_from_kafka (codec_reader lib) (kc_topic config) (postgres_sink chrono_range recording_client)
           (map Inr ms) (initial_consuming self) = Some st' \<and>
         rows (fold effect (pg_conn (sink_state st')) d) =
           fold (source_apply chrono_range rel) (events_of rel (concat iss)) (rows d)))"
proof -
  obtain st where st: "wal_loop P (kafka_producer (kafka_producer_fields config) (codec_writer lib) (broker_client False))
      (initial_wal (empty_broker faults)) (map Event (concat (map tx_events txs)) @ [Closed]) = (st, Finished)"
    "concat (b_batches (w_producer st)) =
      concat (map2 (\<lambda>lsn is. map (item_record (kafka_producer_fields config) (codec_writer lib)) is @
        [lsn_record (kafka_producer_fields config) lsn]) (map tx_end_lsn txs) iss)"
    using codec_run [OF assms(1,2), of config faults] by blast
  have len: "length (map tx_end_lsn txs) = length iss" using stream_contents_length [OF assms(2)] by simp
  have "\<exists>st'. consume_from_kafka (codec_reader lib) (kc_topic config) (postgres_sink chrono_range recording_client)
      (map Inr ms) (initial_consuming self) = Some st' \<and>
    rows (fold effect (pg_conn (sink_state st')) d) =
      fold (source_apply chrono_range rel) (events_of rel (concat iss)) (rows d)"
    if "delivered (kc_topic config) ms (concat (b_batches (w_producer st)))" for ms
    using interleaving_rows [OF assms(1,3-6) delivered_items [OF len]] that by (simp only: st(2)) simp
  then show ?thesis using st(1) by blast
qed

text \<open>
  C1: the replica follows the source.  Take a run without failing calls, in which every relation that is
  announced or changed is as the connector loaded it before (none is new or altered on the way), every
  event has a statement, and no other table's statements have the texts of this one's.  The connector
  may read the topics of the run in any interleaving.  For a database with the documented meaning of the
  two statements, and a table with a key, whose last column is a key only if all are, and whose changes
  the statements can carry (all values are sent and can be encoded, no key is changed by an update, no key
  value is NULL, the key values of a deletion reach the statement), the replay makes of the target's rows what the
  source's changes make of the same rows, whatever they were before.
\<close>

theorem replica_follows_source:
  assumes "avro_codec lib" and "stream_contents P Map.empty txs = Some (iss, rels')"
    and "sql_table effect rows rel" and "plain_table rel" and "replicable_items chrono_range rels rel (concat iss)"
    and "postgres_sink_new (\<lambda>_. Inr []) pg_config rels = Inr self"
  shows "\<exists>st. wal_loop P (kafka_producer (kafka_producer_fields config) (codec_writer lib) (broker_client False))
      (initial_wal (empty_broker faults)) (map Event (concat (map tx_events txs)) @ [Closed]) = (st, Finished) \<and>
    (\<forall>ms. delivered (kc_topic config) ms (concat (b_batches (w_producer st))) \<longrightarrow>
       (\<exists>st'. consume_from_kafka (codec_reader lib) (kc_topic config) (postgres_sink chrono_range recording_client)
           (map Inr ms) (initial_consuming self) = Some st' \<and>
         rows (fold effect (pg_conn (sink_state st')) d) =
           fold (source_apply chrono_range rel) (events_of rel (concat iss)) (rows d)))"
  by (rule replica_run [OF assms])

lemma counters_plain: "plain_table counters_rel"
  by (simp add: plain_table_def counters_rel_def extract_fields_names_def extract_keys_rel_def List.map_filter_simps)

lemma counters_key: "row_key counters_rel [p] = [p]"
  by (simp add: row_key_def extract_keys_pos_eq counters_rel_def nths_singleton)

lemma insert_event_replicable: "replicable (\<lambda>_. True) counters_rel (insert_event n)"
  by (simp add: replicable_def insert_event_def storable_def params_def counters_key)
    (simp add: counters_rel_def)

lemma example_replicable: "replicable_items (\<lambda>_. True) [7 \<mapsto> counters_rel] counters_rel (concat example_items)"
proof -
  have i: "relation_oid counters_rel = 7" "ev_rel (insert_event n) = 7" for n
    by (simp_all add: counters_rel_def insert_event_def)
  have "item_statement (\<lambda>_. True) (RelationCache_from_rels [7 \<mapsto> counters_rel]) (EventItem counters_rel (insert_event n)) \<noteq> None" for n
    by (simp add: item_statement_def insert_event_def counters_statement)
  then show ?thesis
    by (auto simp: replicable_items_def example_items_def i insert_event_replicable)
qed

theorem replica_follows_source_witness:
  "\<exists>st st'. wal_loop x86_platform
      (kafka_producer (kafka_producer_fields sample_config) (codec_writer avro_binary) (broker_client False))
      (initial_wal (empty_broker [])) (map Event (concat (map tx_events example_stream)) @ [Closed]) = (st, Finished) \<and>
    consume_from_kafka (codec_reader avro_binary) (kc_topic sample_config) (postgres_sink (\<lambda>_. True) recording_client)
      (map Inr (events_first (log_messages st))) (initial_consuming counters_sink) = Some st' \<and>
    fold (table_effect counters_rel) (pg_conn (sink_state st')) Map.empty =
      [[SqlInt4 1] \<mapsto> [SqlInt4 1], [SqlInt4 2] \<mapsto> [SqlInt4 2]]"
proof -
  let ?config = "\<lparr>cc_host = ''db'', cc_user = ''u'', cc_password = ''p'', cc_port = 5432\<rparr>"
  have new: "postgres_sink_new (\<lambda>_. Inr []) ?config [7 \<mapsto> counters_rel] = Inr counters_sink"
    by (simp add: postgres_sink_new_def counters_sink_def)
  have order: "delivered (kc_topic sample_config) (events_first (log_messages st)) (concat (b_batches (w_producer st)))" for st
    using delivered_same_order [OF published_delivered [OF published_log_messages] same_order_partition]
    by (simp only: events_first_def)
  have source: "source_apply (\<lambda>_. True) counters_rel (insert_event n) T = T([SqlInt4 (word_of_nat (unat n))] \<mapsto> [SqlInt4 (word_of_nat (unat n))])" for n T
    by (simp add: source_apply_def insert_event_def params_def counters_key)
  have "events_of counters_rel (concat example_items) = [insert_event 1, insert_event 2]"
    by (simp add: example_items_def) (simp add: insert_event_def counters_rel_def)
  then have "fold (source_apply (\<lambda>_. True) counters_rel) (events_of counters_rel (concat example_items)) Map.empty =
      [[SqlInt4 1] \<mapsto> [SqlInt4 1], [SqlInt4 2] \<mapsto> [SqlInt4 2]]"
    by (simp add: source)
  then show ?thesis
    using replica_follows_source [OF avro_spec.avro_codec_axioms example_contents stored.sql_table_axioms
        counters_plain example_replicable new, of sample_config "[]" Map.empty] order by auto
qed

text \<open>
  C6: delivery is at least once, and that is enough.  A connector that stops after it has replayed events
  and before their offsets are committed reads them again when it restarts: the last changes of a table
  run twice.  Its rows are the same after the second run as after the first.
\<close>

theorem redelivery_is_harmless:
  assumes "avro_codec lib" and "sql_table effect rows rel" and "plain_table rel"
    and "replicable_items chrono_range rels rel is" and "replicable_items chrono_range rels rel again"
    and "events_of rel is = earlier @ events_of rel again"
    and "postgres_sink_new (\<lambda>_. Inr []) pg_config rels = Inr self"
    and "delivered (kc_topic config) ms (map (item_record (kafka_producer_fields config) (codec_writer lib)) is)"
    and "delivered (kc_topic config) ms' (map (item_record (kafka_producer_fields config) (codec_writer lib)) again)"
  shows "\<exists>st1. consume_from_kafka (codec_reader lib) (kc_topic config) (postgres_sink chrono_range recording_client)
      (map Inr ms) (initial_consuming self) = Some st1 \<and>
    (\<forall>self2. postgres_sink_new (\<lambda>_. Inr (pg_conn (sink_state st1))) pg_config rels = Inr self2 \<longrightarrow>
      (\<exists>st2. consume_from_kafka (codec_reader lib) (kc_topic config) (postgres_sink chrono_range recording_client)
          (map Inr ms') (initial_consuming self2) = Some st2 \<and>
        rows (fold effect (pg_conn (sink_state st2)) d) = rows (fold effect (pg_conn (sink_state st1)) d)))"
proof -
  let ?apply = "fold (source_apply chrono_range rel)"
  obtain st1 where st1: "consume_from_kafka (codec_reader lib) (kc_topic config)
      (postgres_sink chrono_range recording_client) (map Inr ms) (initial_consuming self) = Some st1"
    "rows (fold effect (pg_conn (sink_state st1)) d) = ?apply (events_of rel is) (rows d)"
    using interleaving_rows [OF assms(1-4,7,8), of d] by auto
  have twice: "?apply (events_of rel again) (?apply (events_of rel again) T) = ?apply (events_of rel again) T" for T
    by (simp add: fold_source_apply replicable_events [OF assms(5)] fold_assign_twice)
  show ?thesis
    using st1 interleaving_rows [OF assms(1-3,5) _ assms(9), of "pg_conn (sink_state st1)" pg_config _ d]
    by (intro exI [of _ st1]) (auto simp: assms(6) twice)
qed

definition messages_of :: "FutureRecord list \<Rightarrow> message list" where
  "messages_of rs =
     map (\<lambda>r. \<lparr>m_topic = fr_topic r, m_partition = 0, m_offset = 0, m_payload = Some (fr_payload r)\<rparr>) rs"

lemma delivered_messages_of: "delivered t (messages_of rs) rs"
  by (simp add: delivered_def messages_of_def carried_in_order carries_def list_all2_map1 list_all2_same)

theorem redelivery_is_harmless_witness:
  "\<exists>st1 st2. consume_from_kafka (codec_reader avro_binary) (kc_topic sample_config) (postgres_sink (\<lambda>_. True) recording_client)
      (map Inr (messages_of (map (item_record (kafka_producer_fields sample_config) (codec_writer avro_binary))
        (concat example_items)))) (initial_consuming counters_sink) = Some st1 \<and>
    consume_from_kafka (codec_reader avro_binary) (kc_topic sample_config) (postgres_sink (\<lambda>_. True) recording_client)
      (map Inr (messages_of (map (item_record (kafka_producer_fields sample_config) (codec_writer avro_binary))
        [EventItem counters_rel (insert_event 2)])))
      (initial_consuming (counters_sink\<lparr>pg_conn := pg_conn (sink_state st1)\<rparr>)) = Some st2 \<and>
    fold (table_effect counters_rel) (pg_conn (sink_state st2)) Map.empty =
      fold (table_effect counters_rel) (pg_conn (sink_state st1)) Map.empty"
proof -
  let ?config = "\<lparr>cc_host = ''db'', cc_user = ''u'', cc_password = ''p'', cc_port = 5432\<rparr>"
  have new: "postgres_sink_new (\<lambda>_. Inr log) ?config [7 \<mapsto> counters_rel] = Inr (counters_sink\<lparr>pg_conn := log\<rparr>)" for log
    by (simp add: postgres_sink_new_def counters_sink_def)
  have start: "counters_sink\<lparr>pg_conn := []\<rparr> = counters_sink" by (simp add: counters_sink_def)
  have again: "replicable_items (\<lambda>_. True) [7 \<mapsto> counters_rel] counters_rel [EventItem counters_rel (insert_event 2)]"
    by (rule replicable_items_subset [OF example_replicable]) (simp add: example_items_def)
  have "ev_rel (insert_event n) = relation_oid counters_rel" for n by (simp add: insert_event_def counters_rel_def)
  then have events: "events_of counters_rel (concat example_items) =
      [insert_event 1] @ events_of counters_rel [EventItem counters_rel (insert_event 2)]"
    by (simp add: example_items_def)
  from redelivery_is_harmless [OF avro_spec.avro_codec_axioms stored.sql_table_axioms counters_plain
      example_replicable again events new [of "[]"] delivered_messages_of delivered_messages_of,
      of sample_config Map.empty] new
  show ?thesis unfolding start by blast
qed

lemma encode_params_not_toasted: "encode_params chrono_range vs = Ok ps \<Longrightarrow> Toasted \<notin> set vs"
  by (induction vs arbitrary: ps) (auto simp: outcome_inv)

lemma filled_id: "Toasted \<notin> set r \<Longrightarrow> filled olds r = r"
  by (rule nth_equalityI) (auto simp: filled_def in_set_conv_nth)

text \<open>
  C38: an update that changes the key leaves the old row behind.  For a relation whose old rows are sent
  (replica identity FULL), the sink runs one statement, the upsert of the new row: after it the target's
  table has the new row under the new key, and under every other key, the old one included, what it had
  before, while the source's table has the new row and no row with the old key any more.
\<close>

theorem key_change_leaves_old_row:
  assumes "sql_table effect rows rel" and "plain_table rel" and "replica_id rel = Row"
    and "up_to_date recording_client self" and "relation_cache self = RelationCache_from_rels rels"
    and "rels (relation_oid rel) = Some rel" and "ev = \<lparr>ev_op = Update olds r, ev_rel = relation_oid rel\<rparr>"
    and "storable chrono_range rel olds" and "storable chrono_range rel r" and "olds \<noteq> []"
    and "row_key rel (params chrono_range olds) \<noteq> row_key rel (params chrono_range r)"
  shows "\<exists>self'. pg_on_event chrono_range recording_client ev self = (Ok (), self') \<and>
    pg_conn self' = pg_conn self @ [(upsert_text rel, params chrono_range r)] \<and>
    rows (fold effect (pg_conn self') d) =
      (rows (fold effect (pg_conn self) d))(row_key rel (params chrono_range r) \<mapsto> params chrono_range r) \<and>
    source_apply chrono_range rel ev T (row_key rel (params chrono_range olds)) = None \<and>
    source_apply chrono_range rel ev T (row_key rel (params chrono_range r)) = Some (params chrono_range r)"
proof -
  obtain ps where ps: "encode_params chrono_range r = Ok ps" using assms(9) by (auto simp: storable_def)
  note plain = encode_params_not_toasted [OF ps]
  have "rels (ev_rel ev) = Some rel" using assms(6,7) by simp
  from event_statement_loaded [of rels ev rel, OF this]
  have s: "event_statement (relation_cache self) ev = Some (upsert_text rel, r)"
    using plain by (auto simp: assms(5,7) filled_id) (metis nth_mem)
  obtain self' where run: "pg_on_event chrono_range recording_client ev self = (Ok (), self')"
    "pg_conn self' = pg_conn self @ [(upsert_text rel, ps)]"
    using pg_on_event_recording [OF assms(4) s ps] by auto
  have p: "params chrono_range r = ps" "length ps = length (r_fields rel)" "SqlNull \<notin> set (row_key rel ps)"
    using assms(9) encode_params_length [OF ps] ps by (auto simp: storable_def params_def)
  have "source_apply chrono_range rel ev T (row_key rel (params chrono_range olds)) = None"
    "source_apply chrono_range rel ev T (row_key rel (params chrono_range r)) = Some (params chrono_range r)"
    using assms(3,10,11) by (simp_all add: source_apply_def assms(7) old_key_def Let_def filled_id [OF plain])
  then show ?thesis
    using run sql_table.upsert [OF assms(1,2) p(2,3)] by (simp add: p(1))
qed

text \<open>A table whose whole old rows are sent.\<close>

definition full_counters_rel :: Relation where
  "full_counters_rel = counters_rel\<lparr>replica_id := Row\<rparr>"

theorem key_change_leaves_old_row_witness:
  "\<exists>self'. pg_on_event (\<lambda>_. True) recording_client \<lparr>ev_op = Update [Int4 1] [Int4 2], ev_rel = 7\<rparr>
      \<lparr>pg_conn = [(upsert_text full_counters_rel, [SqlInt4 1])], upsert_stmt_cache = Map.empty,
       delete_stmt_cache = Map.empty, relation_cache = RelationCache_from_rels [7 \<mapsto> full_counters_rel]\<rparr> =
      (Ok (), self') \<and>
    fold (table_effect full_counters_rel) (pg_conn self') Map.empty =
      [[SqlInt4 1] \<mapsto> [SqlInt4 1], [SqlInt4 2] \<mapsto> [SqlInt4 2]] \<and>
    source_apply (\<lambda>_. True) full_counters_rel \<lparr>ev_op = Update [Int4 1] [Int4 2], ev_rel = 7\<rparr>
      [[SqlInt4 1] \<mapsto> [SqlInt4 1]] [SqlInt4 1] = None"
proof -
  let ?rel = full_counters_rel and ?log = "[(upsert_text full_counters_rel, [SqlInt4 1])]"
  let ?self = "\<lparr>pg_conn = ?log, upsert_stmt_cache = Map.empty, delete_stmt_cache = Map.empty,
       relation_cache = RelationCache_from_rels [7 \<mapsto> ?rel]\<rparr>"
  have f: "r_fields ?rel = r_fields counters_rel" "relation_oid ?rel = 7" "replica_id ?rel = Row"
    by (simp_all add: full_counters_rel_def counters_rel_def)
  have plain: "plain_table ?rel"
    using counters_plain by (simp add: plain_table_def f extract_fields_names_def extract_keys_rel_def)
  have key: "row_key ?rel [p] = [p]" for p using counters_key by (simp add: row_key_def f)
  have sto: "storable (\<lambda>_. True) ?rel [Int4 n]" for n
    by (simp add: storable_def params_def key f) (simp add: counters_rel_def)
  have up: "up_to_date recording_client ?self" by (simp add: up_to_date_def)
  have known: "[7 \<mapsto> ?rel] (relation_oid ?rel) = Some ?rel" by (simp add: f(2))
  have diff: "row_key ?rel (params (\<lambda>_. True) [Int4 1]) \<noteq> row_key ?rel (params (\<lambda>_. True) [Int4 2])"
    by (simp add: params_def key)
  have "fold (table_effect ?rel) ?log Map.empty = [[SqlInt4 1] \<mapsto> [SqlInt4 1]]"
    by (simp add: table_effect_def key)
  moreover have ev: "\<lparr>ev_op = Update [Int4 1] [Int4 2], ev_rel = 7\<rparr> =
      \<lparr>ev_op = Update [Int4 1] [Int4 2], ev_rel = relation_oid ?rel\<rparr>" by (simp add: f(2))
  have cache: "relation_cache ?self = RelationCache_from_rels [7 \<mapsto> ?rel]" by simp
  have ne: "[Int4 1] \<noteq> []" by simp
  note left = key_change_leaves_old_row [OF stored.sql_table_axioms plain f(3) up cache known ev sto sto ne diff]
  ultimately show ?thesis
    using left [of Map.empty "[[SqlInt4 1] \<mapsto> [SqlInt4 1]]"] by (simp add: params_def key) blast
qed

end
