(* ===== verification/Users_Pipeline.thy ===== *)
theory Users_Pipeline imports Test_Infra Table_Replica Connector_Main begin

text \<open>
  What the two programs make of the table \<open>users\<close> of the end-to-end tests: its messages as the server sends
  them, the records the producer publishes for its changes, what the connector replays of them, and the
  configurations the programs load from the environments in which the harness starts them.
\<close>

subsection \<open>The table of the tests\<close>

text \<open>
  The table \<open>users\<close> of \<open>scripts/init-source.sql\<close> as the server announces it, and the changes of its rows
  as it sends them; the last three columns are not set by the tests.
\<close>

definition users_columns :: "wire_column list" where
  "users_columns =
     [\<lparr>wc_flag = 1, wc_name = bytes_of_str ''id'', wc_oid = 23, wc_mod = 0\<rparr>,
      \<lparr>wc_flag = 0, wc_name = bytes_of_str ''name'', wc_oid = 25, wc_mod = 0\<rparr>,
      \<lparr>wc_flag = 0, wc_name = bytes_of_str ''email'', wc_oid = 25, wc_mod = 0\<rparr>,
      \<lparr>wc_flag = 0, wc_name = bytes_of_str ''active'', wc_oid = 16, wc_mod = 0\<rparr>,
      \<lparr>wc_flag = 0, wc_name = bytes_of_str ''score'', wc_oid = 20, wc_mod = 0\<rparr>,
      \<lparr>wc_flag = 0, wc_name = bytes_of_str ''created_at'', wc_oid = 1114, wc_mod = 0\<rparr>]"

definition users_message :: "byte list" where
  "users_message = enc_relation 16385 (bytes_of_str ''public'') (bytes_of_str ''users'') b_d users_columns"

definition users_fields :: "Field list" where
  "users_fields =
     [\<lparr>f_is_key = True, f_name = ''id'', f_kind = FK_Int4\<rparr>,
      \<lparr>f_is_key = False, f_name = ''name'', f_kind = FK_Text\<rparr>,
      \<lparr>f_is_key = False, f_name = ''email'', f_kind = FK_Text\<rparr>,
      \<lparr>f_is_key = False, f_name = ''active'', f_kind = FK_Bool\<rparr>,
      \<lparr>f_is_key = False, f_name = ''score'', f_kind = FK_Int8\<rparr>,
      \<lparr>f_is_key = False, f_name = ''created_at'', f_kind = FK_Timestamp\<rparr>]"

definition users_rel :: Relation where
  "users_rel =
     \<lparr>relation_oid = 16385, r_name = ''users'', r_namespace = ''public'', r_fields = users_fields, replica_id = Keys\<rparr>"

definition users_rel_data :: RelationData where
  "users_rel_data =
     \<lparr>inner = users_rel, key_fields = [\<lparr>kf_name = ''id'', kf_kind = FK_Int4\<rparr>], key_indexes = [0]\<rparr>"

definition users_map :: relation_map where
  "users_map = [16385 \<mapsto> users_rel_data]"

lemma users_known: "users_map 16385 = Some users_rel_data"
  by (simp add: users_map_def)

datatype user_change =
    Inserted i32 string string
  | Updated i32 string string
  | Deleted i32

definition user_row :: "i32 \<Rightarrow> string \<Rightarrow> string \<Rightarrow> wire_value list" where
  "user_row i name email =
     [WBinary (to_be_bytes i), WBinary (bytes_of_str name), WBinary (bytes_of_str email), WNull, WNull, WNull]"

fun change_message :: "user_change \<Rightarrow> byte list" where
  "change_message (Inserted i name email) = enc_insert 16385 (user_row i name email)"
| "change_message (Updated i name email) = enc_update 16385 None (user_row i name email)"
| "change_message (Deleted i) = enc_delete 16385 b_K [WBinary (to_be_bytes i), WNull, WNull, WNull, WNull, WNull]"

fun change_event :: "user_change \<Rightarrow> ChangeEvent" where
  "change_event (Inserted i name email) =
     \<lparr>ev_op = Insert [Int4 i, Text name, Text email, Null, Null, Null], ev_rel = 16385\<rparr>"
| "change_event (Updated i name email) =
     \<lparr>ev_op = Update [] [Int4 i, Text name, Text email, Null, Null, Null], ev_rel = 16385\<rparr>"
| "change_event (Deleted i) = \<lparr>ev_op = Delete [Int4 i], ev_rel = 16385\<rparr>"

fun sendable :: "user_change \<Rightarrow> bool" where
  "sendable (Inserted i name email) \<longleftrightarrow>
     list_all (\<lambda>c. of_char c < (128 :: nat)) (name @ email) \<and> length name < 2 ^ 32 \<and> length email < 2 ^ 32"
| "sendable (Updated i name email) \<longleftrightarrow>
     list_all (\<lambda>c. of_char c < (128 :: nat)) (name @ email) \<and> length name < 2 ^ 32 \<and> length email < 2 ^ 32"
| "sendable (Deleted i) \<longleftrightarrow> True"

lemma users_names: "s \<in> {''public'', ''users'', ''id'', ''name'', ''email'', ''active'', ''score'', ''created_at''} \<Longrightarrow>
    name_ok x86_platform (bytes_of_str s)"
  by (auto simp: name_ok_def) (auto simp: bytes_of_str_def byte_of_char_def)

lemma users_parse: "relation_parse x86_platform users_message = Ok users_rel_data"
proof -
  have f: "fields_of users_columns = users_fields"
    by (simp add: users_columns_def users_fields_def fields_of_def physical_def field_of_def kind_of_oid_def
        kind_from_oid_mod_def)
  have "\<forall>c\<in>set users_columns. column_ok x86_platform c"
    by (auto simp: users_columns_def column_ok_def physical_def users_names)
  then show ?thesis
    using x86.relation_roundtrip [of "bytes_of_str ''public''" "bytes_of_str ''users''" b_d Keys
        users_columns 16385 "[]"] users_names f
    by (simp add: users_message_def users_rel_data_def users_rel_def replica_of_byte_def
        users_columns_def [THEN arg_cong [where f = length]] users_fields_def keys_of_def indexes_of_def
        List.map_filter_simps)
qed

lemma users_wf: "wf_relation_map x86_platform users_map"
  using x86.relation_parse_wf [OF users_parse]
  by (simp add: wf_relation_map_def users_map_def) (simp add: users_rel_data_def users_rel_def)

lemma users_kinds: "kinds users_rel_data = [FK_Int4, FK_Text, FK_Text, FK_Bool, FK_Int8, FK_Timestamp]"
  by (simp add: kinds_def users_rel_data_def users_rel_def users_fields_def)

lemma user_row_decodes:
  assumes "list_all (\<lambda>c. of_char c < (128 :: nat)) (name @ email)" and "length name < 2 ^ 32" and "length email < 2 ^ 32"
  shows "row_ok x86_platform upd (kinds users_rel_data) (user_row i name email)"
    and "row_of (kinds users_rel_data) (user_row i name email) = [Int4 i, Text name, Text email, Null, Null, Null]"
  using assms by (simp_all add: row_ok_def users_kinds user_row_def row_of_def less_Suc_eq nth_Cons' all_conj_distrib)

lemma users_delete_parse:
  "delete_parse x86_platform (change_message (Deleted i)) users_map =
     Ok (change_event (Deleted i), users_rel_data)"
proof -
  let ?ws = "[WBinary (to_be_bytes i), WNull, WNull, WNull, WNull, WNull]"
  have "keys_ok x86_platform users_rel_data ?ws"
    by (simp add: keys_ok_def key_tuple_ok_def users_rel_data_def users_rel_def users_fields_def nth_Cons')
  moreover have "key_values users_rel_data ?ws = [Int4 i]"
    by (simp add: key_values_def key_row_def users_rel_data_def)
  ultimately show ?thesis
    using delete_parse_keys_take [of users_map 16385 users_rel_data x86_platform ?ws, OF users_known] by (simp add: users_rel_data_def)
qed

lemma user_change_items:
  assumes "sendable c"
  shows "message_items x86_platform users_map (change_message c) =
    Some ([EventItem users_rel (change_event c)], users_map)"
proof -
  have i: "inner users_rel_data = users_rel" by (simp add: users_rel_data_def)
  show ?thesis
  proof (cases c)
    case (Inserted k name email)
    have tag: "\<exists>r. change_message c = b_I # r" by (simp add: Inserted enc_insert_def)
    have "insert_parse x86_platform (change_message c) users_map = Ok (change_event c, users_rel_data)"
      using insert_parse_enc [of x86_platform users_map 16385 users_rel_data, OF users_wf users_known user_row_decodes(1)] user_row_decodes(2) assms
      by (simp add: Inserted)
    then show ?thesis using tag by (auto simp: message_items_def row_items_def i)
  next
    case (Updated k name email)
    have tag: "\<exists>r. change_message c = b_U # r" by (simp add: Updated enc_update_def)
    have "update_parse x86_platform (change_message c) users_map = Ok (change_event c, users_rel_data)"
      using update_parse_no_old [of x86_platform users_map 16385 users_rel_data, OF users_wf users_known user_row_decodes(1)] user_row_decodes(2) assms
      by (simp add: Updated)
    then show ?thesis using tag by (auto simp: message_items_def row_items_def i)
  next
    case (Deleted k)
    have tag: "\<exists>r. change_message c = b_D # r" by (simp add: Deleted enc_delete_def)
    then show ?thesis using users_delete_parse [of k] by (auto simp: Deleted message_items_def row_items_def i)
  qed
qed

lemma users_message_items:
  "message_items x86_platform rels users_message = Some ([RelationItem users_rel], rels(16385 \<mapsto> users_rel_data))"
proof -
  have i: "inner users_rel_data = users_rel" "relation_oid users_rel = 16385"
    by (simp_all add: users_rel_data_def users_rel_def)
  obtain r where r: "users_message = b_R # r" by (simp add: users_message_def enc_relation_def)
  show ?thesis using users_parse by (simp add: message_items_def r i)
qed

subsection \<open>What the server sends\<close>

text \<open>The \<open>k\<close>-th transaction of the log ends at the LSN \<open>100 k + 8\<close>.\<close>

definition end_lsn :: "nat \<Rightarrow> u64" where
  "end_lsn k = word_of_nat (100 * k + 8)"

definition numbered_transaction :: "nat \<Rightarrow> byte list list \<Rightarrow> transaction" where
  "numbered_transaction k ms =
     \<lparr>tx_xid = word_of_nat k, tx_time = 0, tx_messages = map (Pair (word_of_nat (100 * k))) ms,
      tx_lsn = word_of_nat (100 * k), tx_end_lsn = end_lsn k\<rparr>"

fun later_transactions :: "nat \<Rightarrow> user_change list list \<Rightarrow> transaction list" where
  "later_transactions k [] = []"
| "later_transactions k (cs # css) = numbered_transaction k (map change_message cs) # later_transactions (k + 1) css"

text \<open>A session announces the table before its first change.\<close>

fun session_stream :: "nat \<Rightarrow> user_change list list \<Rightarrow> transaction list" where
  "session_stream k [] = []"
| "session_stream k (cs # css) =
     numbered_transaction k (users_message # map change_message cs) # later_transactions (k + 1) css"

text \<open>The server streams the transactions that end after the LSN it is asked for.\<close>

definition stream_after :: "u64 \<Rightarrow> user_change list list \<Rightarrow> transaction list" where
  "stream_after lsn css =
     (let n = length (takeWhile (\<lambda>k. end_lsn k \<le> lsn) [1..<length css + 1]) in session_stream (n + 1) (drop n css))"

lemma stream_after_0: "stream_after 0 css = session_stream 1 css"
proof -
  have "takeWhile (\<lambda>k. end_lsn k \<le> 0) [1..<length css + 1] = []"
    by (cases css) (simp_all add: upt_rec end_lsn_def)
  then show ?thesis by (simp add: stream_after_def)
qed

abbreviation change_item :: "user_change \<Rightarrow> item" where
  "change_item c \<equiv> EventItem users_rel (change_event c)"

fun user_items :: "user_change list list \<Rightarrow> item list list" where
  "user_items [] = []"
| "user_items (cs # css) = (RelationItem users_rel # map change_item cs) # map (map change_item) css"

lemma change_messages_items:
  "\<forall>c\<in>set cs. sendable c \<Longrightarrow>
   tx_items x86_platform users_map (map change_message cs) = Some (map change_item cs, users_map)"
  by (induction cs) (simp_all add: user_change_items)

lemma numbered_contents:
  "tx_contents P rels (numbered_transaction k ms) = tx_items P rels ms"
  by (simp add: tx_contents_def numbered_transaction_def comp_def)

lemma later_contents:
  "\<forall>cs\<in>set css. \<forall>c\<in>set cs. sendable c \<Longrightarrow>
   stream_contents x86_platform users_map (later_transactions k css) = Some (map (map change_item) css, users_map)"
  by (induction css arbitrary: k) (simp_all add: numbered_contents change_messages_items)

lemma session_contents:
  assumes "\<forall>cs\<in>set css. \<forall>c\<in>set cs. sendable c"
  shows "\<exists>rels. stream_contents x86_platform Map.empty (session_stream k css) = Some (user_items css, rels)"
proof (cases css)
  case (Cons cs css')
  have "tx_items x86_platform Map.empty (users_message # map change_message cs) =
      Some (RelationItem users_rel # map change_item cs, users_map)"
    using change_messages_items [of cs] assms Cons by (simp add: users_message_items users_map_def)
  then show ?thesis
    using later_contents [of css'] assms Cons by (simp add: numbered_contents del: tx_items.simps)
qed simp

lemma later_lsns: "map tx_end_lsn (later_transactions k css) = map end_lsn [k..<k + length css]"
  by (induction css arbitrary: k) (simp_all add: numbered_transaction_def upt_conv_Cons del: upt_Suc)

lemma session_lsns: "map tx_end_lsn (session_stream k css) = map end_lsn [k..<k + length css]"
  by (cases css) (simp_all add: later_lsns numbered_transaction_def upt_conv_Cons del: upt_Suc)

subsection \<open>What the producer publishes\<close>

definition test_config :: KafkaConfig where
  "test_config = \<lparr>kc_brokers = ''localhost:9092'', kc_topic = ''example-topic'', kc_key = ''default''\<rparr>"

definition user_batches :: "user_change list list \<Rightarrow> FutureRecord list list" where
  "user_batches css =
     map2 (tx_batch (kafka_producer_fields test_config) (codec_writer avro_binary))
       (map end_lsn [1..<length css + 1]) (user_items css)"

lemma length_user_items [simp]: "length (user_items css) = length css"
  by (cases css) simp_all

lemma users_published:
  assumes "\<forall>cs\<in>set css. \<forall>c\<in>set cs. sendable c"
  shows "\<exists>st. wal_loop x86_platform
      (kafka_producer (kafka_producer_fields test_config) (codec_writer avro_binary) (broker_client False))
      (initial_wal (empty_broker [])) (map Event (concat (map tx_events (session_stream 1 css))) @ [Closed]) = (st, Finished) \<and>
    b_batches (w_producer st) = user_batches css"
proof -
  obtain rels where contents: "stream_contents x86_platform Map.empty (session_stream 1 css) = Some (user_items css, rels)"
    using session_contents [OF assms] by blast
  have enc: "\<forall>is\<in>set (user_items css). \<forall>i\<in>set is. encodable (codec_writer avro_binary) i"
    using codec_decodes [OF avro_spec.avro_codec_axioms] decodes_encodable by blast
  from steady_run [OF contents enc, of "kafka_producer_fields test_config" "[]"] show ?thesis
    using session_lsns [of 1 css] by (auto simp: map2_tx_batch user_batches_def)
qed

text \<open>The LSN that is read from what was published.\<close>

lemma users_lsn:
  "read_lsn (\<lambda>topic. Inr (topic_messages (user_batches css) topic)) test_config =
     Inr (last (0 # map end_lsn [1..<length css + 1]))"
  unfolding user_batches_def by (rule read_lsn_of_batches) (simp del: upt_Suc)

text \<open>The relations topic has the description of the table.\<close>

lemma relation_records:
  assumes "length lsns = length iss"
  shows "filter (\<lambda>r. fr_topic r = relations_topic (kc_topic config))
      (concat (map2 (tx_batch (kafka_producer_fields config) w) lsns iss)) =
    map (item_record (kafka_producer_fields config) w)
      (filter (\<lambda>i. case i of RelationItem rel \<Rightarrow> True | EventItem rel ev \<Rightarrow> False) (concat iss))"
proof -
  let ?mk = "item_record (kafka_producer_fields config) w"
  have topic: "fr_topic (?mk i) = relations_topic (kc_topic config) \<longleftrightarrow>
      (case i of RelationItem rel \<Rightarrow> True | EventItem rel ev \<Rightarrow> False)" for i
    by (cases i) (simp_all add: item_record_topic_eq item_topic_def event_topic_def relations_topic_def)
  have items: "filter (\<lambda>r. fr_topic r = relations_topic (kc_topic config)) (map ?mk is) =
      map ?mk (filter (\<lambda>i. case i of RelationItem rel \<Rightarrow> True | EventItem rel ev \<Rightarrow> False) is)" for "is"
    by (simp add: filter_map comp_def topic)
  have lsn: "fr_topic (lsn_record (kafka_producer_fields config) l) \<noteq> relations_topic (kc_topic config)" for l
    by (simp add: lsn_record_topic lsn_topic_def relations_topic_def)
  show ?thesis using assms by (induction lsns iss rule: list_induct2) (simp_all add: items lsn)
qed

definition users_payload :: "byte list" where
  "users_payload = projr (into_avro_relation (codec_writer avro_binary) users_rel)"

lemma users_payload_decodes: "from_avro_relation (codec_reader avro_binary) users_payload = Inr users_rel"
  using codec_decodes [OF avro_spec.avro_codec_axioms, of "RelationItem users_rel"]
  by (auto simp: decodes_def users_payload_def)

lemma users_announced:
  "topic_messages (user_batches css) (relations_topic ''example-topic'') =
     (if css = [] then [] else [Inr (Some users_payload)])"
proof -
  let ?rels = "filter (\<lambda>i. case i of RelationItem rel \<Rightarrow> True | EventItem rel ev \<Rightarrow> False)"
  have none: "?rels (concat (map (map change_item) css')) = []" for css'
    by (auto simp: filter_empty_conv)
  have "filter (\<lambda>r. fr_topic r = relations_topic ''example-topic'') (concat (user_batches css)) =
      map (item_record (kafka_producer_fields test_config) (codec_writer avro_binary)) (?rels (concat (user_items css)))"
    unfolding user_batches_def by (rule relation_records [of _ _ test_config, unfolded test_config_def, simplified, folded test_config_def]) (simp del: upt_Suc)
  moreover have "?rels (concat (user_items css)) = (if css = [] then [] else [RelationItem users_rel])"
    using none by (cases css) (auto simp: filter_empty_conv)
  ultimately show ?thesis by (simp add: topic_messages_def item_record_def users_payload_def)
qed

subsection \<open>What the connector replays\<close>

text \<open>The parameters of a row, and what a change does to a table.\<close>

definition row_params :: "i32 \<Rightarrow> string \<Rightarrow> string \<Rightarrow> sql_param list" where
  "row_params i name email = [SqlInt4 i, SqlText name, SqlText email, SqlNull, SqlNull, SqlNull]"

fun apply_change :: "user_change \<Rightarrow> table \<Rightarrow> table" where
  "apply_change (Inserted i name email) T = T([SqlInt4 i] \<mapsto> row_params i name email)"
| "apply_change (Updated i name email) T = T([SqlInt4 i] \<mapsto> row_params i name email)"
| "apply_change (Deleted i) T = T([SqlInt4 i] := None)"

lemma users_plain: "plain_table users_rel"
  by (simp add: plain_table_def users_rel_def users_fields_def extract_fields_names_def extract_keys_rel_def
      List.map_filter_simps)

lemma users_key: "row_key users_rel (row_params i name email) = [SqlInt4 i]"
  by (simp add: row_key_def extract_keys_pos_eq users_rel_def users_fields_def row_params_def nths_Cons less_Suc_eq
      nth_Cons')

lemma user_params: "params (\<lambda>_. True) [Int4 i, Text name, Text email, Null, Null, Null] = row_params i name email"
  "params (\<lambda>_. True) [Int4 i] = [SqlInt4 i]"
  by (simp_all add: params_def row_params_def)

lemma users_simps: "replica_id users_rel = Keys" "length (r_fields users_rel) = 6" "extract_keys_rel users_rel = [''id'']"
  "relation_oid users_rel = 16385"
  by (simp_all add: users_rel_def users_fields_def extract_keys_rel_def List.map_filter_simps)

lemma user_row_filled:
  "filled olds [Int4 i, Text name, Text email, Null, Null, Null] = [Int4 i, Text name, Text email, Null, Null, Null]"
  by (rule filled_id) simp

lemma change_replicable: "replicable (\<lambda>_. True) users_rel (change_event c)"
proof (cases c)
  case (Deleted i)
  have "delete_values (extract_key_identity users_rel) [Int4 i] = [Int4 i]"
    by (simp add: extract_key_identity_def users_simps delete_values_def extract_keys_pos_eq)
      (simp add: users_rel_def users_fields_def nths_singleton)
  then show ?thesis
    by (simp add: Deleted replicable_def old_key_def users_simps user_params)
qed (simp_all add: replicable_def storable_def user_params users_key users_simps user_row_filled
    All_less_Suc2)

lemma change_applies: "source_apply (\<lambda>_. True) users_rel (change_event c) = apply_change c"
  by (cases c)
    (simp_all add: fun_eq_iff source_apply_def user_row_filled user_params users_key old_key_def users_simps Let_def)

lemma users_replicable:
  "replicable_items (\<lambda>_. True) [16385 \<mapsto> users_rel] users_rel (concat (user_items css))"
proof -
  have oid: "ev_rel (change_event c) = 16385" for c by (cases c) simp_all
  have items: "i = RelationItem users_rel \<or> (\<exists>c. i = change_item c)" if "i \<in> set (concat (user_items css))" for i
    using that by (cases css) auto
  have known: "[16385 \<mapsto> users_rel] (ev_rel (change_event c)) = Some users_rel" for c by (simp add: oid)
  have stmt: "item_statement (\<lambda>_. True) (RelationCache_from_rels [16385 \<mapsto> users_rel]) (change_item c) \<noteq> None" for c
    using sql_table.statement_effect [where rels = "[16385 \<mapsto> users_rel]",
        OF stored.sql_table_axioms users_plain known change_replicable] by fastforce
  have "[16385 \<mapsto> users_rel] (relation_oid rel') = Some rel'"
    if "RelationItem rel' \<in> set (concat (user_items css))" for rel'
    using items [OF that] users_simps(4) by auto
  moreover have "[16385 \<mapsto> users_rel] (ev_rel ev) = Some rel' \<and>
      item_statement (\<lambda>_. True) (RelationCache_from_rels [16385 \<mapsto> users_rel]) (EventItem rel' ev) \<noteq> None \<and>
      ev_rel ev = relation_oid users_rel \<and> replicable (\<lambda>_. True) users_rel ev"
    if event: "EventItem rel' ev \<in> set (concat (user_items css))" for rel' ev
  proof -
    obtain c where "rel' = users_rel" "ev = change_event c" using items [OF event] by auto
    then show ?thesis using known [of c] stmt [of c] change_replicable [of c] oid [of c] users_simps(4) by simp
  qed
  ultimately show ?thesis
    unfolding replicable_items_def using users_simps(4) by simp (metis option.inject)
qed

lemma user_events: "events_of users_rel (concat (user_items css)) = map change_event (concat css)"
proof -
  have oid: "ev_rel (change_event c) = relation_oid users_rel" for c by (cases c) (simp_all add: users_simps)
  have one: "events_of users_rel (map change_item cs) = map change_event cs" for cs
    by (induction cs) (simp_all add: oid)
  have "events_of users_rel (concat (map (map change_item) css')) = map change_event (concat css')" for css'
    by (induction css') (simp_all add: events_of_append one)
  then show ?thesis by (cases css) (simp_all add: events_of_append one)
qed

text \<open>
  The connector's main over the messages of the relations topic and the records of the other topics, with
  a database that can be reached: the rows of the table after it.
\<close>

lemma users_loaded:
  "load_relations_loop (codec_reader avro_binary) [(0, Inr (Some users_payload))] Map.empty = Inr [16385 \<mapsto> users_rel]"
  by (simp add: users_payload_decodes users_simps)

lemma users_replayed:
  assumes "delivered ''example-topic'' ms (concat (user_batches css))"
  shows "\<exists>st. consume_from_kafka (codec_reader avro_binary) ''example-topic'' (postgres_sink (\<lambda>_. True) recording_client)
      (map Inr ms) (initial_consuming \<lparr>pg_conn = [], upsert_stmt_cache = Map.empty, delete_stmt_cache = Map.empty,
        relation_cache = RelationCache_from_rels [16385 \<mapsto> users_rel]\<rparr>) = Some st \<and>
    fold (table_effect users_rel) (pg_conn (sink_state st)) T = fold apply_change (concat css) T"
proof -
  let ?self = "\<lparr>pg_conn = [], upsert_stmt_cache = Map.empty, delete_stmt_cache = Map.empty,
        relation_cache = RelationCache_from_rels [16385 \<mapsto> users_rel]\<rparr> :: ((string \<times> sql_param list) list, string) PostgresSink"
  have topic: "kc_topic test_config = ''example-topic''" by (simp add: test_config_def)
  have new: "postgres_sink_new (\<lambda>_. Inr []) \<lparr>cc_host = [], cc_user = [], cc_password = [], cc_port = 0\<rparr>
      [16385 \<mapsto> users_rel] = Inr ?self"
    by (simp add: postgres_sink_new_def)
  have "delivered (kc_topic test_config) ms
      (map (item_record (kafka_producer_fields test_config) (codec_writer avro_binary)) (concat (user_items css)))"
    using assms
    by (intro delivered_items [where lsns = "map end_lsn [1..<length css + 1]"]) (simp_all add: user_batches_def topic del: upt_Suc)
  from interleaving_rows [OF avro_spec.avro_codec_axioms stored.sql_table_axioms users_plain users_replicable new this, of T]
  show ?thesis by (auto simp: topic user_events change_applies fold_map comp_def)
qed

subsection \<open>The commands and the configurations\<close>

text \<open>
  The environments of the commands are complete configurations of the two programs under test, for the
  ports and the topic the harness uses; that of the Feldera connector is none, neither for it nor for the
  program it starts.
\<close>

lemma cdc_producer_command_loads:
  "load_producer_config (environment_crate (cmd_env cdc_producer_command)) =
     Some \<lparr>pc_postgres =
             \<lparr>pg_host = ''localhost'', pg_user = ''cdc'', pg_password = ''cdc'', pg_slotname = ''cdc_slot'',
              pg_dbname = ''cdc'', pg_publication = ''cdc_pub'', pg_port = 5400\<rparr>,
           pc_kafka = test_config, pc_metrics = \<lparr>mc_port = 9001\<rparr>, pc_will_connect_to_feldera = False\<rparr>"
proof -
  have "provided ''CDC_PROD'' CHR ''_'' (cmd_env cdc_producer_command) =
     [([''will'', ''connect'', ''to'', ''feldera''], ''false''), ([''postgres'', ''host''], ''localhost''),
      ([''postgres'', ''user''], ''cdc''), ([''postgres'', ''password''], ''cdc''),
      ([''postgres'', ''slotname''], ''cdc_slot''), ([''postgres'', ''dbname''], ''cdc''),
      ([''postgres'', ''publication''], ''cdc_pub''), ([''postgres'', ''port''], ''5400''),
      ([''kafka'', ''brokers''], ''localhost:9092''), ([''kafka'', ''topic''], ''example-topic''),
      ([''kafka'', ''key''], ''default''), ([''postgress'', ''dbname''], ''cdc''), ([''metrics'', ''port''], ''9001'')]"
    by (simp add: cdc_producer_command_def provided_def variable_path_def List.map_filter_simps)
  then show ?thesis
    by (simp add: load_producer_config_def load_settings_def environment_crate_def producer_settings_def
        postgres_settings_def producer_kafka_settings_def producer_metrics_settings_def settings_defs
        env_lookup_def below_def number_of_text_def test_config_def)
qed

lemma postgres_connector_command_loads:
  "load_pg_config (environment_crate (cmd_env postgres_connector_command)) =
     Some \<lparr>pb_kafka = \<lparr>sk_brokers = ''localhost:9092'', sk_topic = ''example-topic'', sk_groupid = ''default''\<rparr>,
           pb_postgres = \<lparr>cc_host = ''127.0.0.1'', cc_user = ''cdc'', cc_password = ''cdc'', cc_port = 5401\<rparr>,
           pb_metrics = 9002\<rparr>"
proof -
  have "provided ''PG_CONN'' CHR ''_'' (cmd_env postgres_connector_command) =
     [([''postgres'', ''host''], ''127.0.0.1''), ([''postgres'', ''user''], ''cdc''),
      ([''postgres'', ''password''], ''cdc''), ([''postgres'', ''port''], ''5401''),
      ([''kafka'', ''brokers''], ''localhost:9092''), ([''kafka'', ''topic''], ''example-topic''),
      ([''kafka'', ''groupid''], ''default''), ([''metrics'', ''port''], ''9002'')]"
    by (simp add: postgres_connector_command_def provided_def variable_path_def List.map_filter_simps)
  then show ?thesis
    by (simp add: load_pg_config_def load_settings_def environment_crate_def pg_bridge_settings_def
        sink_kafka_settings_def connector_postgres_settings_def sink_metrics_settings_def settings_defs
        env_lookup_def below_def number_of_text_def)
qed

lemma feldera_connector_command_loads_nothing:
  "load_feldera_config (environment_crate (cmd_env feldera_connector_command)) = None"
  "load_pg_config (environment_crate (cmd_env feldera_connector_command)) = None"
proof -
  have p: "provided ''FELD_CONN'' CHR ''_'' (cmd_env feldera_connector_command) =
     [([''postgres'', ''host''], ''127.0.0.1''), ([''postgres'', ''user''], ''cdc''),
      ([''postgres'', ''password''], ''cdc''), ([''postgres'', ''port''], ''5401''),
      ([''kafka'', ''brokers''], ''localhost:9092''), ([''kafka'', ''topic''], ''example-topic''),
      ([''kafka'', ''groupid''], ''default''), ([''metrics'', ''port''], ''9002'')]"
    "provided ''PG_CONN'' CHR ''_'' (cmd_env feldera_connector_command) = []"
    by (simp_all add: feldera_connector_command_def provided_def variable_path_def List.map_filter_simps)
  show "load_feldera_config (environment_crate (cmd_env feldera_connector_command)) = None"
    by (simp add: load_feldera_config_def load_settings_def environment_crate_def feldera_bridge_settings_def
        sink_kafka_settings_def feldera_settings_def settings_defs env_lookup_def below_def p)
  show "load_pg_config (environment_crate (cmd_env feldera_connector_command)) = None"
    by (simp add: load_pg_config_def load_settings_def environment_crate_def pg_bridge_settings_def
        settings_defs env_lookup_def p)
qed

end
