(* ===== verification/Test_Host.thy ===== *)
theory Test_Host imports Users_Pipeline begin

text \<open>
  A host for the end-to-end tests.  It has containers with database servers and a broker, builds crates,
  and keeps the programs that were started.  The producer and the connector are the \<open>main\<close> functions of
  this development, run on what they can reach from the environment they were started with: a program
  with a wrong port, user, slot or topic, or one that was not started, moves nothing.  The time the
  pipeline takes and the reading of the SQL texts are parameters.
\<close>

subsection \<open>The database servers\<close>

text \<open>The statements of the tests; \<open>SetEmail email name\<close> is \<open>UPDATE users SET email = .. WHERE name = ..\<close>.\<close>

datatype sql =
    BeginTx
  | CommitTx
  | RollbackTx
  | InsertUser string string
  | SetEmail string string
  | DeleteUser string

text \<open>The rows with a name, by their ids; ids come from a sequence, \<open>nid\<close> is the next one.\<close>

definition ids_named :: "nat \<Rightarrow> table \<Rightarrow> string \<Rightarrow> i32 list" where
  "ids_named nid T name =
     filter (\<lambda>i. case T [SqlInt4 i] of Some r \<Rightarrow> r ! 1 = SqlText name | None \<Rightarrow> False) (map word_of_nat [1..<nid])"

fun changes_of :: "nat \<Rightarrow> table \<Rightarrow> sql \<Rightarrow> user_change list" where
  "changes_of nid T (InsertUser name email) = [Inserted (word_of_nat nid) name email]"
| "changes_of nid T (SetEmail email name) = map (\<lambda>i. Updated i name email) (ids_named nid T name)"
| "changes_of nid T (DeleteUser name) = map Deleted (ids_named nid T name)"
| "changes_of nid T s = []"

text \<open>
  A session: a statement outside of a transaction is one of its own, a rollback restores the table (but
  not the sequence), and what is left open at the end of a text is not committed.  The result is the next
  id, the table and the changes of the transactions that were committed; those without changes do not
  count.
\<close>

fun run_script :: "sql list \<Rightarrow> nat \<Rightarrow> table \<Rightarrow> (table \<times> user_change list) option \<Rightarrow>
    nat \<times> table \<times> user_change list list" where
  "run_script [] nid T tx = (nid, (case tx of None \<Rightarrow> T | Some (T0, cs) \<Rightarrow> T0), [])"
| "run_script (BeginTx # ss) nid T tx = run_script ss nid T (case tx of None \<Rightarrow> Some (T, []) | Some x \<Rightarrow> Some x)"
| "run_script (CommitTx # ss) nid T tx =
     (case tx of
        None \<Rightarrow> run_script ss nid T None
      | Some (T0, cs) \<Rightarrow>
          (let (n, T', done) = run_script ss nid T None in (n, T', if cs = [] then done else cs # done)))"
| "run_script (RollbackTx # ss) nid T tx =
     (case tx of None \<Rightarrow> run_script ss nid T None | Some (T0, cs) \<Rightarrow> run_script ss nid T0 None)"
| "run_script (s # ss) nid T tx =
     (let cs = changes_of nid T s;
          nid' = (case s of InsertUser _ _ \<Rightarrow> nid + 1 | _ \<Rightarrow> nid);
          T' = fold apply_change cs T
      in case tx of
           Some (T0, cs0) \<Rightarrow> run_script ss nid' T' (Some (T0, cs0 @ cs))
         | None \<Rightarrow>
             (let (n, T'', done) = run_script ss nid' T' None in (n, T'', if cs = [] then done else cs # done)))"

text \<open>A row with a name and an email, as the tests ask for it.\<close>

definition has_row :: "table \<Rightarrow> string \<Rightarrow> string \<Rightarrow> bool" where
  "has_row T name email \<longleftrightarrow> (\<exists>k r. T k = Some r \<and> r ! 1 = SqlText name \<and> r ! 2 = SqlText email)"

text \<open>
  A server has one user and one database with the table \<open>users\<close>, replication slots with their publications,
  and, for logical decoding, the transactions it committed and when.
\<close>

record pg_server =
  srv_user :: string
  srv_password :: string
  srv_dbname :: string
  srv_logical :: bool
  srv_slots :: "(string \<times> string) list"
  srv_next :: nat
  srv_table :: table
  srv_commits :: "(nat \<times> user_change list) list"

text \<open>The rows that \<open>scripts/init-source.sql\<close> and \<open>scripts/init-sink.sql\<close> insert.\<close>

definition seed :: "user_change list" where
  "seed =
     [Inserted 1 ''Ada Lovelace'' ''ada@example.com'',
      Inserted 2 ''Grace Hopper'' ''grace@example.com'',
      Inserted 3 ''Alan Turing'' ''alan@example.com'']"

definition init_changes :: "string \<Rightarrow> user_change list" where
  "init_changes path =
     (if path = ''../../scripts/init-source.sql'' then seed
      else if path = ''../../scripts/init-sink.sql'' then [Inserted 1 ''Existing'' ''existing@example.com'']
      else [])"

definition init_slots :: "string \<Rightarrow> (string \<times> string) list" where
  "init_slots path = (if path = ''../../scripts/init-source.sql'' then [(''cdc_slot'', ''cdc_pub'')] else [])"

definition setting :: "container \<Rightarrow> string \<Rightarrow> string" where
  "setting c k = (case map_of (ct_settings c) k of Some v \<Rightarrow> v | None \<Rightarrow> [])"

definition start_server :: "container \<Rightarrow> nat \<Rightarrow> pg_server" where
  "start_server c now =
     (let cs = init_changes (setting c ''init_sql'')
      in \<lparr>srv_user = setting c ''user'', srv_password = setting c ''password'', srv_dbname = setting c ''db_name'',
          srv_logical = (''wal_level=logical'' \<in> set (ct_cmd c)), srv_slots = init_slots (setting c ''init_sql''),
          srv_next = length cs + 1, srv_table = fold apply_change cs Map.empty, srv_commits = [(now, cs)]\<rparr>)"

subsection \<open>The state\<close>

text \<open>A child knows when it was started and what was in Kafka and in the databases then.\<close>

record child =
  ch_id :: nat
  ch_command :: command
  ch_started :: nat
  ch_kafka :: broker
  ch_read :: nat
  ch_servers :: "nat \<rightharpoonup> pg_server"

text \<open>
  Servers are known by their port, and so are the clients connected to them; \<open>sm_read\<close> counts the batches
  of the log whose offsets the connector has committed.
\<close>

record sim =
  sm_now :: nat
  sm_built :: "string list"
  sm_brokers :: "string list"
  sm_servers :: "nat \<rightharpoonup> pg_server"
  sm_kafka :: broker
  sm_read :: nat
  sm_children :: "child list"
  sm_next :: nat

definition sim_start :: sim where
  "sim_start =
     \<lparr>sm_now = 0, sm_built = [], sm_brokers = [], sm_servers = Map.empty, sm_kafka = empty_broker [], sm_read = 0,
      sm_children = [], sm_next = 0\<rparr>"

definition server_at :: "sim \<Rightarrow> string \<Rightarrow> nat \<Rightarrow> string \<Rightarrow> string \<Rightarrow> string \<Rightarrow> pg_server option" where
  "server_at w host port user password dbname =
     (case sm_servers w port of
        None \<Rightarrow> None
      | Some d \<Rightarrow>
          if host \<in> {''localhost'', ''127.0.0.1''} \<and> (srv_user d, srv_password d, srv_dbname d) = (user, password, dbname)
          then Some d else None)"

definition kafka_reached :: "sim \<Rightarrow> (string \<times> string) list \<Rightarrow> bool" where
  "kafka_reached w settings =
     (case map_of settings ''bootstrap.servers'' of None \<Rightarrow> False | Some b \<Rightarrow> b \<in> set (sm_brokers w))"

definition start_in :: "container \<Rightarrow> sim \<Rightarrow> sim" where
  "start_in c w =
     (if ct_image c = ''postgres''
      then (case map_of (map (\<lambda>(h, p). (p, h)) (ct_ports c)) 5432 of
              None \<Rightarrow> w
            | Some port \<Rightarrow> w\<lparr>sm_servers := (sm_servers w)(port \<mapsto> start_server c (sm_now w))\<rparr>)
      else if ct_image c = ''docker.redpanda.com/redpandadata/redpanda''
      then w\<lparr>sm_brokers := map (\<lambda>(h, p). ''localhost:'' @ decimal h) (ct_ports c)\<rparr>
      else w)"

subsection \<open>The programs\<close>

text \<open>What has been committed at least \<open>latency\<close> milliseconds ago.\<close>

definition due :: "nat \<Rightarrow> nat \<Rightarrow> (nat \<times> user_change list) list \<Rightarrow> user_change list list" where
  "due latency now log = map snd (filter (\<lambda>(t, cs). t + latency \<le> now) log)"

definition producer_world :: "nat \<Rightarrow> sim \<Rightarrow> child \<Rightarrow> (unit, string list, broker) world" where
  "producer_world latency w c =
     \<lparr>wo_connect_source = (\<lambda>pc.
        case server_at w (pg_host pc) (unat (pg_port pc)) (pg_user pc) (pg_password pc) (pg_dbname pc) of
          None \<Rightarrow> Inl ''connection refused'' | Some d \<Rightarrow> Inr ()),
      wo_source =
        \<lparr>d_published_tables = (\<lambda>ps u. (Inr (if ps = [''cdc_pub''] then [(''public'', ''users'')] else []), u)),
         d_execute = (\<lambda>s u. (Inr 0, u))\<rparr>,
      wo_connect_admin = (\<lambda>b. if b \<in> set (sm_brokers w) then Inr [] else Inl ''no broker''),
      wo_admin = registry_admin [],
      wo_create_consumer = (\<lambda>settings.
        if kafka_reached w settings then Some (\<lambda>t. Inr (topic_messages (b_batches (ch_kafka c)) t)) else None),
      wo_create_producer = (\<lambda>settings. if kafka_reached w settings then Inr (ch_kafka c) else Inl ''no broker''),
      wo_init_transactions = broker_init, wo_client = broker_client False, wo_codec = codec_writer avro_binary,
      wo_connect_replication = (\<lambda>rc.
        case server_at w (rc_host rc) (unat (rc_port rc)) (rc_user rc) (rc_password rc) (rc_database rc) of
          None \<Rightarrow> Inl ''connection refused''
        | Some d \<Rightarrow>
            if srv_logical d \<and> (rc_slot rc, rc_publication rc) \<in> set (srv_slots d)
            then Inr (map Event (concat (map tx_events
              (stream_after (rc_start_lsn rc) (due latency (sm_now w) (srv_commits d))))) @ [Closed])
            else Inl ''no slot'')\<rparr>"

definition child_of :: "string \<Rightarrow> sim \<Rightarrow> child option" where
  "child_of program w = find (\<lambda>c. cmd_program (ch_command c) = program) (sm_children w)"

text \<open>A program works once it has been up for as long as the pipeline takes.\<close>

definition producer_steps :: "nat \<Rightarrow> sim \<Rightarrow> sim" where
  "producer_steps latency w =
     (case child_of ''../target/debug/cdc-producer'' w of
        None \<Rightarrow> w
      | Some c \<Rightarrow>
          (case load_producer_config (environment_crate (cmd_env (ch_command c))) of
             None \<Rightarrow> w
           | Some config \<Rightarrow>
               if sm_now w < ch_started c + latency then w
               else (case fst (producer_main x86_platform (producer_world latency w c) config) of
                       Streamed st ex \<Rightarrow> w\<lparr>sm_kafka := w_producer st\<rparr>
                     | _ \<Rightarrow> w)))"

definition one_partition :: consumer where
  "one_partition =
     \<lparr>c_fetch_metadata = (\<lambda>t. Inr [[0]]), c_add_partition_offset = (\<lambda>tpl t p. Inr (tpl @ [(t, p)])),
      c_assign = (\<lambda>tpl. Inr ())\<rparr>"

definition connector_world :: "sim \<Rightarrow> child \<Rightarrow> string \<Rightarrow> kafka_world" where
  "connector_world w c topic =
     \<lparr>kw_create = (\<lambda>settings. if kafka_reached w settings then Inr one_partition else Inl ''no broker''),
      kw_relations = map (Pair 0) (topic_messages (b_batches (ch_kafka c)) (relations_topic topic)),
      kw_subscribe = (\<lambda>topics. Inr ()),
      kw_stream = map Inr (filter (\<lambda>m. m_topic m \<noteq> lsn_topic topic)
        (messages_of (concat (drop (ch_read c) (b_batches (sm_kafka w))))))\<rparr>"

definition connector_connect :: "sim \<Rightarrow> ConnectorConfig \<Rightarrow> string \<Rightarrow> string + (string \<times> sql_param list) list" where
  "connector_connect w config s =
     (if s = to_postgres_string config \<and>
        server_at w (cc_host config) (unat (cc_port config)) (cc_user config) (cc_password config) (cc_user config) \<noteq> None
      then Inr [] else Inl ''connection refused'')"

definition connector_steps :: "nat \<Rightarrow> sim \<Rightarrow> sim" where
  "connector_steps latency w =
     (case child_of ''../target/debug/postgres-connector'' w of
        None \<Rightarrow> w
      | Some c \<Rightarrow>
          (case load_pg_config (environment_crate (cmd_env (ch_command c))) of
             None \<Rightarrow> w
           | Some config \<Rightarrow>
               if sm_now w < ch_started c + latency then w
               else (case pg_main (codec_reader avro_binary) (connector_world w c (sk_topic (pb_kafka config)))
                            (connector_connect w (pb_postgres config)) (\<lambda>_. True) recording_client config of
                       None \<Rightarrow> w
                     | Some st \<Rightarrow>
                         (let port = unat (cc_port (pb_postgres config))
                          in case (sm_servers w port, ch_servers c port) of
                               (Some d, Some d0) \<Rightarrow>
                                 w\<lparr>sm_servers := (sm_servers w)(port \<mapsto>
                                     d\<lparr>srv_table := fold (table_effect users_rel) (pg_conn (sink_state st)) (srv_table d0)\<rparr>),
                                   sm_read := length (b_batches (sm_kafka w))\<rparr>
                             | _ \<Rightarrow> w))))"

definition catch_up :: "nat \<Rightarrow> sim \<Rightarrow> sim" where
  "catch_up latency w = connector_steps latency (producer_steps latency w)"

subsection \<open>The host\<close>

definition build_in :: "command \<Rightarrow> sim \<Rightarrow> (string + bool) \<times> sim" where
  "build_in cmd w =
     (case cmd_args cmd of
        [b, f, name] \<Rightarrow>
          if cmd_program cmd = ''cargo'' \<and> b = ''build'' \<and> f = ''--bin''
          then (Inr True, w\<lparr>sm_built := name # sm_built w\<rparr>) else (Inr False, w)
      | _ \<Rightarrow> (Inr False, w))"

definition spawn_in :: "command \<Rightarrow> sim \<Rightarrow> (string + nat) \<times> sim" where
  "spawn_in cmd w =
     (if cmd_program cmd \<in> (\<lambda>name. ''../target/debug/'' @ name) ` set (sm_built w)
      then (Inr (sm_next w),
            w\<lparr>sm_children := sm_children w @
                [\<lparr>ch_id = sm_next w, ch_command = cmd, ch_started = sm_now w, ch_kafka = sm_kafka w, ch_read = sm_read w,
                  ch_servers = sm_servers w\<rparr>],
              sm_next := sm_next w + 1\<rparr>)
      else (Inl ''no such file'', w))"

definition execute_in :: "(string \<Rightarrow> sql list option) \<Rightarrow> nat \<Rightarrow> nat \<Rightarrow> string \<Rightarrow> sim \<Rightarrow> (string + unit) \<times> sim" where
  "execute_in script_of latency client q w =
     (case (script_of q, sm_servers w client) of
        (Some ss, Some d) \<Rightarrow>
          (let (n, T, done) = run_script ss (srv_next d) (srv_table d) None
           in (Inr (), catch_up latency (w\<lparr>sm_servers := (sm_servers w)(client \<mapsto>
                d\<lparr>srv_next := n, srv_table := T, srv_commits := srv_commits d @ map (Pair (sm_now w)) done\<rparr>)\<rparr>)))
      | _ \<Rightarrow> (Inl ''query failed'', w))"

definition query_in :: "(string \<Rightarrow> (string \<times> string) option) \<Rightarrow> nat \<Rightarrow> string \<Rightarrow> sim \<Rightarrow> (string + bool) \<times> sim" where
  "query_in query_of client q w =
     (case (query_of q, sm_servers w client) of
        (Some (name, email), Some d) \<Rightarrow> (Inr (has_row (srv_table d) name email), w)
      | _ \<Rightarrow> (Inl ''query failed'', w))"

definition simulated_host :: "(string \<Rightarrow> sql list option) \<Rightarrow> (string \<Rightarrow> (string \<times> string) option) \<Rightarrow> nat \<Rightarrow> sim host" where
  "simulated_host script_of query_of latency =
     \<lparr>ho_now = sm_now,
      ho_sleep = (\<lambda>d w. catch_up latency (w\<lparr>sm_now := sm_now w + d\<rparr>)),
      ho_status = build_in,
      ho_spawn = spawn_in,
      ho_kill = (\<lambda>child w. (Inr (), w\<lparr>sm_children := filter (\<lambda>c. ch_id c \<noteq> child) (sm_children w)\<rparr>)),
      ho_stdout = (\<lambda>child w. []),
      ho_stderr = (\<lambda>child w. []),
      ho_start = (\<lambda>c w. (Inr (decimal (fst (hd (ct_ports c)))), start_in c w)),
      ho_stop = (\<lambda>i w. (Inr (), w)),
      ho_connect = (\<lambda>a w.
        case server_at w (da_host a) (da_port a) (da_user a) (da_password a) (da_dbname a) of
          None \<Rightarrow> (Inl ''connection refused'', w) | Some d \<Rightarrow> (Inr (da_port a), w)),
      ho_query_opt = query_in query_of,
      ho_batch_execute = execute_in script_of latency,
      ho_consumer = (\<lambda>settings w.
        if kafka_reached w settings then Some (\<lambda>t. Inr (topic_messages (b_batches (sm_kafka w)) t)) else None),
      ho_get = (\<lambda>url w. (Inl ''no metrics'', w))\<rparr>"

text \<open>Catching up takes no time and starts and ends no process.\<close>

lemma catch_up_keeps [simp]:
  "sm_now (catch_up latency w) = sm_now w" "sm_children (catch_up latency w) = sm_children w"
  "sm_next (catch_up latency w) = sm_next w" "sm_brokers (catch_up latency w) = sm_brokers w"
  "sm_built (catch_up latency w) = sm_built w"
proof -
  have p: "sm_now (producer_steps latency w) = sm_now w \<and> sm_children (producer_steps latency w) = sm_children w \<and>
      sm_next (producer_steps latency w) = sm_next w \<and> sm_brokers (producer_steps latency w) = sm_brokers w \<and>
      sm_built (producer_steps latency w) = sm_built w"
    unfolding producer_steps_def by (auto split: option.split main_exit.split)
  have c: "sm_now (connector_steps latency v) = sm_now v \<and> sm_children (connector_steps latency v) = sm_children v \<and>
      sm_next (connector_steps latency v) = sm_next v \<and> sm_brokers (connector_steps latency v) = sm_brokers v \<and>
      sm_built (connector_steps latency v) = sm_built v" for v
    unfolding connector_steps_def Let_def by (auto split: option.split)
  show "sm_now (catch_up latency w) = sm_now w" "sm_children (catch_up latency w) = sm_children w"
    "sm_next (catch_up latency w) = sm_next w" "sm_brokers (catch_up latency w) = sm_brokers w"
    "sm_built (catch_up latency w) = sm_built w"
    using p c by (simp_all add: catch_up_def)
qed

text \<open>The host keeps the contracts of a clock and of a host of processes.\<close>

definition sim_live :: "sim \<Rightarrow> nat set" where
  "sim_live w = ch_id ` set (sm_children w)"

lemma sim_live_simps [simp]:
  "sim_live (catch_up latency w) = sim_live w" "sim_live (w\<lparr>sm_now := t\<rparr>) = sim_live w"
  "sim_live (w\<lparr>sm_servers := ds\<rparr>) = sim_live w" "sim_live (w\<lparr>sm_built := bs\<rparr>) = sim_live w"
  "sim_live (w\<lparr>sm_brokers := bs\<rparr>) = sim_live w" "sim_live (start_in c w) = sim_live w"
  "sm_next (start_in c w) = sm_next w"
  by (simp_all add: sim_live_def start_in_def split: option.split)

interpretation simulated: host_clock "simulated_host script_of query_of latency" for script_of query_of latency
  by unfold_locales (simp_all add: simulated_host_def query_in_def split: option.split)

interpretation simulated_processes: process_host "simulated_host script_of query_of latency" sim_live "\<lambda>w. {..<sm_next w}"
  for script_of query_of latency
proof
  fix cmd :: command and w w' child
  assume "ho_spawn (simulated_host script_of query_of latency) cmd w = (Inr child, w')"
  then show "child \<notin> {..<sm_next w} \<and> sim_live w' = insert child (sim_live w) \<and> {..<sm_next w'} = insert child {..<sm_next w}"
    by (auto simp: simulated_host_def spawn_in_def sim_live_def lessThan_Suc split: if_splits)
next
  fix cmd :: command and w w' e
  assume "ho_spawn (simulated_host script_of query_of latency) cmd w = (Inl e, w')"
  then show "sim_live w' = sim_live w \<and> {..<sm_next w'} = {..<sm_next w}"
    by (auto simp: simulated_host_def spawn_in_def split: if_splits)
next
  fix child w
  show "\<exists>w'. ho_kill (simulated_host script_of query_of latency) child w = (Inr (), w') \<and>
      sim_live w' = sim_live w - {child} \<and> {..<sm_next w'} = {..<sm_next w}"
    by (auto simp: simulated_host_def sim_live_def)
qed (auto simp: simulated_host_def build_in_def query_in_def execute_in_def Let_def
    split: list.splits if_splits option.splits prod.splits)

end
