(* ===== verification/Host_Runs.thy ===== *)
theory Host_Runs imports Test_Host begin

text \<open>
  Runs on the simulated host: what its programs do as time passes, the set-up of the infrastructure, and
  what the harness then sees of the sink database.
\<close>

subsection \<open>The programs at work\<close>

text \<open>The producer the harness starts, from an empty log: its batches are those of all that is due.\<close>

lemma client_settings_reach: "kafka_reached w (client_settings test_config) \<longleftrightarrow> ''localhost:9092'' \<in> set (sm_brokers w)"
  by (simp add: kafka_reached_def client_settings_def test_config_def)

lemma lsn_settings_reach: "kafka_reached w (lsn_consumer_settings test_config) \<longleftrightarrow> ''localhost:9092'' \<in> set (sm_brokers w)"
  by (simp add: kafka_reached_def lsn_consumer_settings_def test_config_def)

lemma users_topics: "\<exists>a. check_topics (registry_admin []) test_config [\<lparr>db_name = ''users'', db_namespace = ''public''\<rparr>] [] = (Inr (), a)"
  by (simp add: check_topics_def ensure_topic_def registry_admin_def test_config_def lsn_topic_def relations_topic_def
      event_topic_def)

lemma producer_steps_run:
  assumes "child_of ''../target/debug/cdc-producer'' w = Some p" and "ch_command p = cdc_producer_command"
    and "ch_kafka p = empty_broker []" and "ch_started p + latency \<le> sm_now w"
    and "''localhost:9092'' \<in> set (sm_brokers w)" and "server_at w ''localhost'' 5400 ''cdc'' ''cdc'' ''cdc'' = Some d"
    and "srv_logical d" and "(''cdc_slot'', ''cdc_pub'') \<in> set (srv_slots d)"
    and "\<forall>cs\<in>set (due latency (sm_now w) (srv_commits d)). \<forall>c\<in>set cs. sendable c"
  shows "\<exists>k. producer_steps latency w = w\<lparr>sm_kafka := k\<rparr> \<and> b_batches k = user_batches (due latency (sm_now w) (srv_commits d))"
proof -
  obtain st where st: "wal_loop x86_platform
      (kafka_producer (kafka_producer_fields test_config) (codec_writer avro_binary) (broker_client False))
      (initial_wal (empty_broker []))
      (map Event (concat (map tx_events (session_stream 1 (due latency (sm_now w) (srv_commits d))))) @ [Closed]) = (st, Finished)"
    "b_batches (w_producer st) = user_batches (due latency (sm_now w) (srv_commits d))"
    using users_published [OF assms(9)] by blast
  obtain a where topics: "check_topics (registry_admin []) test_config [\<lparr>db_name = ''users'', db_namespace = ''public''\<rparr>] [] = (Inr (), a)"
    using users_topics by blast
  let ?pg = "\<lparr>pg_host = ''localhost'', pg_user = ''cdc'', pg_password = ''cdc'', pg_slotname = ''cdc_slot'',
              pg_dbname = ''cdc'', pg_publication = ''cdc_pub'', pg_port = 5400\<rparr>"
  let ?w = "producer_world latency w p"
  have ids: "fst (configure_replica_identity (wo_connect_source ?w) (wo_source ?w) ?pg False) =
      Inr [\<lparr>db_name = ''users'', db_namespace = ''public''\<rparr>]"
    using assms(6) by (simp add: configure_replica_identity_def producer_world_def Let_def)
  have lsn: "read_lsn (\<lambda>t. Inr (topic_messages (b_batches (ch_kafka p)) t)) test_config = Inr 0"
    by (simp add: read_lsn_def topic_messages_def assms(3) empty_broker_def)
  have "start_wal_input x86_platform (wo_connect_replication ?w)
      (kafka_producer (kafka_producer_fields test_config) (wo_codec ?w) (wo_client ?w)) ?pg 0 (empty_broker []) = (st, Finished)"
    using assms(6-8) st(1) by (simp add: start_wal_input_def producer_world_def replication_config_def stream_after_0)
  moreover have "kafka_producer_new (wo_create_producer ?w) (wo_init_transactions ?w) test_config =
      Inr (kafka_producer_fields test_config, empty_broker [])"
    using assms(3,5) by (simp add: kafka_producer_new_def producer_world_def client_settings_reach broker_init_def empty_broker_def)
  moreover have "kc_brokers test_config = ''localhost:9092''" by (simp add: test_config_def)
  ultimately have "fst (producer_main x86_platform ?w
      \<lparr>pc_postgres = ?pg, pc_kafka = test_config, pc_metrics = \<lparr>mc_port = 9001\<rparr>, pc_will_connect_to_feldera = False\<rparr>) =
      Streamed st Finished"
    using ids lsn topics assms(5) by (simp add: producer_main_def) (simp add: producer_world_def lsn_settings_reach)
  then have "producer_steps latency w = w\<lparr>sm_kafka := w_producer st\<rparr>"
    using assms(1,2,4) by (simp add: producer_steps_def cdc_producer_command_loads)
  then show ?thesis using st(2) by blast
qed

text \<open>The connector the harness starts: the sink's table has the changes of all batches.\<close>

lemma connector_steps_run:
  assumes "child_of ''../target/debug/postgres-connector'' w = Some c" and "ch_command c = postgres_connector_command"
    and "b_batches (ch_kafka c) = user_batches css0" and "css0 \<noteq> []" and "ch_read c = 0"
    and "ch_started c + latency \<le> sm_now w" and "''localhost:9092'' \<in> set (sm_brokers w)"
    and "server_at w ''127.0.0.1'' 5401 ''cdc'' ''cdc'' ''cdc'' = Some d"
    and "ch_servers c 5401 = Some d0" and "b_batches (sm_kafka w) = user_batches css"
  shows "\<exists>n. connector_steps latency w = w\<lparr>sm_servers := (sm_servers w)(5401 \<mapsto>
      d\<lparr>srv_table := fold apply_change (concat css) (srv_table d0)\<rparr>), sm_read := n\<rparr>"
proof -
  let ?ms = "filter (\<lambda>m. m_topic m \<noteq> lsn_topic ''example-topic'') (messages_of (concat (user_batches css)))"
  have deliv: "delivered ''example-topic'' ?ms (concat (user_batches css))"
    using delivered_messages_of [of "''example-topic''" "concat (user_batches css)"]
    by (auto simp: delivered_def filter_filter conj_commute cong: conj_cong filter_cong)
  obtain st where st: "consume_from_kafka (codec_reader avro_binary) ''example-topic'' (postgres_sink (\<lambda>_. True) recording_client)
      (map Inr ?ms) (initial_consuming \<lparr>pg_conn = [], upsert_stmt_cache = Map.empty, delete_stmt_cache = Map.empty,
        relation_cache = RelationCache_from_rels [16385 \<mapsto> users_rel]\<rparr>) = Some st"
    "fold (table_effect users_rel) (pg_conn (sink_state st)) (srv_table d0) = fold apply_change (concat css) (srv_table d0)"
    using users_replayed [OF deliv] by blast
  let ?k = "\<lparr>sk_brokers = ''localhost:9092'', sk_topic = ''example-topic'', sk_groupid = ''default''\<rparr>"
  let ?p = "\<lparr>cc_host = ''127.0.0.1'', cc_user = ''cdc'', cc_password = ''cdc'', cc_port = 5401\<rparr>"
  let ?w = "connector_world w c ''example-topic''"
  have reach: "kafka_reached w (consumer_settings ?k)"
    using assms(7) by (simp add: kafka_reached_def consumer_settings_def)
  have world: "kw_relations ?w = [(0, Inr (Some users_payload))]" "kw_stream ?w = map Inr ?ms"
    "kw_create ?w (consumer_settings ?k) = Inr one_partition" "kw_subscribe ?w ts = Inr ()" for ts
    using assms(3-5,10) reach by (simp_all add: connector_world_def users_announced)
  have "reset_committed_offsets_and_assign one_partition t = Inr ()" for t
    by (simp add: reset_committed_offsets_and_assign_def one_partition_def)
  then have "connect_and_load (codec_reader avro_binary) ?w ?k = Some [16385 \<mapsto> users_rel]"
    by (simp add: connect_and_load_def kafka_connect_def world load_relations_def users_loaded del: load_relations_loop.simps)
  then have "pg_main (codec_reader avro_binary) ?w (connector_connect w ?p) (\<lambda>_. True) recording_client
      \<lparr>pb_kafka = ?k, pb_postgres = ?p, pb_metrics = 9002\<rparr> = Some st"
    using st(1) assms(8)
    by (simp add: pg_main_def postgres_sink_new_def connector_connect_def subscribe_and_consume_def world)
  moreover have "sm_servers w 5401 = Some d"
    using assms(8) by (auto simp: server_at_def split: option.splits if_splits)
  ultimately have "connector_steps latency w = w\<lparr>sm_servers := (sm_servers w)(5401 \<mapsto>
      d\<lparr>srv_table := fold apply_change (concat css) (srv_table d0)\<rparr>), sm_read := length (b_batches (sm_kafka w))\<rparr>"
    using assms(1,2,6,9) st(2) by (simp add: connector_steps_def postgres_connector_command_loads)
  then show ?thesis by blast
qed

subsection \<open>While a test runs\<close>

text \<open>The transactions of a session are what it did to the table.\<close>

lemma run_script_changes:
  "run_script ss nid T tx = (n, T', done) \<Longrightarrow>
   (\<And>T0 cs. tx = Some (T0, cs) \<Longrightarrow> T = fold apply_change cs T0) \<Longrightarrow>
   T' = fold apply_change (concat done) (case tx of None \<Rightarrow> T | Some (T0, cs) \<Rightarrow> T0)"
proof (induction ss arbitrary: nid T tx n T' "done")
  case Nil
  then show ?case by (auto split: option.split)
next
  case (Cons s ss)
  note IH = Cons.IH [where tx = None] Cons.IH [where tx = "Some (T0, cs)" for T0 cs]
  consider "s = BeginTx" | "s = CommitTx" | "s = RollbackTx" | (dml) name email where
    "s = InsertUser name email \<or> s = SetEmail email name \<or> s = DeleteUser name"
    by (cases s) blast+
  then show ?case
  proof cases
    case 1
    show ?thesis
    proof (cases tx)
      case None
      then have "run_script ss nid T (Some (T, [])) = (n, T', done)" using Cons.prems(1) 1 by simp
      from IH(2) [OF this] show ?thesis by (simp add: None)
    next
      case (Some x)
      then have "run_script ss nid T (Some (fst x, snd x)) = (n, T', done)" using Cons.prems(1) 1 by simp
      from IH(2) [OF this] show ?thesis using Cons.prems(2) Some by (cases x) auto
    qed
  next
    case 2
    obtain m U ds where r: "run_script ss nid T None = (m, U, ds)" by (metis prod_cases3)
    then show ?thesis using Cons.prems IH(1) [OF r] 2 by (cases tx) auto
  next
    case 3
    let ?T = "case tx of None \<Rightarrow> T | Some (T0, cs) \<Rightarrow> T0"
    have "run_script ss nid ?T None = (n, T', done)" using Cons.prems(1) 3 by (auto split: option.splits)
    from IH(1) [OF this] show ?thesis by simp
  next
    case dml
    let ?nid = "case s of InsertUser _ _ \<Rightarrow> nid + 1 | _ \<Rightarrow> nid" and ?cs = "changes_of nid T s"
    have step: "run_script (s # ss) nid T tx =
        (case tx of
           Some (T0, cs0) \<Rightarrow> run_script ss ?nid (fold apply_change ?cs T) (Some (T0, cs0 @ ?cs))
         | None \<Rightarrow>
             (let (n, T'', done) = run_script ss ?nid (fold apply_change ?cs T) None
              in (n, T'', if ?cs = [] then done else ?cs # done)))"
      using dml by (cases tx) (auto simp: Let_def cong: if_cong)
    show ?thesis
    proof (cases tx)
      case None
      obtain m U ds where r: "run_script ss ?nid (fold apply_change ?cs T) None = (m, U, ds)" by (metis prod_cases3)
      then show ?thesis using Cons.prems(1) IH(1) [OF r] None unfolding step by auto
    next
      case (Some x)
      then obtain T0 cs0 where x: "tx = Some (T0, cs0)" "T = fold apply_change cs0 T0"
        using Cons.prems(2) by (cases x) auto
      then have "run_script ss ?nid (fold apply_change ?cs T) (Some (T0, cs0 @ ?cs)) = (n, T', done)"
        using Cons.prems(1) unfolding step by simp
      from IH(2) [OF this] show ?thesis using x by simp
    qed
  qed
qed

definition sink_start :: table where
  "sink_start = [[SqlInt4 1] \<mapsto> row_params 1 ''Existing'' ''existing@example.com'']"

text \<open>What the sink shows at a time, of what was committed when.\<close>

definition shown :: "nat \<Rightarrow> nat \<Rightarrow> (nat \<times> user_change list) list \<Rightarrow> table" where
  "shown latency t log =
     (if 4000 + latency \<le> t then fold apply_change (concat (due latency t log)) sink_start else sink_start)"

definition configured :: "pg_server \<Rightarrow> bool" where
  "configured d \<longleftrightarrow> srv_user d = ''cdc'' \<and> srv_password d = ''cdc'' \<and> srv_dbname d = ''cdc''"

text \<open>
  The infrastructure is up: the programs have been started at their times, the servers can be reached, and
  the source has committed \<open>log\<close>; \<open>tested\<close> says moreover that the pipeline has caught up.
\<close>

definition programs_up :: "sim \<Rightarrow> bool" where
  "programs_up w \<longleftrightarrow>
     (\<exists>p c d0 css0. sm_children w = [p, c] \<and>
        ch_command p = cdc_producer_command \<and> ch_kafka p = empty_broker [] \<and> ch_started p = 1000 \<and>
        ch_command c = postgres_connector_command \<and> css0 \<noteq> [] \<and> b_batches (ch_kafka c) = user_batches css0 \<and>
        ch_read c = 0 \<and> ch_started c = 4000 \<and> ch_servers c 5401 = Some d0 \<and> srv_table d0 = sink_start)"

definition source_up :: "(nat \<times> user_change list) list \<Rightarrow> nat \<Rightarrow> sim \<Rightarrow> bool" where
  "source_up log n w \<longleftrightarrow>
     (\<exists>d. sm_servers w 5400 = Some d \<and> configured d \<and> srv_logical d \<and> (''cdc_slot'', ''cdc_pub'') \<in> set (srv_slots d) \<and>
        srv_commits d = log \<and> srv_table d = fold apply_change (concat (map snd log)) Map.empty \<and> srv_next d = n)"

definition infra_up :: "nat \<Rightarrow> nat \<Rightarrow> (nat \<times> user_change list) list \<Rightarrow> nat \<Rightarrow> sim \<Rightarrow> bool" where
  "infra_up latency t log n w \<longleftrightarrow>
     sm_now w = t \<and> 5000 \<le> t \<and> latency \<le> 3000 \<and> ''localhost:9092'' \<in> set (sm_brokers w) \<and>
     (\<forall>(u, cs)\<in>set log. \<forall>c\<in>set cs. sendable c) \<and> programs_up w \<and> source_up log n w \<and>
     (\<exists>d. sm_servers w 5401 = Some d \<and> configured d \<and> (t < 4000 + latency \<longrightarrow> srv_table d = sink_start))"

definition tested :: "nat \<Rightarrow> nat \<Rightarrow> (nat \<times> user_change list) list \<Rightarrow> nat \<Rightarrow> sim \<Rightarrow> bool" where
  "tested latency t log n w \<longleftrightarrow>
     infra_up latency t log n w \<and> map_option srv_table (sm_servers w 5401) = Some (shown latency t log) \<and>
     b_batches (sm_kafka w) = user_batches (due latency t log)"

lemma command_programs:
  "cmd_program cdc_producer_command = ''../target/debug/cdc-producer''"
  "cmd_program postgres_connector_command = ''../target/debug/postgres-connector''"
  by (simp_all add: cdc_producer_command_def postgres_connector_command_def)

lemma server_at_configured:
  "sm_servers w port = Some d \<Longrightarrow> configured d \<Longrightarrow> host \<in> {''localhost'', ''127.0.0.1''} \<Longrightarrow>
   server_at w host port ''cdc'' ''cdc'' ''cdc'' = Some d"
  by (simp add: server_at_def configured_def)

lemma sendable_due:
  "\<forall>(u, cs)\<in>set log. \<forall>c\<in>set cs. sendable c \<Longrightarrow> \<forall>cs\<in>set (due latency t log). \<forall>c\<in>set cs. sendable c"
  by (auto simp: due_def)

lemma tested_catch_up:
  assumes "infra_up latency t log n w"
  shows "tested latency t log n (catch_up latency w)"
proof -
  from assms have now: "sm_now w = t" "5000 \<le> t" "latency \<le> 3000" and broker: "''localhost:9092'' \<in> set (sm_brokers w)"
    and send: "\<forall>(u, cs)\<in>set log. \<forall>c\<in>set cs. sendable c"
    by (simp_all add: infra_up_def)
  from assms obtain p c d0 css0 where ch: "sm_children w = [p, c]" and p: "ch_command p = cdc_producer_command"
    "ch_kafka p = empty_broker []" "ch_started p = 1000"
    and c: "ch_command c = postgres_connector_command" "b_batches (ch_kafka c) = user_batches css0" "css0 \<noteq> []"
      "ch_read c = 0" "ch_started c = 4000" "ch_servers c 5401 = Some d0" "srv_table d0 = sink_start"
    unfolding infra_up_def programs_up_def by blast
  from assms obtain d where d: "sm_servers w 5400 = Some d" "configured d" "srv_logical d"
    "(''cdc_slot'', ''cdc_pub'') \<in> set (srv_slots d)" "srv_commits d = log"
    unfolding infra_up_def source_up_def by blast
  from assms obtain e where e: "sm_servers w 5401 = Some e" "configured e" "t < 4000 + latency \<longrightarrow> srv_table e = sink_start"
    unfolding infra_up_def by blast
  have children: "child_of ''../target/debug/cdc-producer'' w = Some p"
    "child_of ''../target/debug/postgres-connector'' (w\<lparr>sm_kafka := k\<rparr>) = Some c" for k
    by (simp_all add: child_of_def ch p(1) c(1) command_programs)
  obtain k where k: "producer_steps latency w = w\<lparr>sm_kafka := k\<rparr>" "b_batches k = user_batches (due latency t log)"
    using producer_steps_run [OF children(1) p(1,2) _ broker server_at_configured [OF d(1,2)] d(3,4), of latency]
      p(3) now d(5) sendable_due [OF send, of latency t] by auto
  show ?thesis
  proof (cases "4000 + latency \<le> t")
    case True
    let ?w = "w\<lparr>sm_kafka := k\<rparr>"
    have "server_at ?w ''127.0.0.1'' 5401 ''cdc'' ''cdc'' ''cdc'' = Some e"
      using e(1,2) by (simp add: server_at_configured)
    from connector_steps_run [OF children(2) c(1-4) _ _ this c(6)] obtain m where
      "catch_up latency w = ?w\<lparr>sm_servers := (sm_servers w)(5401 \<mapsto>
        e\<lparr>srv_table := fold apply_change (concat (due latency t log)) sink_start\<rparr>), sm_read := m\<rparr>"
      using True broker now(1) c(5,7) k by (auto simp: catch_up_def)
    then show ?thesis
      using assms True k(2) e(2)
      by (simp add: tested_def infra_up_def programs_up_def source_up_def shown_def configured_def)
  next
    case False
    have "catch_up latency w = w\<lparr>sm_kafka := k\<rparr>"
      using False now(1) c(1,5) children(2) by (simp add: catch_up_def k(1) connector_steps_def postgres_connector_command_loads)
    then show ?thesis
      using assms False k(2) e by (simp add: tested_def infra_up_def programs_up_def source_up_def shown_def)
  qed
qed

text \<open>Time passes, and statements are executed on the source.\<close>

lemma tested_sleep:
  assumes "tested latency t log n w"
  shows "tested latency (t + d) log n (ho_sleep (simulated_host script_of query_of latency) d w)"
proof -
  have "infra_up latency (t + d) log n (w\<lparr>sm_now := t + d\<rparr>)"
    using assms by (auto simp: tested_def infra_up_def programs_up_def source_up_def shown_def)
  from tested_catch_up [OF this] show ?thesis
    using assms by (simp add: simulated_host_def tested_def [of _ t] infra_up_def [of _ t])
qed

lemma tested_exec:
  assumes "tested latency t log n w" and "script_of q = Some ss"
    and "run_script ss n (fold apply_change (concat (map snd log)) Map.empty) None = (n', T', done)"
    and "\<forall>cs\<in>set done. \<forall>c\<in>set cs. sendable c" and "src_client self = 5400"
  shows "\<exists>w'. exec_on_source (simulated_host script_of query_of latency) q (w, self) = Some (Some (), (w', self)) \<and>
    tested latency t (log @ map (Pair t) done) n' w'"
proof -
  from assms(1) obtain d where d: "sm_servers w 5400 = Some d" "srv_commits d = log" "srv_next d = n"
    "srv_table d = fold apply_change (concat (map snd log)) Map.empty"
    unfolding tested_def infra_up_def source_up_def by blast
  let ?w = "w\<lparr>sm_servers := (sm_servers w)(5400 \<mapsto>
      d\<lparr>srv_next := n', srv_table := T', srv_commits := log @ map (Pair t) done\<rparr>)\<rparr>"
  have now: "sm_now w = t" using assms(1) by (simp add: tested_def infra_up_def)
  have "T' = fold apply_change (concat (map snd (log @ map (Pair t) done))) Map.empty"
    using run_script_changes [OF assms(3)] by (simp add: comp_def)
  then have "infra_up latency t (log @ map (Pair t) done) n' ?w"
    using assms(1,4) d unfolding tested_def infra_up_def
    by (auto simp: programs_up_def source_up_def shown_def configured_def)
  from tested_catch_up [OF this] show ?thesis
    using assms(2,3,5) d by (simp add: exec_on_source_def expect_call_def simulated_host_def execute_in_def now)
qed

subsection \<open>Polling the sink\<close>

lemma tested_query:
  assumes "tested latency t log n w" and "query_of q = Some (name, email)"
  shows "ho_query_opt (simulated_host script_of query_of latency) 5401 q w = (Inr (has_row (shown latency t log) name email), w)"
  using assms by (auto simp: simulated_host_def query_in_def tested_def)

lemma tested_look:
  assumes "tested latency t log n w" and "query_of q = Some (name, email)"
  shows "tested latency (t + 500 * k) log n (before_look (simulated_host script_of query_of latency) 5401 q k w)"
  using assms(1)
proof (induction k arbitrary: t w)
  case (Suc k)
  have "tested latency (t + 500) log n (poll_round (simulated_host script_of query_of latency) 5401 q w)"
    using tested_sleep [OF Suc.prems] 
    by (simp add: poll_round_def tested_query [where query_of = query_of and q = q, OF Suc.prems assms(2)])
  from Suc.IH [OF this] show ?case by (simp add: look_Suc ac_simps)
qed (simp add: look_0)

lemma tested_polls:
  assumes "tested latency t log n w" and "query_of q = Some (name, email)"
  shows "found_in_time (simulated_host script_of query_of latency) 5401 q t timeout w \<longleftrightarrow>
      (\<exists>k. 500 * k \<le> timeout \<and> has_row (shown latency (t + 500 * k) log) name email)"
    and "missing_in_time (simulated_host script_of query_of latency) 5401 q t timeout w \<longleftrightarrow>
      (\<forall>k. 500 * k \<le> timeout \<longrightarrow> \<not> has_row (shown latency (t + 500 * k) log) name email)"
proof -
  let ?h = "simulated_host script_of query_of latency" and ?row = "\<lambda>k. has_row (shown latency (t + 500 * k) log) name email"
  have look: "look ?h 5401 q k w = Inr (?row k)" for k
    using tested_query [where query_of = query_of and q = q, OF tested_look [where query_of = query_of and q = q, OF assms] assms(2)] by (simp add: look_def)
  have now: "ho_now ?h (before_look ?h 5401 q k w) = t + 500 * k" for k
    using tested_look [where query_of = query_of and q = q and script_of = script_of and k = k, OF assms] by (simp add: simulated_host_def tested_def infra_up_def)
  show "found_in_time ?h 5401 q t timeout w \<longleftrightarrow> (\<exists>k. 500 * k \<le> timeout \<and> ?row k)"
  proof
    assume "\<exists>k. 500 * k \<le> timeout \<and> ?row k"
    then obtain k where k: "500 * k \<le> timeout" "?row k" by blast
    have "(LEAST j. ?row j) \<le> k" using k(2) by (rule Least_le)
    moreover have "?row (LEAST j. ?row j)" using k(2) by (rule LeastI)
    moreover have "\<not> ?row j" if "j < (LEAST j. ?row j)" for j using that by (rule not_less_Least)
    ultimately show "found_in_time ?h 5401 q t timeout w"
      using k(1) unfolding found_in_time_def look now by (intro exI [of _ "LEAST j. ?row j"]) auto
  qed (auto simp: found_in_time_def look now)
  show "missing_in_time ?h 5401 q t timeout w \<longleftrightarrow> (\<forall>k. 500 * k \<le> timeout \<longrightarrow> \<not> ?row k)"
  proof
    assume "missing_in_time ?h 5401 q t timeout w"
    then obtain m where m: "timeout < 500 * m" "\<forall>j<m. \<not> ?row j" by (auto simp: missing_in_time_def look now)
    show "\<forall>k. 500 * k \<le> timeout \<longrightarrow> \<not> ?row k"
    proof (intro allI impI)
      fix k
      assume "500 * k \<le> timeout"
      then have "k < m" using m(1) by simp
      then show "\<not> ?row k" using m(2) by blast
    qed
  next
    assume none: "\<forall>k. 500 * k \<le> timeout \<longrightarrow> \<not> ?row k"
    have "timeout < 500 * Suc (timeout div 500)" by simp
    moreover have "\<forall>j < Suc (timeout div 500). \<not> ?row j" using none by (auto simp: less_Suc_eq_le)
    ultimately show "missing_in_time ?h 5401 q t timeout w"
      unfolding missing_in_time_def look now by (intro exI [of _ "Suc (timeout div 500)"]) auto
  qed
qed

lemma tested_wait:
  assumes "tested latency t log n w" and "query_of (row_query table clause) = Some (name, email)" and "sink_client self = 5401"
  shows "\<exists>r w' k. wait_for_sink_row (simulated_host script_of query_of latency) table clause timeout (w, self) =
      Some (r, (w', self)) \<and> tested latency (t + 500 * k) log n w' \<and>
    (r = Some () \<longleftrightarrow> (\<exists>k. 500 * k \<le> timeout \<and> has_row (shown latency (t + 500 * k) log) name email))"
    and "\<exists>r w' k. not_sink_row (simulated_host script_of query_of latency) table clause timeout (w, self) =
      Some (r, (w', self)) \<and> tested latency (t + 500 * k) log n w' \<and>
    (r = Some () \<longleftrightarrow> (\<forall>k. 500 * k \<le> timeout \<longrightarrow> \<not> has_row (shown latency (t + 500 * k) log) name email))"
proof -
  let ?h = "simulated_host script_of query_of latency" and ?q = "row_query table clause"
  let ?I = "\<lambda>w'. \<exists>k. tested latency (t + 500 * k) log n w'"
  have now: "ho_now ?h w = t" using assms(1) by (simp add: simulated_host_def tested_def infra_up_def)
  have start: "?I w" using assms(1) by (intro exI [of _ 0]) simp
  have sleep: "?I (ho_sleep ?h 500 w')" if I: "?I w'" for w'
  proof -
    from I obtain k where "tested latency (t + 500 * k) log n w'" by blast
    from tested_sleep [where script_of = script_of and query_of = query_of and d = 500, OF this] have "tested latency (t + 500 * Suc k) log n (ho_sleep ?h 500 w')"
      by (simp add: ac_simps)
    then show ?thesis by blast
  qed
  have query: "?I (snd (ho_query_opt ?h 5401 ?q w'))" if "?I w'" for w'
    using that tested_query [where query_of = query_of and q = ?q, OF _ assms(2)] by fastforce
  show "\<exists>r w' k. wait_for_sink_row ?h table clause timeout (w, self) = Some (r, (w', self)) \<and>
      tested latency (t + 500 * k) log n w' \<and>
      (r = Some () \<longleftrightarrow> (\<exists>k. 500 * k \<le> timeout \<and> has_row (shown latency (t + 500 * k) log) name email))"
    using simulated.polls_verdict(1) [of script_of query_of latency 5401 ?q t timeout w]
      simulated.poll_for_row_keeps [where I = ?I and client = 5401 and sql = ?q and start = t and timeout = timeout, OF sleep query start]
    by (fastforce simp: wait_for_sink_row_def with_infra_def assms(3) now tested_polls [where query_of = query_of and q = ?q, OF assms(1,2)])
  show "\<exists>r w' k. not_sink_row ?h table clause timeout (w, self) = Some (r, (w', self)) \<and>
      tested latency (t + 500 * k) log n w' \<and>
      (r = Some () \<longleftrightarrow> (\<forall>k. 500 * k \<le> timeout \<longrightarrow> \<not> has_row (shown latency (t + 500 * k) log) name email))"
    using simulated.polls_verdict(2) [of script_of query_of latency 5401 ?q t timeout w]
      simulated.poll_for_no_row_keeps [where I = ?I and client = 5401 and sql = ?q and start = t and timeout = timeout, OF sleep query start]
    by (fastforce simp: not_sink_row_def with_infra_def assms(3) now tested_polls [where query_of = query_of and q = ?q, OF assms(1,2)])
qed

subsection \<open>The set-up\<close>

lemma catch_up_idle: "sm_children w = [] \<Longrightarrow> catch_up latency w = w"
  by (simp add: catch_up_def producer_steps_def connector_steps_def child_of_def)

text \<open>The state when the containers run and the crates are built.\<close>

definition sim_built :: sim where
  "sim_built =
     sim_start\<lparr>sm_brokers := map (\<lambda>p. ''localhost:'' @ decimal p) [9092, 29092, 9644],
       sm_servers := [5400 \<mapsto> start_server source_container 0, 5401 \<mapsto> start_server sink_container 0],
       sm_built := [''postgres-connector'', ''cdc-producer'']\<rparr>"

definition producer_child :: child where
  "producer_child =
     \<lparr>ch_id = 0, ch_command = cdc_producer_command, ch_started = 1000, ch_kafka = empty_broker [], ch_read = 0,
      ch_servers = sm_servers sim_built\<rparr>"

lemma test_servers:
  "start_server source_container 0 =
     \<lparr>srv_user = ''cdc'', srv_password = ''cdc'', srv_dbname = ''cdc'', srv_logical = True,
      srv_slots = [(''cdc_slot'', ''cdc_pub'')], srv_next = 4, srv_table = fold apply_change seed Map.empty,
      srv_commits = [(0, seed)]\<rparr>"
  "start_server sink_container 0 =
     \<lparr>srv_user = ''cdc'', srv_password = ''cdc'', srv_dbname = ''cdc'', srv_logical = False, srv_slots = [], srv_next = 2,
      srv_table = sink_start, srv_commits = [(0, [Inserted 1 ''Existing'' ''existing@example.com''])]\<rparr>"
  by (simp_all add: start_server_def setting_def source_container_def init_changes_def init_slots_def Let_def)
    (simp_all add: seed_def start_server_def setting_def sink_container_def init_changes_def init_slots_def sink_start_def
      Let_def)

lemma containers_started:
  "start_in sink_container (start_in source_container (start_in redpanda_container sim_start)) =
     sim_built\<lparr>sm_built := []\<rparr>"
proof -
  have c: "ct_image redpanda_container = ''docker.redpanda.com/redpandadata/redpanda''"
    "ct_ports redpanda_container = [(9092, 9092), (29092, 29092), (9644, 9644)]"
    "ct_image source_container = ''postgres''" "ct_ports source_container = [(5400, 5432)]"
    "ct_image sink_container = ''postgres''" "ct_ports sink_container = [(5401, 5432)]"
    by (simp_all add: redpanda_container_def source_container_def sink_container_def)
  show ?thesis by (simp add: start_in_def c) (simp add: sim_built_def sim_start_def)
qed

lemma kafka_port: "''localhost:9092'' \<in> set (sm_brokers sim_built)"
proof -
  have "digit 9 = CHR ''9''" "digit 0 = CHR ''0''" "digit 2 = CHR ''2''"
    by (simp_all add: digit_def char_of_def bit_iff_odd)
  then have "decimal 9092 = ''9092''"
    by (simp add: decimal.simps [of 9092] decimal.simps [of 909] decimal.simps [of 90] decimal.simps [of 9])
  then show ?thesis by (simp add: sim_built_def)
qed

lemma producer_ready:
  assumes "latency \<le> 3000"
  shows "\<exists>k. producer_steps latency (sim_built\<lparr>sm_now := 4000, sm_children := [producer_child], sm_next := 1\<rparr>) =
      sim_built\<lparr>sm_now := 4000, sm_children := [producer_child], sm_next := 1, sm_kafka := k\<rparr> \<and>
    b_batches k = user_batches [seed]"
proof -
  let ?w = "sim_built\<lparr>sm_now := 4000, sm_children := [producer_child], sm_next := 1\<rparr>"
  let ?d = "start_server source_container 0"
  have child: "child_of ''../target/debug/cdc-producer'' ?w = Some producer_child"
    by (simp add: child_of_def producer_child_def command_programs)
  have server: "server_at ?w ''localhost'' 5400 ''cdc'' ''cdc'' ''cdc'' = Some ?d"
    by (rule server_at_configured) (simp_all add: sim_built_def configured_def test_servers)
  have due: "due latency (sm_now ?w) (srv_commits ?d) = [seed]" using assms by (simp add: due_def test_servers)
  have "\<forall>cs\<in>set (due latency (sm_now ?w) (srv_commits ?d)). \<forall>c\<in>set cs. sendable c"
    unfolding due by (simp add: seed_def)
  from producer_steps_run [OF child _ _ _ _ server _ _ this] show ?thesis
    using assms kafka_port unfolding due by (simp add: producer_child_def test_servers)
qed

lemma infra_built:
  "init_infra (simulated_host script_of query_of latency) (sim_start, []) =
     start_programs (simulated_host script_of query_of latency)
       (connect_infra (simulated_host script_of query_of latency) (Inr (decimal 9092)) (Inr (decimal 5400)) (Inr (decimal 5401)))
       (sim_built\<lparr>sm_now := 1000\<rparr>, [])"
proof -
  let ?h = "simulated_host script_of query_of latency"
  have start: "start_container ?h c (w, i) = Some (Some (Inr (decimal (fst (hd (ct_ports c))))), (start_in c w, i))" for c w and i :: "string list"
    by (simp add: start_container_def simulated_host_def)
  have ports: "fst (hd (ct_ports redpanda_container)) = 9092" "fst (hd (ct_ports source_container)) = 5400"
    "fst (hd (ct_ports sink_container)) = 5401"
    by (simp_all add: redpanda_container_def source_container_def sink_container_def)
  have build: "build_crate ?h name (w, i) = Some (Some (), (w\<lparr>sm_built := name # sm_built w\<rparr>, i))" for name w and i :: "string list"
    by (simp add: build_crate_def expect_call_def simulated_host_def build_in_def await_def finish_def)
  have sleep: "sm_children w = [] \<Longrightarrow> sleeping ?h d (w, i) = Some (Some (), (w\<lparr>sm_now := sm_now w + d\<rparr>, i))" for d w and i :: "string list"
    by (simp add: sleeping_def simulated_host_def catch_up_idle)
  show ?thesis
    by (simp add: init_infra_def await_def start ports build containers_started sleep)
      (simp add: sim_built_def sim_start_def sleep)
qed

lemma sim_sleep:
  "w\<lparr>sm_now := sm_now w + d\<rparr> = v \<Longrightarrow>
   sleeping (simulated_host script_of query_of latency) d (w, i) = Some (Some (), (catch_up latency v, i))"
  by (auto simp: sleeping_def simulated_host_def)

lemma programs_started:
  assumes "producer_steps latency (sim_built\<lparr>sm_now := 4000, sm_children := [producer_child], sm_next := 1\<rparr>) =
      sim_built\<lparr>sm_now := 4000, sm_children := [producer_child], sm_next := 1, sm_kafka := k\<rparr>"
    and "rest 0 1 (sim_built\<lparr>sm_now := 4000, sm_children := [producer_child,
      \<lparr>ch_id = 1, ch_command = postgres_connector_command, ch_started = 4000, ch_kafka = k, ch_read = 0,
       ch_servers = sm_servers sim_built\<rparr>], sm_next := 2, sm_kafka := k\<rparr>, i) = Some (Some a, s)"
  shows "start_programs (simulated_host script_of query_of latency) rest (sim_built\<lparr>sm_now := 1000\<rparr>, i) = Some (Some a, s)"
proof -
  let ?h = "simulated_host script_of query_of latency"
  let ?w1 = "sim_built\<lparr>sm_now := 1000, sm_children := [producer_child], sm_next := 1\<rparr>"
  let ?w2 = "sim_built\<lparr>sm_now := 4000, sm_children := [producer_child], sm_next := 1\<rparr>"
  let ?w3 = "sim_built\<lparr>sm_now := 4000, sm_children := [producer_child,
      \<lparr>ch_id = 1, ch_command = postgres_connector_command, ch_started = 4000, ch_kafka = k, ch_read = 0,
       ch_servers = sm_servers sim_built\<rparr>], sm_next := 2, sm_kafka := k\<rparr>"
  have built: "''../target/debug/cdc-producer'' \<in> (\<lambda>name. ''../target/debug/'' @ name) ` set (sm_built sim_built)"
    "''../target/debug/postgres-connector'' \<in> (\<lambda>name. ''../target/debug/'' @ name) ` set (sm_built sim_built)"
    by (simp_all add: sim_built_def)
  have "spawn_binary ?h cdc_producer_command (sim_built\<lparr>sm_now := 1000\<rparr>, i) = Some (Some 0, (?w1, i))"
    using built(1) by (simp add: spawn_binary_def expect_call_def simulated_host_def spawn_in_def command_programs)
      (simp add: sim_built_def sim_start_def producer_child_def)
  moreover have "connector_steps latency (?w2\<lparr>sm_kafka := k\<rparr>) = ?w2\<lparr>sm_kafka := k\<rparr>"
    by (simp add: connector_steps_def child_of_def producer_child_def command_programs)
  then have "catch_up latency ?w2 = ?w2\<lparr>sm_kafka := k\<rparr>" unfolding catch_up_def assms(1) .
  then have "sleeping ?h 3000 (?w1, i) = Some (Some (), (?w2\<lparr>sm_kafka := k\<rparr>, i))"
    using sim_sleep [of ?w1 3000 ?w2 script_of query_of latency i] by (simp del: One_nat_def)
  moreover have "spawn_binary ?h postgres_connector_command (?w2\<lparr>sm_kafka := k\<rparr>, i) = Some (Some 1, (?w3, i))"
    using built(2) by (simp add: spawn_binary_def expect_call_def simulated_host_def spawn_in_def command_programs)
      (simp add: sim_built_def sim_start_def producer_child_def)
  ultimately show ?thesis
    using assms(2) by (simp add: start_programs_def await_def unwinding_def)
qed

lemma infra_starts:
  assumes "latency \<le> 3000"
  shows "\<exists>w ids self. init_infra (simulated_host script_of query_of latency) (sim_start, []) = Some (Some self, (w, ids)) \<and>
    tested latency 5000 [(0, seed)] 4 w \<and> src_client self = 5400 \<and> sink_client self = 5401"
proof -
  let ?h = "simulated_host script_of query_of latency"
  obtain k where k: "producer_steps latency (sim_built\<lparr>sm_now := 4000, sm_children := [producer_child], sm_next := 1\<rparr>) =
      sim_built\<lparr>sm_now := 4000, sm_children := [producer_child], sm_next := 1, sm_kafka := k\<rparr>" "b_batches k = user_batches [seed]"
    using producer_ready [OF assms] by blast
  let ?c = "\<lparr>ch_id = 1, ch_command = postgres_connector_command, ch_started = 4000, ch_kafka = k, ch_read = 0,
      ch_servers = sm_servers sim_built\<rparr>"
  let ?w3 = "sim_built\<lparr>sm_now := 5000, sm_children := [producer_child, ?c], sm_next := 2, sm_kafka := k\<rparr>"
  have "infra_up latency 5000 [(0, seed)] 4 ?w3"
    unfolding infra_up_def programs_up_def source_up_def
    using assms k(2) kafka_port
    by (simp add: sim_built_def producer_child_def configured_def test_servers)
      (auto simp: seed_def intro!: exI [of _ "[seed]"])
  from tested_catch_up [OF this] have t: "tested latency 5000 [(0, seed)] 4 (catch_up latency ?w3)" .
  then obtain d e where servers: "sm_servers (catch_up latency ?w3) 5400 = Some d" "configured d"
    "sm_servers (catch_up latency ?w3) 5401 = Some e" "configured e"
    unfolding tested_def infra_up_def source_up_def by blast
  have conn: "create_conn ?h 5400 (catch_up latency ?w3, i) = Some (Some 5400, (catch_up latency ?w3, i))"
    "create_conn ?h 5401 (catch_up latency ?w3, i) = Some (Some 5401, (catch_up latency ?w3, i))" for i :: "string list"
    using server_at_configured [OF servers(1,2)] server_at_configured [OF servers(3,4)]
    by (simp_all add: create_conn_def expect_call_def simulated_host_def)
  have "?w3\<lparr>sm_now := 4000, sm_now := sm_now (?w3\<lparr>sm_now := 4000\<rparr>) + 1000\<rparr> = ?w3" by simp
  note sleep = sim_sleep [OF this, of script_of query_of latency "[] :: string list"]
  have "\<exists>self ids. connect_infra ?h (Inr a) (Inr b) (Inr x) 0 1 (?w3\<lparr>sm_now := 4000\<rparr>, []) =
      Some (Some self, (catch_up latency ?w3, ids)) \<and> src_client self = 5400 \<and> sink_client self = 5401" for a b x
    using sleep by (simp add: connect_infra_def await_def conn expect_result_def register_ids_def finish_def del: One_nat_def)
  then obtain self ids where "connect_infra ?h (Inr (decimal 9092)) (Inr (decimal 5400)) (Inr (decimal 5401)) 0 1
      (?w3\<lparr>sm_now := 4000\<rparr>, []) = Some (Some self, (catch_up latency ?w3, ids))"
    and clients: "src_client self = 5400" "sink_client self = 5401"
    by blast
  moreover have "?w3\<lparr>sm_now := 4000\<rparr> =
      sim_built\<lparr>sm_now := 4000, sm_children := [producer_child, ?c], sm_next := 2, sm_kafka := k\<rparr>" by simp
  ultimately have "init_infra ?h (sim_start, []) = Some (Some self, (catch_up latency ?w3, ids))"
    unfolding infra_built by (intro programs_started [OF k(1)]) (simp only:)
  then show ?thesis using t clients by blast
qed

text \<open>A test on this host: its verdict is that of its body.\<close>

lemma run_test_simulated:
  assumes "latency \<le> 3000"
    and "\<And>w self. tested latency 5000 [(0, seed)] 4 w \<Longrightarrow> src_client self = 5400 \<Longrightarrow> sink_client self = 5401 \<Longrightarrow>
      \<exists>r s. body (w, self) = Some (r, s) \<and> Q r"
  shows "\<exists>r s. run_test (simulated_host script_of query_of latency) body (sim_start, []) = Some (r, s) \<and> Q r"
proof -
  let ?h = "simulated_host script_of query_of latency"
  obtain w ids self where i: "init_infra ?h (sim_start, []) = Some (Some self, (w, ids))"
    "tested latency 5000 [(0, seed)] 4 w" "src_client self = 5400" "sink_client self = 5401"
    using infra_starts [OF assms(1)] by blast
  obtain r w' self' where b: "body (w, self) = Some (r, (w', self'))" "Q r"
    using assms(2) [OF i(2-4)] by auto
  have "\<exists>w''. infra_drop ?h (w', self') = Some (Some (), (w'', self'))"
    by (simp add: infra_drop_def await_def kill_binary_def expect_call_def simulated_host_def)
  then show ?thesis using i(1) b by (auto simp: run_test_def dropping_def)
qed

end
