(* ===== verification/Integration_Tests.thy ===== *)
theory Integration_Tests imports Host_Runs "HOL-Library.Sublist" begin

text \<open>
  The end-to-end tests, \<open>cdc-integration-tests/tests/events.rs\<close>, one definition per \<open>#[test]\<close> function: what
  each leaves behind on any host, and the verdict of the tests that look at the databases on the
  simulated one.
\<close>

subsection \<open>The tests\<close>

text \<open>A text in single quotes.\<close>

definition quoted :: "string \<Rightarrow> string" where
  "quoted s = CHR 0x27 # s @ [CHR 0x27]"

definition insert_sql :: "string \<Rightarrow> string \<Rightarrow> string" where
  "insert_sql name email =
     ''INSERT INTO users (name, email) VALUES ('' @ quoted name @ '', '' @ quoted email @ '')''"

definition newline :: string where
  "newline = [CHR 0x0A]"

definition row_clause :: "string \<Rightarrow> string \<Rightarrow> string \<Rightarrow> string" where
  "row_clause conjunction name email = ''name = '' @ quoted name @ conjunction @ ''email = '' @ quoted email"

definition simple_insert :: "'w host \<Rightarrow> ('w \<times> Infra, unit) act" where
  "simple_insert h =
     await (exec_on_source h (insert_sql ''e2e'' ''e2e@test.com'')) (\<lambda>_.
       wait_for_sink_row h ''users'' (row_clause '' AND '' ''e2e'' ''e2e@test.com'') TWO_SECONDS)"

definition two_inserts_sql :: string where
  "two_inserts_sql =
     ''BEGIN;'' @ newline @
     ''        '' @ insert_sql ''a'' ''a@x.com'' @ '';'' @ newline @
     ''        '' @ insert_sql ''b'' ''b@x.com'' @ '';'' @ newline @
     ''        COMMIT;'' @ newline @ ''        ''"

definition multiple_inserts :: "'w host \<Rightarrow> ('w \<times> Infra, unit) act" where
  "multiple_inserts h =
     await (exec_on_source h two_inserts_sql) (\<lambda>_.
     await (wait_for_sink_row h ''users'' (row_clause '' AND '' ''a'' ''a@x.com'') TWO_SECONDS) (\<lambda>_.
       wait_for_sink_row h ''users'' (row_clause '' and '' ''b'' ''b@x.com'') TWO_SECONDS))"

text \<open>Most tests begin with a row that has arrived.\<close>

definition insert_a :: "'w host \<Rightarrow> ('w \<times> Infra, unit) act" where
  "insert_a h =
     await (exec_on_source h (insert_sql ''a'' ''a@x.com'' @ '';'')) (\<lambda>_.
       wait_for_sink_row h ''users'' (row_clause '' AND '' ''a'' ''a@x.com'') TWO_SECONDS)"

definition update_sql :: string where
  "update_sql =
     ''UPDATE users'' @ newline @ ''        SET email = '' @ quoted ''b@x.com'' @ newline @
     ''        WHERE name = '' @ quoted ''a''"

definition insert_update :: "'w host \<Rightarrow> ('w \<times> Infra, unit) act" where
  "insert_update h =
     await (insert_a h) (\<lambda>_.
     await (exec_on_source h update_sql) (\<lambda>_.
       wait_for_sink_row h ''users'' (row_clause '' AND '' ''a'' ''b@x.com'') TWO_SECONDS))"

definition delete_sql :: string where
  "delete_sql = ''DELETE FROM users WHERE name = '' @ quoted ''a''"

definition insert_delete :: "'w host \<Rightarrow> ('w \<times> Infra, unit) act" where
  "insert_delete h =
     await (insert_a h) (\<lambda>_.
     await (exec_on_source h delete_sql) (\<lambda>_.
     await (sleeping h 3000) (\<lambda>_.
       not_sink_row h ''users'' (row_clause '' AND '' ''a'' ''a@x.com'') TWO_SECONDS)))"

definition rollback_sql :: string where
  "rollback_sql =
     ''BEGIN;'' @ newline @ ''        '' @ insert_sql ''a'' ''a@x.com'' @ '';'' @ newline @ ''        ROLLBACK;''"

definition rollback_not_applied :: "'w host \<Rightarrow> ('w \<times> Infra, unit) act" where
  "rollback_not_applied h =
     await (exec_on_source h rollback_sql) (\<lambda>_.
     await (sleeping h 3000) (\<lambda>_.
       not_sink_row h ''users'' (row_clause '' AND '' ''a'' ''a@x.com'') TWO_SECONDS))"

definition contains :: "string \<Rightarrow> string \<Rightarrow> bool" where
  "contains sub line \<longleftrightarrow> list_ex (\<lambda>t. take (length sub) t = sub) (suffixes line)"

definition relation_logged :: "'w host \<Rightarrow> 'w \<times> Infra \<Rightarrow> bool" where
  "relation_logged h s \<longleftrightarrow>
     list_ex (contains ''Got relation'') (stdout_lines h (postgres_connector (snd s)) (fst s))"

text \<open>
  \<open>timeout(10 s, loop)\<close>: the loop looks every 200 ms; the deadline is noticed while it sleeps.
\<close>

partial_function (option) look_for_relation :: "'w host \<Rightarrow> nat \<Rightarrow> 'w \<times> Infra \<Rightarrow> (bool option \<times> ('w \<times> Infra)) option" where
  "look_for_relation h deadline s =
     (if relation_logged h s then Some (Some True, s)
      else if deadline < ho_now h (fst s) + 200
      then Some (Some False, (ho_sleep h (deadline - ho_now h (fst s)) (fst s), snd s))
      else look_for_relation h deadline (ho_sleep h 200 (fst s), snd s))"

definition rel_msg_pub :: "'w host \<Rightarrow> ('w \<times> Infra, unit) act" where
  "rel_msg_pub h =
     await (sleeping h 10000) (\<lambda>_.
     await (\<lambda>s. look_for_relation h (ho_now h (fst s) + 10000) s) (\<lambda>found. assert_that found))"

definition lsn_above_one :: "'w host \<Rightarrow> ('w \<times> Infra, unit) act" where
  "lsn_above_one h =
     await (test_read_lsn h) (\<lambda>r. await (expect_result r) (\<lambda>lsn. assert_that (1 < lsn)))"

definition lsn_checkpoint_persists :: "'w host \<Rightarrow> ('w \<times> Infra, unit) act" where
  "lsn_checkpoint_persists h = await (insert_a h) (\<lambda>_. lsn_above_one h)"

definition started_at_zero :: "'w host \<Rightarrow> 'w \<times> Infra \<Rightarrow> bool" where
  "started_at_zero h s \<longleftrightarrow>
     list_ex (contains ''starting_lsn=0'') (stdout_lines h (cdc_producer (snd s)) (fst s))"

definition producer_restart_resumes_lsn :: "'w host \<Rightarrow> ('w \<times> Infra, unit) act" where
  "producer_restart_resumes_lsn h =
     await (insert_a h) (\<lambda>_.
     await (lsn_above_one h) (\<lambda>_.
     await (restart_producer h) (\<lambda>_ s. assert_that (\<not> started_at_zero h s) s)))"

definition connector_output :: "'w host \<Rightarrow> 'w \<times> Infra \<Rightarrow> string" where
  "connector_output h s = join newline (stdout_lines h (postgres_connector (snd s)) (fst s))"

definition sink_restart_resumes_offset :: "'w host \<Rightarrow> ('w \<times> Infra, unit) act" where
  "sink_restart_resumes_offset h =
     await (insert_a h) (\<lambda>_.
     await (restart_connector h) (\<lambda>_.
     await (exec_on_source h (insert_sql ''b'' ''b@x.com'' @ '';'')) (\<lambda>_.
     await (wait_for_sink_row h ''users'' (row_clause '' AND '' ''b'' ''b@x.com'') 10000) (\<lambda>_ s.
       await (assert_that (contains ''b@x.com'' (connector_output h s))) (\<lambda>_.
         assert_that (\<not> contains ''a@x.com'' (connector_output h s))) s))))"

text \<open>\<open>str::lines\<close>, and the first line of a counter; \<open>parse\<close> is the one of \<open>f64\<close>.\<close>

definition text_lines :: "string \<Rightarrow> string list" where
  "text_lines t =
     (let ls = segments (CHR 0x0A) t;
          ls' = (if last ls = [] then butlast ls else ls)
      in map (\<lambda>l. if l \<noteq> [] \<and> last l = CHR 0x0D then butlast l else l) ls')"

definition after_last_space :: "string \<Rightarrow> string option" where
  "after_last_space l = (if CHR '' '' \<in> set l then Some (rev (takeWhile (\<lambda>c. c \<noteq> CHR '' '') (rev l))) else None)"

definition get_counter_value :: "(string \<Rightarrow> 'f option) \<Rightarrow> string \<Rightarrow> string \<Rightarrow> 'f::zero" where
  "get_counter_value parse page name =
     (case find (\<lambda>l. hd (segments (CHR ''{'') l) = name) (text_lines page) of
        None \<Rightarrow> 0
      | Some l \<Rightarrow>
          (case after_last_space l of
             None \<Rightarrow> 0
           | Some v \<Rightarrow> (case parse v of None \<Rightarrow> 0 | Some x \<Rightarrow> x)))"

definition check_metrics :: "(string \<Rightarrow> ('f::{zero,ord}) option) \<Rightarrow> 'w host \<Rightarrow> ('w \<times> Infra, unit) act" where
  "check_metrics parse h =
     await (insert_a h) (\<lambda>_.
     await (expect_call (get_metrics_for h 9001)) (\<lambda>cdc_prod_metrics.
     await (assert_that (0 < get_counter_value parse cdc_prod_metrics ''cdc_events_produced_total'')) (\<lambda>_.
     await (expect_call (get_metrics_for h 9002)) (\<lambda>pg_conn_metrics.
       assert_that (0 < get_counter_value parse pg_conn_metrics ''cdc_events_consumed_total'')))))"

text \<open>The number of the last line with a text.\<close>

definition last_line_with :: "string \<Rightarrow> string list \<Rightarrow> nat option" where
  "last_line_with sub ls = foldl (\<lambda>acc (i, line). if contains sub line then Some i else acc) None (enumerate 0 ls)"

definition three_inserts_sql :: string where
  "three_inserts_sql =
     newline @ ''        BEGIN;'' @ newline @
     ''        '' @ insert_sql ''a'' ''a@x.com'' @ '';'' @ newline @
     ''        '' @ insert_sql ''b'' ''b@x.com'' @ '';'' @ newline @
     ''        '' @ insert_sql ''c'' ''c@x.com'' @ '';'' @ newline @
     ''        COMMIT;''"

definition check_lines :: "string list \<Rightarrow> ('s, unit) act" where
  "check_lines ls =
     (case (last_line_with ''a@x.com'' ls, last_line_with ''b@x.com'' ls, last_line_with ''c@x.com'' ls) of
        (Some a, Some b, Some c) \<Rightarrow> if a > b then panic else if b > c then panic else finish ()
      | _ \<Rightarrow> panic)"

definition check_ordering :: "'w host \<Rightarrow> ('w \<times> Infra, unit) act" where
  "check_ordering h =
     await (exec_on_source h three_inserts_sql) (\<lambda>_.
     await (sleeping h 3000) (\<lambda>_ s.
       check_lines (stdout_lines h (postgres_connector (snd s)) (fst s)) s))"

definition all_tests :: "(string \<Rightarrow> ('f::{zero,ord}) option) \<Rightarrow> 'w host \<Rightarrow> ('w \<times> Infra, unit) act list" where
  "all_tests parse h =
     [simple_insert h, multiple_inserts h, insert_update h, insert_delete h, rollback_not_applied h,
      rel_msg_pub h, lsn_checkpoint_persists h, producer_restart_resumes_lsn h,
      sink_restart_resumes_offset h, check_metrics parse h, check_ordering h]"

subsection \<open>What the tests leave behind\<close>

lemma keeps_state: "(\<And>s. keeps I (f s)) \<Longrightarrow> keeps I (\<lambda>s. f s s)"
  by (simp add: keeps_def)

context process_host begin

lemma keeps_look_for_relation: "keeps (running base) (look_for_relation h deadline)"
proof -
  have "\<exists>r s'. look_for_relation h deadline s = Some (r, s') \<and> running base s'" if "running base s" for s
    using that
  proof (induction "deadline - ho_now h (fst s)" arbitrary: s rule: less_induct)
    case less
    have sleep: "running base (ho_sleep h d (fst s), snd s)" for d
      using less.prems by (auto simp: running_def others Let_def)
    have "deadline - ho_now h (ho_sleep h 200 (fst s)) < deadline - ho_now h (fst s)"
      if "\<not> deadline < ho_now h (fst s) + 200"
      using sleep_lasts [of "fst s" 200] that by simp
    with less.hyps [of "(ho_sleep h 200 (fst s), snd s)"] sleep less.prems show ?case
      by (subst look_for_relation.simps) (cases "relation_logged h s"; cases "deadline < ho_now h (fst s) + 200"; auto)
  qed
  then show ?thesis by (simp add: keeps_def)
qed

lemma keeps_read_lsn [keeping]: "keeps I (test_read_lsn h)"
  by (auto simp: keeps_def test_read_lsn_def finish_def panic_def split: option.splits sum.splits)

lemma keeps_result [keeping]: "keeps I (expect_result r)"
  by (cases r) (simp_all add: expect_result_def keeping)

lemma keeps_get_metrics [keeping]: "keeps (running base) (expect_call (get_metrics_for h port))"
  unfolding get_metrics_for_def using others(8) by (intro keeps_call(1)) blast

lemma keeps_insert_a [keeping]: "keeps (running base) (insert_a h)"
  unfolding insert_a_def by (intro keeping)

lemma keeps_lsn_above_one [keeping]: "keeps (running base) (lsn_above_one h)"
  unfolding lsn_above_one_def by (intro keeping)

lemma keeps_check_lines [keeping]: "keeps I (check_lines ls)"
  by (auto simp: check_lines_def keeping split: option.splits)

lemma keeps_all_tests:
  assumes "body \<in> set (all_tests parse h)"
  shows "keeps (running base) body"
proof -
  have "keeps (running base) (simple_insert h)" "keeps (running base) (multiple_inserts h)"
    "keeps (running base) (insert_update h)" "keeps (running base) (insert_delete h)"
    "keeps (running base) (rollback_not_applied h)" "keeps (running base) (lsn_checkpoint_persists h)"
    "keeps (running base) (check_metrics parse h)"
    unfolding simple_insert_def multiple_inserts_def insert_update_def insert_delete_def
      rollback_not_applied_def lsn_checkpoint_persists_def check_metrics_def
    by (intro keeping)+
  moreover have "keeps (running base) (rel_msg_pub h)"
    unfolding rel_msg_pub_def
    by (intro keeping keeps_state [where f = "\<lambda>s. look_for_relation h (ho_now h (fst s) + 10000)"] keeps_look_for_relation)
  moreover have "keeps (running base) (producer_restart_resumes_lsn h)"
    unfolding producer_restart_resumes_lsn_def
    by (intro keeping keeps_state [where f = "\<lambda>s. assert_that (\<not> started_at_zero h s)"])
  moreover have "keeps (running base) (sink_restart_resumes_offset h)"
    unfolding sink_restart_resumes_offset_def
    by (intro keeping keeps_state [where f = "\<lambda>s. await (assert_that (contains ''b@x.com'' (connector_output h s)))
      (\<lambda>_. assert_that (\<not> contains ''a@x.com'' (connector_output h s)))"])
  moreover have "keeps (running base) (check_ordering h)"
    unfolding check_ordering_def
    by (intro keeping keeps_state [where f = "\<lambda>s. check_lines (stdout_lines h (postgres_connector (snd s)) (fst s))"])
  ultimately show ?thesis using assms unfolding all_tests_def by auto
qed

end

text \<open>
  The last assertion of \<open>producer_restart_resumes_lsn\<close> holds of any producer that has not printed anything
  when it has just been started: nothing waits for its first lines.
\<close>

lemma restart_assertion_is_empty:
  assumes "\<And>cmd w child w'. ho_spawn h cmd w = (Inr child, w') \<Longrightarrow> ho_stdout h child w' = []"
    and "\<And>child c w. ho_stdout h child (snd (ho_kill h c w)) = ho_stdout h child w"
    and "restart_producer h s = Some (Some (), s')"
  shows "\<not> started_at_zero h s'"
proof -
  obtain w1 s1 child w where s: "ho_spawn h cdc_producer_command w1 = (Inr child, w)"
    "kill_binary h (cdc_producer (snd s)) (w, s1\<lparr>cdc_producer := child\<rparr>) = Some (Some (), s')"
    using assms(3)
    by (auto simp: restart_producer_def await_def spawn_binary_def expect_call_def Let_def
        split: option.splits prod.splits sum.splits)
  then have "fst s' = snd (ho_kill h (cdc_producer (snd s)) w)" "cdc_producer (snd s') = child"
    by (auto simp: kill_binary_def expect_call_def split: sum.splits prod.splits)
  then have "ho_stdout h (cdc_producer (snd s')) (fst s') = []" using assms(1) [OF s(1)] assms(2) by simp
  then show ?thesis by (simp add: started_at_zero_def stdout_lines_def captured_def)
qed

subsection \<open>What the tests see\<close>

definition test_rows :: "(string \<times> string) list" where
  "test_rows = [(''e2e'', ''e2e@test.com''), (''a'', ''a@x.com''), (''b'', ''b@x.com''), (''a'', ''b@x.com'')]"

text \<open>The SQL texts of the tests, as PostgreSQL reads them.\<close>

locale test_texts =
  fixes script_of :: "string \<Rightarrow> sql list option" and query_of :: "string \<Rightarrow> (string \<times> string) option"
  assumes scripts: "script_of (insert_sql ''e2e'' ''e2e@test.com'') = Some [InsertUser ''e2e'' ''e2e@test.com'']"
      "script_of two_inserts_sql = Some [BeginTx, InsertUser ''a'' ''a@x.com'', InsertUser ''b'' ''b@x.com'', CommitTx]"
      "script_of (insert_sql ''a'' ''a@x.com'' @ '';'') = Some [InsertUser ''a'' ''a@x.com'']"
      "script_of update_sql = Some [SetEmail ''b@x.com'' ''a'']"
      "script_of delete_sql = Some [DeleteUser ''a'']"
      "script_of rollback_sql = Some [BeginTx, InsertUser ''a'' ''a@x.com'', RollbackTx]"
    and queries: "(name, email) \<in> set test_rows \<Longrightarrow> op \<in> {'' AND '', '' and ''} \<Longrightarrow>
      query_of (row_query ''users'' (row_clause op name email)) = Some (name, email)"

text \<open>The sink's table with all that was committed, and before anything of a test has arrived.\<close>

abbreviation (input) sink_after :: "user_change list \<Rightarrow> table" where
  "sink_after cs \<equiv> fold apply_change cs sink_start"

lemma shown_all:
  assumes "\<forall>(u, cs)\<in>set log. u + latency \<le> t" and "4000 + latency \<le> t"
  shows "shown latency t log = sink_after (concat (map snd log))"
proof -
  have "filter (\<lambda>(u, cs). u + latency \<le> t) log = log" using assms(1) by (simp add: filter_id_conv)
  then show ?thesis using assms(2) by (simp add: shown_def due_def)
qed

lemma shown_pending:
  assumes "\<forall>(u, cs)\<in>set log. t < u + latency"
  shows "shown latency t ((0, seed) # log) \<in> {sink_start, sink_after seed}"
proof -
  have "filter (\<lambda>(u, cs). u + latency \<le> t) log = []" using assms by (auto simp: filter_empty_conv)
  then show ?thesis by (simp add: shown_def due_def)
qed

lemma no_row_before:
  "name \<in> {''a'', ''b'', ''e2e''} \<Longrightarrow> T \<in> {sink_start, sink_after seed} \<Longrightarrow> \<not> has_row T name email"
  by (auto simp: has_row_def seed_def sink_start_def row_params_def split: if_splits)

lemma has_rowI: "T k = Some (row_params i name email) \<Longrightarrow> has_row T name email"
  unfolding has_row_def by (intro exI [of _ k] exI [of _ "row_params i name email"]) (simp add: row_params_def)

lemma has_row_updated: "has_row (T([SqlInt4 i] \<mapsto> row_params i name email)) name email"
  by (rule has_rowI [of _ "[SqlInt4 i]" i]) simp

lemma has_row_deleted: "\<not> has_row T name email \<Longrightarrow> \<not> has_row (T(k := None)) name email"
  by (auto simp: has_row_def split: if_splits)

text \<open>The verdict of a wait that begins right after the first statement of a test.\<close>

lemma first_wait:
  assumes "latency \<le> 3000" and "name \<in> {''a'', ''b'', ''e2e''}" and "has_row (sink_after (seed @ cs)) name email"
  shows "(\<exists>k. 500 * k \<le> TWO_SECONDS \<and> has_row (shown latency (5000 + 500 * k) [(0, seed), (5000, cs)]) name email) \<longleftrightarrow>
    latency \<le> 2000"
proof
  assume "latency \<le> 2000"
  then have "shown latency (5000 + 500 * 4) [(0, seed), (5000, cs)] = sink_after (seed @ cs)"
    by (subst shown_all) simp_all
  then show "\<exists>k. 500 * k \<le> TWO_SECONDS \<and> has_row (shown latency (5000 + 500 * k) [(0, seed), (5000, cs)]) name email"
    using assms(3) by (intro exI [of _ 4]) (simp add: TWO_SECONDS_def)
next
  assume "\<exists>k. 500 * k \<le> TWO_SECONDS \<and> has_row (shown latency (5000 + 500 * k) [(0, seed), (5000, cs)]) name email"
  then obtain k where k: "500 * k \<le> 2000" "has_row (shown latency (5000 + 500 * k) [(0, seed), (5000, cs)]) name email"
    by (auto simp: TWO_SECONDS_def)
  have "\<not> 5000 + 500 * k < 5000 + latency"
    using shown_pending [of "[(5000, cs)]" "5000 + 500 * k" latency] no_row_before [OF assms(2)] k(2) by auto
  then show "latency \<le> 2000" using k(1) by simp
qed

text \<open>A later one, when everything has arrived within two seconds.\<close>

lemma later_wait:
  assumes "latency \<le> 2000" and "\<forall>(u, cs)\<in>set log. u \<le> t" and "5000 \<le> t"
    and "has_row (sink_after (concat (map snd log))) name email"
  shows "\<exists>k. 500 * k \<le> TWO_SECONDS \<and> has_row (shown latency (t + 500 * k) log) name email"
proof -
  have "shown latency (t + 500 * 4) log = sink_after (concat (map snd log))"
    using assms(1-3) by (intro shown_all) auto
  then show ?thesis using assms(4) by (intro exI [of _ 4]) (simp add: TWO_SECONDS_def)
qed

lemma user_a_id:
  "ids_named 5 (fold apply_change (seed @ [Inserted 4 ''a'' email]) Map.empty) ''a'' = [4]"
proof -
  have "[1..<5] = [1, 2, 3, 4 :: nat]" by (simp add: upt_rec)
  then show ?thesis by (simp add: ids_named_def seed_def row_params_def)
qed

lemma name_a: "''a'' \<in> {''a'', ''b'', ''e2e''}" and name_e2e: "''e2e'' \<in> {''a'', ''b'', ''e2e''}"
  by simp_all

context test_texts begin

lemma users_polls:
  assumes "tested latency t log n w" and "(name, email) \<in> set test_rows" and "op \<in> {'' AND '', '' and ''}"
    and "sink_client self = 5401"
  shows "\<exists>r w' k. wait_for_sink_row (simulated_host script_of query_of latency) ''users'' (row_clause op name email)
        TWO_SECONDS (w, self) = Some (r, (w', self)) \<and> tested latency (t + 500 * k) log n w' \<and>
      (r = Some () \<longleftrightarrow> (\<exists>k. 500 * k \<le> TWO_SECONDS \<and> has_row (shown latency (t + 500 * k) log) name email))"
    and "\<exists>r w' k. not_sink_row (simulated_host script_of query_of latency) ''users'' (row_clause op name email)
        TWO_SECONDS (w, self) = Some (r, (w', self)) \<and> tested latency (t + 500 * k) log n w' \<and>
      (r = Some () \<longleftrightarrow> (\<forall>k. 500 * k \<le> TWO_SECONDS \<longrightarrow> \<not> has_row (shown latency (t + 500 * k) log) name email))"
  using tested_wait [where script_of = script_of and query_of = query_of and table = "''users''" and
      clause = "row_clause op name email" and timeout = TWO_SECONDS, OF assms(1) queries [OF assms(2,3)] assms(4)]
  by blast+

lemma insert_a_verdict:
  assumes "tested latency 5000 [(0, seed)] 4 w" and "src_client self = 5400" and "sink_client self = 5401"
  shows "\<exists>r w' k. insert_a (simulated_host script_of query_of latency) (w, self) = Some (r, (w', self)) \<and>
    tested latency (5000 + 500 * k) [(0, seed), (5000, [Inserted 4 ''a'' ''a@x.com''])] 5 w' \<and>
    (r = Some () \<longleftrightarrow> latency \<le> 2000)"
proof -
  let ?h = "simulated_host script_of query_of latency" and ?cs = "[Inserted 4 ''a'' ''a@x.com'']"
  have lat: "latency \<le> 3000" using assms(1) by (simp add: tested_def infra_up_def)
  obtain T where run: "run_script [InsertUser ''a'' ''a@x.com''] 4 (fold apply_change (concat (map snd [(0 :: nat, seed)])) Map.empty) None = (5, T, [?cs])"
    by simp
  have send: "\<forall>cs\<in>set [?cs]. \<forall>c\<in>set cs. sendable c" by simp
  obtain w1 where w1: "exec_on_source ?h (insert_sql ''a'' ''a@x.com'' @ '';'') (w, self) = Some (Some (), (w1, self))"
    "tested latency 5000 [(0, seed), (5000, ?cs)] 5 w1"
    using tested_exec [where script_of = script_of and query_of = query_of, OF assms(1) scripts(3) run send assms(2)] by auto
  have row: "has_row (sink_after (seed @ ?cs)) ''a'' ''a@x.com''" by (simp add: has_row_updated)
  have q: "(''a'', ''a@x.com'') \<in> set test_rows" "'' AND '' \<in> {'' AND '', '' and ''}" by (simp_all add: test_rows_def)
  show ?thesis
    using users_polls(1) [OF w1(2) q assms(3)]
      first_wait [OF lat name_a row] w1(1)
    by (simp add: insert_a_def await_def)
qed

lemma simple_insert_verdict:
  assumes "tested latency 5000 [(0, seed)] 4 w" and "src_client self = 5400" and "sink_client self = 5401"
  shows "\<exists>r s. simple_insert (simulated_host script_of query_of latency) (w, self) = Some (r, s) \<and>
    (r = Some () \<longleftrightarrow> latency \<le> 2000)"
proof -
  let ?h = "simulated_host script_of query_of latency" and ?cs = "[Inserted 4 ''e2e'' ''e2e@test.com'']"
  have lat: "latency \<le> 3000" using assms(1) by (simp add: tested_def infra_up_def)
  obtain T where run: "run_script [InsertUser ''e2e'' ''e2e@test.com''] 4 (fold apply_change (concat (map snd [(0 :: nat, seed)])) Map.empty) None = (5, T, [?cs])"
    by simp
  have send: "\<forall>cs\<in>set [?cs]. \<forall>c\<in>set cs. sendable c" by simp
  obtain w1 where w1: "exec_on_source ?h (insert_sql ''e2e'' ''e2e@test.com'') (w, self) = Some (Some (), (w1, self))"
    "tested latency 5000 [(0, seed), (5000, ?cs)] 5 w1"
    using tested_exec [where script_of = script_of and query_of = query_of, OF assms(1) scripts(1) run send assms(2)] by auto
  have row: "has_row (sink_after (seed @ ?cs)) ''e2e'' ''e2e@test.com''" by (simp add: has_row_updated)
  have q: "(''e2e'', ''e2e@test.com'') \<in> set test_rows" "'' AND '' \<in> {'' AND '', '' and ''}" by (simp_all add: test_rows_def)
  show ?thesis
    using users_polls(1) [OF w1(2) q assms(3)]
      first_wait [OF lat name_e2e row] w1(1)
    by (auto simp: simple_insert_def await_def)
qed

lemma multiple_inserts_verdict:
  assumes "tested latency 5000 [(0, seed)] 4 w" and "src_client self = 5400" and "sink_client self = 5401"
  shows "\<exists>r s. multiple_inserts (simulated_host script_of query_of latency) (w, self) = Some (r, s) \<and>
    (r = Some () \<longleftrightarrow> latency \<le> 2000)"
proof -
  let ?h = "simulated_host script_of query_of latency"
  let ?cs = "[Inserted 4 ''a'' ''a@x.com'', Inserted 5 ''b'' ''b@x.com'']"
  let ?log = "[(0, seed), (5000, ?cs)]"
  have lat: "latency \<le> 3000" using assms(1) by (simp add: tested_def infra_up_def)
  obtain T where run: "run_script [BeginTx, InsertUser ''a'' ''a@x.com'', InsertUser ''b'' ''b@x.com'', CommitTx] 4 (fold apply_change (concat (map snd [(0 :: nat, seed)])) Map.empty) None = (6, T, [?cs])"
    by simp
  have send: "\<forall>cs\<in>set [?cs]. \<forall>c\<in>set cs. sendable c" by simp
  obtain w1 where w1: "exec_on_source ?h two_inserts_sql (w, self) = Some (Some (), (w1, self))"
    "tested latency 5000 ?log 6 w1"
    using tested_exec [where script_of = script_of and query_of = query_of, OF assms(1) scripts(2) run send assms(2)] by auto
  have rows: "has_row (sink_after (seed @ ?cs)) ''a'' ''a@x.com''" "has_row (sink_after (seed @ ?cs)) ''b'' ''b@x.com''"
    by (rule has_rowI [of _ "[SqlInt4 4]" 4], simp) (rule has_rowI [of _ "[SqlInt4 5]" 5], simp)
  have q: "(''a'', ''a@x.com'') \<in> set test_rows" "'' AND '' \<in> {'' AND '', '' and ''}"
    "(''b'', ''b@x.com'') \<in> set test_rows" "'' and '' \<in> {'' AND '', '' and ''}"
    by (simp_all add: test_rows_def)
  have "\<exists>r w2 k. wait_for_sink_row ?h ''users'' (row_clause '' AND '' ''a'' ''a@x.com'') TWO_SECONDS (w1, self) =
      Some (r, (w2, self)) \<and> tested latency (5000 + 500 * k) ?log 6 w2 \<and> (r = Some () \<longleftrightarrow> latency \<le> 2000)"
    using users_polls(1) [OF w1(2) q(1,2) assms(3)] first_wait [OF lat name_a rows(1)] by simp
  then obtain r w2 k where w2: "wait_for_sink_row ?h ''users'' (row_clause '' AND '' ''a'' ''a@x.com'') TWO_SECONDS (w1, self) =
      Some (r, (w2, self))" "tested latency (5000 + 500 * k) ?log 6 w2" "r = Some () \<longleftrightarrow> latency \<le> 2000"
    by blast
  show ?thesis
  proof (cases "latency \<le> 2000")
    case True
    have "\<exists>j. 500 * j \<le> TWO_SECONDS \<and> has_row (shown latency (5000 + 500 * k + 500 * j) ?log) ''b'' ''b@x.com''"
      using True rows(2) by (intro later_wait) simp_all
    then show ?thesis
      using users_polls(1) [OF w2(2) q(3,4) assms(3)] w1(1) w2(1,3) True
      by (auto simp: multiple_inserts_def await_def)
  next
    case False
    then show ?thesis using w1(1) w2(1,3) by (cases r) (auto simp: multiple_inserts_def await_def)
  qed
qed

lemma insert_update_verdict:
  assumes "tested latency 5000 [(0, seed)] 4 w" and "src_client self = 5400" and "sink_client self = 5401"
  shows "\<exists>r s. insert_update (simulated_host script_of query_of latency) (w, self) = Some (r, s) \<and>
    (r = Some () \<longleftrightarrow> latency \<le> 2000)"
proof -
  let ?h = "simulated_host script_of query_of latency"
  let ?cs = "[Inserted 4 ''a'' ''a@x.com'']" and ?us = "[Updated 4 ''a'' ''b@x.com'']"
  obtain r w1 k where w1: "insert_a ?h (w, self) = Some (r, (w1, self))"
    "tested latency (5000 + 500 * k) [(0, seed), (5000, ?cs)] 5 w1" "r = Some () \<longleftrightarrow> latency \<le> 2000"
    using insert_a_verdict [OF assms] by blast
  show ?thesis
  proof (cases "latency \<le> 2000")
    case True
    let ?t = "5000 + 500 * k" and ?log = "[(0, seed), (5000, ?cs), (5000 + 500 * k, ?us)]"
    obtain T where run: "run_script [SetEmail ''b@x.com'' ''a''] 5
        (fold apply_change (concat (map snd [(0 :: nat, seed), (5000, ?cs)])) Map.empty) None = (5, T, [?us])"
      using user_a_id [of "''a@x.com''"] by simp
    have send: "\<forall>cs\<in>set [?us]. \<forall>c\<in>set cs. sendable c" by simp
    obtain w2 where w2: "exec_on_source ?h update_sql (w1, self) = Some (Some (), (w2, self))" "tested latency ?t ?log 5 w2"
      using tested_exec [where script_of = script_of and query_of = query_of, OF w1(2) scripts(4) run send assms(2)] by auto
    have q: "(''a'', ''b@x.com'') \<in> set test_rows" "'' AND '' \<in> {'' AND '', '' and ''}" by (simp_all add: test_rows_def)
    have "\<exists>j. 500 * j \<le> TWO_SECONDS \<and> has_row (shown latency (?t + 500 * j) ?log) ''a'' ''b@x.com''"
      using True by (intro later_wait) (simp_all add: has_row_updated)
    then show ?thesis
      using users_polls(1) [OF w2(2) q assms(3)] w1(1,3) w2(1) True by (auto simp: insert_update_def await_def)
  next
    case False
    then show ?thesis using w1(1,3) by (cases r) (auto simp: insert_update_def await_def)
  qed
qed

lemma insert_delete_verdict:
  assumes "tested latency 5000 [(0, seed)] 4 w" and "src_client self = 5400" and "sink_client self = 5401"
  shows "\<exists>r s. insert_delete (simulated_host script_of query_of latency) (w, self) = Some (r, s) \<and>
    (r = Some () \<longleftrightarrow> latency \<le> 2000)"
proof -
  let ?h = "simulated_host script_of query_of latency"
  let ?cs = "[Inserted 4 ''a'' ''a@x.com'']" and ?ds = "[Deleted 4]"
  obtain r w1 k where w1: "insert_a ?h (w, self) = Some (r, (w1, self))"
    "tested latency (5000 + 500 * k) [(0, seed), (5000, ?cs)] 5 w1" "r = Some () \<longleftrightarrow> latency \<le> 2000"
    using insert_a_verdict [OF assms] by blast
  show ?thesis
  proof (cases "latency \<le> 2000")
    case True
    let ?t = "5000 + 500 * k" and ?log = "[(0, seed), (5000, ?cs), (5000 + 500 * k, ?ds)]"
    obtain T where run: "run_script [DeleteUser ''a''] 5
        (fold apply_change (concat (map snd [(0 :: nat, seed), (5000, ?cs)])) Map.empty) None = (5, T, [?ds])"
      using user_a_id [of "''a@x.com''"] by simp
    have send: "\<forall>cs\<in>set [?ds]. \<forall>c\<in>set cs. sendable c" by simp
    obtain w2 where w2: "exec_on_source ?h delete_sql (w1, self) = Some (Some (), (w2, self))" "tested latency ?t ?log 5 w2"
      using tested_exec [where script_of = script_of and query_of = query_of, OF w1(2) scripts(5) run send assms(2)] by auto
    let ?w3 = "ho_sleep ?h 3000 w2"
    have w3: "tested latency (?t + 3000) ?log 5 ?w3" by (rule tested_sleep [OF w2(2)])
    have gone: "\<not> has_row (sink_after (seed @ ?cs @ ?ds)) ''a'' ''a@x.com''"
      using no_row_before [OF name_a, of "sink_after seed"] by (auto simp: has_row_def split: if_splits)
    have "shown latency (?t + 3000 + 500 * j) ?log = sink_after (seed @ ?cs @ ?ds)" for j
      using True by (subst shown_all) auto
    then have "\<forall>j. 500 * j \<le> TWO_SECONDS \<longrightarrow> \<not> has_row (shown latency (?t + 3000 + 500 * j) ?log) ''a'' ''a@x.com''"
      using gone by simp
    moreover have q: "(''a'', ''a@x.com'') \<in> set test_rows" "'' AND '' \<in> {'' AND '', '' and ''}" by (simp_all add: test_rows_def)
    ultimately show ?thesis
      using users_polls(2) [OF w3 q assms(3)] w1(1,3) w2(1) True by (auto simp: insert_delete_def await_def sleeping_def)
  next
    case False
    then show ?thesis using w1(1,3) by (cases r) (auto simp: insert_delete_def await_def)
  qed
qed

lemma rollback_verdict:
  assumes "tested latency 5000 [(0, seed)] 4 w" and "src_client self = 5400" and "sink_client self = 5401"
  shows "\<exists>s. rollback_not_applied (simulated_host script_of query_of latency) (w, self) = Some (Some (), s)"
proof -
  let ?h = "simulated_host script_of query_of latency" and ?log = "[(0 :: nat, seed)]"
  obtain T where run: "run_script [BeginTx, InsertUser ''a'' ''a@x.com'', RollbackTx] 4
      (fold apply_change (concat (map snd ?log)) Map.empty) None = (5, T, [])"
    by simp
  have send: "\<forall>cs\<in>set []. \<forall>c\<in>set cs. sendable c" by simp
  obtain w2 where w2: "exec_on_source ?h rollback_sql (w, self) = Some (Some (), (w2, self))" "tested latency 5000 ?log 5 w2"
    using tested_exec [where script_of = script_of and query_of = query_of, OF assms(1) scripts(6) run send assms(2)] by auto
  let ?w3 = "ho_sleep ?h 3000 w2"
  have w3: "tested latency (5000 + 3000) ?log 5 ?w3" by (rule tested_sleep [OF w2(2)])
  have "\<forall>j. 500 * j \<le> TWO_SECONDS \<longrightarrow> \<not> has_row (shown latency (5000 + 3000 + 500 * j) ?log) ''a'' ''a@x.com''"
    using shown_pending [of "[]"] no_row_before [OF name_a] by simp
  moreover have q: "(''a'', ''a@x.com'') \<in> set test_rows" "'' AND '' \<in> {'' AND '', '' and ''}" by (simp_all add: test_rows_def)
  ultimately show ?thesis
    using users_polls(2) [OF w3 q assms(3)] w2(1) by (auto simp: rollback_not_applied_def await_def sleeping_def)
qed

lemma lsn_checkpoint_verdict:
  assumes "tested latency 5000 [(0, seed)] 4 w" and "src_client self = 5400" and "sink_client self = 5401"
  shows "\<exists>r s. lsn_checkpoint_persists (simulated_host script_of query_of latency) (w, self) = Some (r, s) \<and>
    (r = Some () \<longleftrightarrow> latency \<le> 2000)"
proof -
  let ?h = "simulated_host script_of query_of latency" and ?log = "[(0, seed), (5000, [Inserted 4 ''a'' ''a@x.com''])]"
  obtain r w1 k where w1: "insert_a ?h (w, self) = Some (r, (w1, self))"
    "tested latency (5000 + 500 * k) ?log 5 w1" "r = Some () \<longleftrightarrow> latency \<le> 2000"
    using insert_a_verdict [OF assms] by blast
  have up: "''localhost:9092'' \<in> set (sm_brokers w1)" "latency \<le> 3000"
    and log: "b_batches (sm_kafka w1) = user_batches (due latency (5000 + 500 * k) ?log)"
    using w1(2) by (simp_all add: tested_def infra_up_def)
  have "length (due latency (5000 + 500 * k) ?log) \<in> {1, 2}"
    using up(2) by (auto simp: due_def)
  then have "last (0 # map end_lsn [1..<length (due latency (5000 + 500 * k) ?log) + 1]) \<in> {end_lsn 1, end_lsn 2}"
    by (elim insertE) (simp_all add: upt_rec numeral_2_eq_2)
  then obtain lsn where lsn: "read_lsn (\<lambda>t. Inr (topic_messages (b_batches (sm_kafka w1)) t)) test_config = Inr lsn" "1 < lsn"
    unfolding log users_lsn by (auto simp: end_lsn_def)
  have "ho_consumer ?h test_lsn_settings w1 = Some (\<lambda>t. Inr (topic_messages (b_batches (sm_kafka w1)) t))"
    using up(1) by (simp add: simulated_host_def kafka_reached_def test_lsn_settings_def)
  from test_read_lsn_read_lsn [OF this, of test_config self] have
    "lsn_above_one ?h (w1, self) = Some (Some (), (w1, self))"
    using lsn by (simp add: lsn_above_one_def await_def test_config_def expect_result_def finish_def assert_that_def)
  then show ?thesis
    using w1(1,3) by (cases r) (auto simp: lsn_checkpoint_persists_def await_def)
qed

end

subsection \<open>Properties\<close>

text \<open>The texts of the tests, read.\<close>

definition sample_scripts :: "string \<Rightarrow> sql list option" where
  "sample_scripts =
     map_of
       [(insert_sql ''e2e'' ''e2e@test.com'', [InsertUser ''e2e'' ''e2e@test.com'']),
        (two_inserts_sql, [BeginTx, InsertUser ''a'' ''a@x.com'', InsertUser ''b'' ''b@x.com'', CommitTx]),
        (insert_sql ''a'' ''a@x.com'' @ '';'', [InsertUser ''a'' ''a@x.com'']),
        (update_sql, [SetEmail ''b@x.com'' ''a'']),
        (delete_sql, [DeleteUser ''a'']),
        (rollback_sql, [BeginTx, InsertUser ''a'' ''a@x.com'', RollbackTx])]"

definition sample_queries :: "string \<Rightarrow> (string \<times> string) option" where
  "sample_queries =
     map_of (concat (map (\<lambda>(name, email).
       map (\<lambda>op. (row_query ''users'' (row_clause op name email), (name, email))) ['' AND '', '' and '']) test_rows))"

interpretation sample_texts: test_texts sample_scripts sample_queries
proof
  show "sample_scripts (insert_sql ''e2e'' ''e2e@test.com'') = Some [InsertUser ''e2e'' ''e2e@test.com'']"
    "sample_scripts two_inserts_sql = Some [BeginTx, InsertUser ''a'' ''a@x.com'', InsertUser ''b'' ''b@x.com'', CommitTx]"
    "sample_scripts (insert_sql ''a'' ''a@x.com'' @ '';'') = Some [InsertUser ''a'' ''a@x.com'']"
    "sample_scripts update_sql = Some [SetEmail ''b@x.com'' ''a'']"
    "sample_scripts delete_sql = Some [DeleteUser ''a'']"
    "sample_scripts rollback_sql = Some [BeginTx, InsertUser ''a'' ''a@x.com'', RollbackTx]"
    by (simp_all add: sample_scripts_def insert_sql_def two_inserts_sql_def update_sql_def delete_sql_def
        rollback_sql_def quoted_def newline_def)
  have all: "\<forall>(name, email)\<in>set test_rows. \<forall>op\<in>{'' AND '', '' and ''}.
      sample_queries (row_query ''users'' (row_clause op name email)) = Some (name, email)"
    by (simp add: test_rows_def sample_queries_def row_query_def row_clause_def quoted_def)
  fix name email op
  assume "(name, email) \<in> set test_rows" "op \<in> {'' AND '', '' and ''}"
  then show "sample_queries (row_query ''users'' (row_clause op name email)) = Some (name, email)"
    using all by blast
qed

text \<open>
  C2: what the end-to-end tests decide.  On a host whose containers, builds and programs work as their
  configurations say, and whose SQL is read as PostgreSQL reads it, with the two \<open>main\<close> functions between the
  two databases: if the pipeline takes at most three seconds (the time the set-up gives the producer before it starts
  the connector), the tests for one insert, two inserts, an update, a delete and the LSN all run to their end,
  and each passes exactly if the pipeline takes at most two seconds; the test for a rollback passes in any case.
\<close>

theorem end_to_end_tests_pass:
  assumes "test_texts script_of query_of" and "latency \<le> 3000" and "h = simulated_host script_of query_of latency"
  shows "(\<forall>body\<in>{simple_insert h, multiple_inserts h, insert_update h, insert_delete h, lsn_checkpoint_persists h}.
      \<exists>r s. run_test h body (sim_start, []) = Some (r, s) \<and> (r = Some () \<longleftrightarrow> latency \<le> 2000)) \<and>
    (\<exists>s. run_test h (rollback_not_applied h) (sim_start, []) = Some (Some (), s))"
proof -
  note run = run_test_simulated [where script_of = script_of and query_of = query_of and latency = latency, OF assms(2)]
  note verdicts = test_texts.simple_insert_verdict [OF assms(1)] test_texts.multiple_inserts_verdict [OF assms(1)]
    test_texts.insert_update_verdict [OF assms(1)] test_texts.insert_delete_verdict [OF assms(1)]
    test_texts.lsn_checkpoint_verdict [OF assms(1)]
  have "\<forall>body\<in>{simple_insert h, multiple_inserts h, insert_update h, insert_delete h, lsn_checkpoint_persists h}.
      \<exists>r s. run_test h body (sim_start, []) = Some (r, s) \<and> (r = Some () \<longleftrightarrow> latency \<le> 2000)"
    unfolding assms(3) by (intro ballI run) (elim insertE; use verdicts in simp)
  moreover have "\<exists>r s. run_test h (rollback_not_applied h) (sim_start, []) = Some (r, s) \<and> r = Some ()"
    unfolding assms(3) using test_texts.rollback_verdict [OF assms(1)] by (intro run) blast
  ultimately show ?thesis by blast
qed

theorem end_to_end_tests_pass_witness:
  "(\<exists>s. run_test (simulated_host sample_scripts sample_queries 1200)
      (insert_delete (simulated_host sample_scripts sample_queries 1200)) (sim_start, []) = Some (Some (), s)) \<and>
   (\<exists>s. run_test (simulated_host sample_scripts sample_queries 2500)
      (insert_delete (simulated_host sample_scripts sample_queries 2500)) (sim_start, []) = Some (None, s))"
proof -
  let ?test = "\<lambda>latency. run_test (simulated_host sample_scripts sample_queries latency)
      (insert_delete (simulated_host sample_scripts sample_queries latency)) (sim_start, [])"
  have verdict: "\<exists>r s. ?test latency = Some (r, s) \<and> (r = Some () \<longleftrightarrow> latency \<le> 2000)" if "latency \<le> 3000" for latency
    using end_to_end_tests_pass [OF sample_texts.test_texts_axioms that refl] by blast
  have "\<exists>r s. ?test 1200 = Some (r, s) \<and> r = Some ()" using verdict [of 1200] by simp
  moreover have "\<exists>r s. ?test 2500 = Some (r, s) \<and> r \<noteq> Some ()" using verdict [of 2500] by simp
  ultimately show ?thesis by (metis not_Some_eq old.unit.exhaust)
qed

text \<open>
  C29: no test leaves a process behind.  Over any host that keeps track of its children and whatever its
  calls answer (a container that does not start, a build or a query that fails, a program that cannot be
  started), every test of the suite comes to an end, passed or panicked, and of the programs it has
  started, or started again, none is running then.
\<close>

theorem tests_leave_no_process:
  assumes "process_host h live used" and "live w \<subseteq> used w" and "body \<in> set (all_tests parse h)"
  shows "\<exists>r w' ids'. run_test h body (w, ids) = Some (r, (w', ids')) \<and> live w' = live w"
  by (rule process_host.test_leaves_no_process [OF assms(1) process_host.keeps_all_tests [OF assms(1,3)] assms(2)])

theorem tests_leave_no_process_witness:
  "\<exists>r w'. run_test (simulated_host sample_scripts sample_queries 0)
      (sink_restart_resumes_offset (simulated_host sample_scripts sample_queries 0)) (sim_start, []) = Some (r, w') \<and>
    sim_live (fst w') = {}"
proof -
  let ?h = "simulated_host sample_scripts sample_queries 0"
  have "sim_live sim_start \<subseteq> {..<sm_next sim_start}" by (simp add: sim_live_def sim_start_def)
  moreover have "sink_restart_resumes_offset ?h \<in> set (all_tests (\<lambda>s. None :: nat option) ?h)" by (simp add: all_tests_def)
  ultimately obtain r w' ids where
    "run_test ?h (sink_restart_resumes_offset ?h) (sim_start, []) = Some (r, (w', ids))" "sim_live w' = sim_live sim_start"
    using tests_leave_no_process [OF simulated_processes.process_host_axioms] by blast
  then show ?thesis by (auto simp: sim_live_def sim_start_def)
qed

text \<open>
  C28: what the two polls decide.  Over any host whose clock does not go back and on which a sleep lasts at
  least as long as asked (queries may take their time, and may fail), both end.  \<open>wait_for_sink_row\<close> passes
  exactly if one of its looks begins within the timeout and finds the row while all looks before it
  answered that there is none; \<open>not_sink_row\<close> exactly if its looks up to the end of the timeout all
  answered that there is none.  In particular a failing query makes either of them panic.
\<close>

theorem polls_decide:
  assumes "host_clock h"
  shows "(\<exists>r w'. wait_for_sink_row h table where_clause timeout (w, self) = Some (r, (w', self)) \<and>
      (r = Some () \<longleftrightarrow>
        found_in_time h (sink_client self) (row_query table where_clause) (ho_now h w) timeout w)) \<and>
    (\<exists>r w'. not_sink_row h table where_clause timeout (w, self) = Some (r, (w', self)) \<and>
      (r = Some () \<longleftrightarrow>
        missing_in_time h (sink_client self) (row_query table where_clause) (ho_now h w) timeout w))"
  using host_clock.polls_verdict [OF assms]
  by (fastforce simp: wait_for_sink_row_def not_sink_row_def with_infra_def)

definition sample_infra :: Infra where
  "sample_infra =
     \<lparr>red_panda = ''9092'', src_postgres = ''5400'', src_client = 5400, sink_postgres = ''5401'', sink_client = 5401,
      cdc_producer = 0, postgres_connector = 1\<rparr>"

text \<open>Before the containers are started the first query fails.\<close>

theorem polls_decide_witness:
  "(\<exists>w'. wait_for_sink_row (simulated_host sample_scripts sample_queries 1200) ''users''
      (row_clause '' AND '' ''a'' ''a@x.com'') TWO_SECONDS (sim_start, sample_infra) = Some (None, (w', sample_infra))) \<and>
   (\<exists>w'. not_sink_row (simulated_host sample_scripts sample_queries 1200) ''users''
      (row_clause '' AND '' ''a'' ''a@x.com'') TWO_SECONDS (sim_start, sample_infra) = Some (None, (w', sample_infra)))"
proof -
  let ?h = "simulated_host sample_scripts sample_queries 1200" and ?q = "row_query ''users'' (row_clause '' AND '' ''a'' ''a@x.com'')"
  have "fst (ho_query_opt ?h c ?q sim_start) = Inl ''query failed''" for c
    by (simp add: simulated_host_def query_in_def sim_start_def split: option.split)
  then have "\<not> found_in_time ?h c ?q 0 TWO_SECONDS sim_start" "\<not> missing_in_time ?h c ?q 0 TWO_SECONDS sim_start" for c
    by (simp_all add: found_in_time_unfold [of _ _ _ _ _ sim_start] missing_in_time_unfold [of _ _ _ _ _ sim_start])
      (simp add: simulated_host_def sim_start_def)
  moreover have "ho_now ?h sim_start = 0" by (simp add: simulated_host_def sim_start_def)
  ultimately show ?thesis
    using polls_decide [OF simulated.host_clock_axioms, of sample_scripts sample_queries 1200 "''users''"
        "row_clause '' AND '' ''a'' ''a@x.com''" TWO_SECONDS sim_start sample_infra]
    by simp (metis not_Some_eq old.unit.exhaust)
qed

end
