(* ===== verification/Decoder_Tests.thy ===== *)
theory Decoder_Tests imports Message_Decoder begin

text \<open>
  The unit tests of \<open>cdc-wal-reader/src/decoder\<close>, every one of them, as statements on the model: the
  message of the test, the call, and the asserted result (each definition is one \<open>#[test]\<close> function).
  The model gives the asserted result on all of them, so it is the function the tests describe; the
  inputs beside them on which the code fails are the subject of the properties on truncated
  messages and on rows identified by their key.
\<close>

definition test_field_id :: Field where
  "test_field_id = \<lparr>f_is_key = True, f_name = ''id'', f_kind = FK_Int4\<rparr>"

definition test_key_field_id :: KeyField where
  "test_key_field_id = \<lparr>kf_name = ''id'', kf_kind = FK_Int4\<rparr>"

subsection \<open>Old and new tuples (\<open>common.rs\<close>)\<close>

definition test_common_empty_old_tuple_data_key :: bool where
  "test_common_empty_old_tuple_data_key \<longleftrightarrow>
     get_old_tuple_data x86_platform
      (bytes_of_str ''O'' @ [0, 0]) get_example_rel_data
     = Ok ([], 3)"

definition test_common_empty_key_tuple_data_key :: bool where
  "test_common_empty_key_tuple_data_key \<longleftrightarrow>
     get_old_tuple_data x86_platform
      (bytes_of_str ''K'' @ [0, 0]) get_example_rel_data_keys
     = Ok ([], 3)"

definition test_common_simple_old_tuple_data_object :: bool where
  "test_common_simple_old_tuple_data_object \<longleftrightarrow>
     get_old_tuple_data x86_platform
      (bytes_of_str ''O'' @ [0, 2] @ bytes_of_str ''b'' @ [0, 0, 0, 4, 0, 0, 0, 1]
       @ bytes_of_str ''t'' @ [0, 0, 0, 5] @ bytes_of_str ''hello'') get_example_rel_data
     = Ok ([Int4 1, Text ''hello''], 22)"

definition test_common_simple_get_new_tuple_data :: bool where
  "test_common_simple_get_new_tuple_data \<longleftrightarrow>
     get_new_tuple_data x86_platform
      (bytes_of_str ''N'' @ [0, 2] @ bytes_of_str ''b'' @ [0, 0, 0, 4, 0, 0, 0, 1]
       @ bytes_of_str ''t'' @ [0, 0, 0, 5] @ bytes_of_str ''hello'') (r_fields (inner get_example_rel_data)) False
     = Ok [col_byte_id, col_text_name]"

definition test_common_old_tuple_no_size :: bool where
  "test_common_old_tuple_no_size \<longleftrightarrow>
     get_old_tuple_data x86_platform
      (bytes_of_str ''O'') get_example_rel_data
     = Err TruncatedInput"

definition test_common_key_no_size :: bool where
  "test_common_key_no_size \<longleftrightarrow>
     get_old_tuple_data x86_platform
      (bytes_of_str ''K'') get_example_rel_data_keys
     = Err TruncatedInput"

definition test_common_empty_old :: bool where
  "test_common_empty_old \<longleftrightarrow>
     get_old_tuple_data x86_platform
      ([]) get_example_rel_data
     = Err TruncatedInput"

definition test_common_empty_new :: bool where
  "test_common_empty_new \<longleftrightarrow>
     get_new_tuple_data x86_platform
      ([]) (r_fields (inner get_example_rel_data)) False
     = Err TruncatedInput"

definition test_common_wrong_old_tuple_key :: bool where
  "test_common_wrong_old_tuple_key \<longleftrightarrow>
     get_old_tuple_data x86_platform
      (bytes_of_str ''C'') get_example_rel_data
     = Err (WrongOldTupleKey (byte_of_char (CHR ''C'')))"

definition test_common_wrong_new_tuple_key :: bool where
  "test_common_wrong_new_tuple_key \<longleftrightarrow>
     get_new_tuple_data x86_platform
      (bytes_of_str ''C'') (r_fields (inner get_example_rel_data)) False
     = Err (WrongNewTupleKey (byte_of_char (CHR ''C'')))"

lemma common_tests_pass:
  "test_common_empty_old_tuple_data_key"
  "test_common_empty_key_tuple_data_key"
  "test_common_simple_old_tuple_data_object"
  "test_common_simple_get_new_tuple_data"
  "test_common_old_tuple_no_size"
  "test_common_key_no_size"
  "test_common_empty_old"
  "test_common_empty_new"
  "test_common_wrong_old_tuple_key"
  "test_common_wrong_new_tuple_key"
  by code_simp+

subsection \<open>Rows (\<open>tuple_data.rs\<close>)\<close>

definition test_tuple_empty_data :: bool where
  "test_tuple_empty_data \<longleftrightarrow>
     tuple_parse x86_platform
      ([0, 0]) (r_fields get_example_rel) False
     = Ok ([], 2)"

definition test_tuple_one_byte_data :: bool where
  "test_tuple_one_byte_data \<longleftrightarrow>
     tuple_parse x86_platform
      ([0, 1] @ bytes_of_str ''b'' @ [0, 0, 0, 4, 0, 0, 0, 1]) (r_fields get_example_rel) False
     = Ok ([col_byte_id], 11)"

definition test_tuple_byte_and_text_data :: bool where
  "test_tuple_byte_and_text_data \<longleftrightarrow>
     tuple_parse x86_platform
      ([0, 2] @ bytes_of_str ''b'' @ [0, 0, 0, 4, 0, 0, 0, 1] @ bytes_of_str ''t''
       @ [0, 0, 0, 5] @ bytes_of_str ''hello'') (r_fields get_example_rel) False
     = Ok ([col_byte_id, col_text_name], 21)"

definition test_tuple_toasted_data :: bool where
  "test_tuple_toasted_data \<longleftrightarrow>
     tuple_parse x86_platform
      ([0, 1] @ bytes_of_str ''u'') (r_fields get_example_rel) True
     = Ok ([Toasted], 3)"

definition test_tuple_truncated_col :: bool where
  "test_tuple_truncated_col \<longleftrightarrow>
     tuple_parse x86_platform
      ([0]) (r_fields get_example_rel) False
     = Err TruncatedInput"

definition test_tuple_truncated_cols :: bool where
  "test_tuple_truncated_cols \<longleftrightarrow>
     tuple_parse x86_platform
      ([0, 1]) (r_fields get_example_rel) False
     = Err TruncatedInput"

definition test_tuple_wrong_tuple_type :: bool where
  "test_tuple_wrong_tuple_type \<longleftrightarrow>
     tuple_parse x86_platform
      ([0, 1] @ bytes_of_str ''c'') (r_fields get_example_rel) False
     = Err (WrongColTypeKey (byte_of_char (CHR ''c'')))"

definition test_tuple_truncated_t_size :: bool where
  "test_tuple_truncated_t_size \<longleftrightarrow>
     tuple_parse x86_platform
      ([0, 1] @ bytes_of_str ''t'') (r_fields get_example_rel) False
     = Err TruncatedInput"

definition test_tuple_truncated_t_data :: bool where
  "test_tuple_truncated_t_data \<longleftrightarrow>
     tuple_parse x86_platform
      ([0, 1] @ bytes_of_str ''t'' @ [0, 0, 0, 1]) (r_fields get_example_rel) False
     = Err TruncatedInput"

definition test_tuple_truncated_b_size :: bool where
  "test_tuple_truncated_b_size \<longleftrightarrow>
     tuple_parse x86_platform
      ([0, 1] @ bytes_of_str ''b'') (r_fields get_example_rel) False
     = Err TruncatedInput"

definition test_tuple_truncated_b_data :: bool where
  "test_tuple_truncated_b_data \<longleftrightarrow>
     tuple_parse x86_platform
      ([0, 1] @ bytes_of_str ''b'' @ [0, 0, 0, 4]) (r_fields get_example_rel) False
     = Err TruncatedInput"

definition test_tuple_wrong_b_size :: bool where
  "test_tuple_wrong_b_size \<longleftrightarrow>
     tuple_parse x86_platform
      ([0, 1] @ bytes_of_str ''b'' @ [0, 0, 0, 1]) (r_fields get_example_rel) False
     = Err (WrongFieldKind FK_Int4)"

definition test_tuple_more_fields_than_cols :: bool where
  "test_tuple_more_fields_than_cols \<longleftrightarrow>
     tuple_parse x86_platform
      ([0, 3] @ bytes_of_str ''b'' @ [0, 0, 0, 4, 0, 0, 0, 1] @ bytes_of_str ''nn'') (r_fields get_example_rel_keys) False
     = Err CorruptedInput"

definition test_tuple_non_update_toasted_error :: bool where
  "test_tuple_non_update_toasted_error \<longleftrightarrow>
     tuple_parse x86_platform
      ([0, 1] @ bytes_of_str ''u'') (r_fields get_example_rel_keys) False
     = Err ToastedValueOnNonUpdate"

lemma tuple_tests_pass:
  "test_tuple_empty_data"
  "test_tuple_one_byte_data"
  "test_tuple_byte_and_text_data"
  "test_tuple_toasted_data"
  "test_tuple_truncated_col"
  "test_tuple_truncated_cols"
  "test_tuple_wrong_tuple_type"
  "test_tuple_truncated_t_size"
  "test_tuple_truncated_t_data"
  "test_tuple_truncated_b_size"
  "test_tuple_truncated_b_data"
  "test_tuple_wrong_b_size"
  "test_tuple_more_fields_than_cols"
  "test_tuple_non_update_toasted_error"
  by code_simp+

subsection \<open>Relations (\<open>relation.rs\<close>)\<close>

definition test_relation_simple_relation :: bool where
  "test_relation_simple_relation \<longleftrightarrow>
     relation_parse x86_platform
      (bytes_of_str ''R'' @ [0, 0, 0, 1] @ bytes_of_str ''public'' @ [0]
       @ bytes_of_str ''users'' @ [0] @ bytes_of_str ''d'' @ [0, 1, 1]
       @ bytes_of_str ''id'' @ [0, 0, 0, 0, 23, 0, 0, 0, 0])
     = Ok \<lparr>inner = \<lparr>relation_oid = 1, r_name = ''users'', r_namespace = ''public'',
                  r_fields = [test_field_id], replica_id = Keys\<rparr>,
         key_fields = [test_key_field_id], key_indexes = [0]\<rparr>"

definition test_relation_simple_field :: bool where
  "test_relation_simple_field \<longleftrightarrow>
     parse_field x86_platform
      ([1] @ bytes_of_str ''id'' @ [0, 0, 0, 0, 23, 0, 0, 0, 0])
     = Ok (Physical test_field_id 12)"

definition test_relation_no_relation :: bool where
  "test_relation_no_relation \<longleftrightarrow>
     relation_parse x86_platform
      (bytes_of_str ''R'')
     = Err TruncatedInput"

definition test_relation_no_namespace :: bool where
  "test_relation_no_namespace \<longleftrightarrow>
     relation_parse x86_platform
      (bytes_of_str ''R'' @ [0, 0, 0, 0])
     = Err TruncatedInput"

definition test_relation_no_relname :: bool where
  "test_relation_no_relname \<longleftrightarrow>
     relation_parse x86_platform
      (bytes_of_str ''R'' @ [0, 0, 0, 1] @ bytes_of_str ''public'' @ [0])
     = Err TruncatedInput"

definition test_relation_namespace_unfinished :: bool where
  "test_relation_namespace_unfinished \<longleftrightarrow>
     relation_parse x86_platform
      (bytes_of_str ''R'' @ [0, 0, 0, 1] @ bytes_of_str ''public'')
     = Err TruncatedInput"

definition test_relation_relname_unfinished :: bool where
  "test_relation_relname_unfinished \<longleftrightarrow>
     relation_parse x86_platform
      (bytes_of_str ''R'' @ [0, 0, 0, 1] @ bytes_of_str ''public'' @ [0]
       @ bytes_of_str ''users'')
     = Err TruncatedInput"

definition test_relation_no_cols :: bool where
  "test_relation_no_cols \<longleftrightarrow>
     relation_parse x86_platform
      (bytes_of_str ''R'' @ [0, 0, 0, 1] @ bytes_of_str ''public'' @ [0]
       @ bytes_of_str ''users'' @ [0, 0])
     = Err TruncatedInput"

definition test_relation_wrong_cols :: bool where
  "test_relation_wrong_cols \<longleftrightarrow>
     relation_parse x86_platform
      (bytes_of_str ''R'' @ [0, 0, 0, 1] @ bytes_of_str ''public'' @ [0]
       @ bytes_of_str ''users'' @ [0] @ bytes_of_str ''d'' @ [0, 1])
     = Err TruncatedInput"

definition test_relation_no_colname :: bool where
  "test_relation_no_colname \<longleftrightarrow>
     relation_parse x86_platform
      (bytes_of_str ''R'' @ [0, 0, 0, 1] @ bytes_of_str ''public'' @ [0]
       @ bytes_of_str ''users'' @ [0] @ bytes_of_str ''d'' @ [0, 1, 1])
     = Err TruncatedInput"

definition test_relation_colname_unfinished :: bool where
  "test_relation_colname_unfinished \<longleftrightarrow>
     relation_parse x86_platform
      (bytes_of_str ''R'' @ [0, 0, 0, 1] @ bytes_of_str ''public'' @ [0]
       @ bytes_of_str ''users'' @ [0] @ bytes_of_str ''d'' @ [0, 1, 1]
       @ bytes_of_str ''id'')
     = Err TruncatedInput"

definition test_relation_no_type_oid :: bool where
  "test_relation_no_type_oid \<longleftrightarrow>
     relation_parse x86_platform
      (bytes_of_str ''R'' @ [0, 0, 0, 1] @ bytes_of_str ''public'' @ [0]
       @ bytes_of_str ''users'' @ [0] @ bytes_of_str ''d'' @ [0, 1, 1]
       @ bytes_of_str ''id'' @ [0])
     = Err TruncatedInput"

definition test_relation_no_attrmod :: bool where
  "test_relation_no_attrmod \<longleftrightarrow>
     relation_parse x86_platform
      (bytes_of_str ''R'' @ [0, 0, 0, 1] @ bytes_of_str ''public'' @ [0]
       @ bytes_of_str ''users'' @ [0] @ bytes_of_str ''d'' @ [0, 1, 1]
       @ bytes_of_str ''id'' @ [0, 0, 0, 0, 23])
     = Err TruncatedInput"

definition test_relation_wrong_type_oid :: bool where
  "test_relation_wrong_type_oid \<longleftrightarrow>
     relation_parse x86_platform
      (bytes_of_str ''R'' @ [0, 0, 0, 1] @ bytes_of_str ''public'' @ [0]
       @ bytes_of_str ''users'' @ [0] @ bytes_of_str ''d'' @ [0, 1, 1]
       @ bytes_of_str ''id'' @ [0, 0, 0, 0, 0, 0, 0, 0, 0])
     = Err (InvalidOid 0)"

lemma relation_tests_pass:
  "test_relation_simple_relation"
  "test_relation_simple_field"
  "test_relation_no_relation"
  "test_relation_no_namespace"
  "test_relation_no_relname"
  "test_relation_namespace_unfinished"
  "test_relation_relname_unfinished"
  "test_relation_no_cols"
  "test_relation_wrong_cols"
  "test_relation_no_colname"
  "test_relation_colname_unfinished"
  "test_relation_no_type_oid"
  "test_relation_no_attrmod"
  "test_relation_wrong_type_oid"
  by code_simp+

subsection \<open>Inserts (\<open>insert.rs\<close>)\<close>

definition test_insert_simple_insert :: bool where
  "test_insert_simple_insert \<longleftrightarrow>
     insert_parse x86_platform
      (bytes_of_str ''I'' @ [0, 0, 0, 1] @ bytes_of_str ''N'' @ [0, 2] @ bytes_of_str ''b''
       @ [0, 0, 0, 4, 0, 0, 0, 1] @ bytes_of_str ''t'' @ [0, 0, 0, 5]
       @ bytes_of_str ''hello'') get_example_rel_map
     = Ok (\<lparr>ev_op = Insert [Int4 1, Text ''hello''], ev_rel = 1\<rparr>, get_example_rel_data)"

definition test_insert_insert_complex :: bool where
  "test_insert_insert_complex \<longleftrightarrow>
     insert_parse x86_platform
      (bytes_of_str ''I'' @ [0, 0, 64, 6] @ bytes_of_str ''N'' @ [0, 3] @ bytes_of_str ''t''
       @ [0, 0, 0, 1] @ bytes_of_str ''1t'' @ [0, 0, 0, 3] @ bytes_of_str ''adat''
       @ [0, 0, 0, 15] @ bytes_of_str ''ada@example.com'') complex_relation_map
     = Ok (\<lparr>ev_op = Insert [Text ''1'', Text ''ada'', Text ''ada@example.com''], ev_rel = 16390\<rparr>,
         complex_relation)"

definition test_insert_no_rel_oid :: bool where
  "test_insert_no_rel_oid \<longleftrightarrow>
     insert_parse x86_platform
      (bytes_of_str ''I'') get_example_rel_map
     = Err TruncatedInput"

definition test_insert_wrong_rel_oid :: bool where
  "test_insert_wrong_rel_oid \<longleftrightarrow>
     insert_parse x86_platform
      (bytes_of_str ''I'' @ [0, 0, 0, 0]) get_example_rel_map
     = Err (UnknownRelation 0)"

definition test_insert_no_tuple :: bool where
  "test_insert_no_tuple \<longleftrightarrow>
     insert_parse x86_platform
      (bytes_of_str ''I'' @ [0, 0, 0, 1]) get_example_rel_map
     = Err TruncatedInput"

lemma insert_tests_pass:
  "test_insert_simple_insert"
  "test_insert_insert_complex"
  "test_insert_no_rel_oid"
  "test_insert_wrong_rel_oid"
  "test_insert_no_tuple"
  by code_simp+

subsection \<open>Deletes (\<open>delete.rs\<close>)\<close>

definition test_delete_simple_delete_key :: bool where
  "test_delete_simple_delete_key \<longleftrightarrow>
     delete_parse x86_platform
      (bytes_of_str ''D'' @ [0, 0, 0, 1] @ bytes_of_str ''K'' @ [0, 1] @ bytes_of_str ''b''
       @ [0, 0, 0, 4, 0, 0, 0, 1] @ bytes_of_str ''nn'') get_example_rel_map_keys
     = Ok (\<lparr>ev_op = Delete [Int4 1], ev_rel = 1\<rparr>, get_example_rel_data_keys)"

definition test_delete_simple_delete_object :: bool where
  "test_delete_simple_delete_object \<longleftrightarrow>
     delete_parse x86_platform
      (bytes_of_str ''D'' @ [0, 0, 0, 1] @ bytes_of_str ''O'' @ [0, 2] @ bytes_of_str ''b''
       @ [0, 0, 0, 4, 0, 0, 0, 1] @ bytes_of_str ''t'' @ [0, 0, 0, 5]
       @ bytes_of_str ''hello'') get_example_rel_map
     = Ok (\<lparr>ev_op = Delete [Int4 1, Text ''hello''], ev_rel = 1\<rparr>, get_example_rel_data)"

definition test_delete_example1 :: bool where
  "test_delete_example1 \<longleftrightarrow>
     delete_parse x86_platform
      (bytes_of_str ''D'' @ [0, 0, 64, 2] @ bytes_of_str ''K'' @ [0, 3] @ bytes_of_str ''b''
       @ [0, 0, 0, 4, 0, 0, 0, 4] @ bytes_of_str ''nn'') get_tests_rel_map
     = Ok (\<lparr>ev_op = Delete [Int4 4], ev_rel = 16386\<rparr>, get_tests_rel_data)"

definition test_delete_empty :: bool where
  "test_delete_empty \<longleftrightarrow>
     delete_parse x86_platform
      ([]) get_example_rel_map
     = Err TruncatedInput"

definition test_delete_no_relation_id :: bool where
  "test_delete_no_relation_id \<longleftrightarrow>
     delete_parse x86_platform
      (bytes_of_str ''D'') get_example_rel_map
     = Err TruncatedInput"

definition test_delete_no_tuple :: bool where
  "test_delete_no_tuple \<longleftrightarrow>
     delete_parse x86_platform
      (bytes_of_str ''D'' @ [0, 0, 0, 1]) get_example_rel_map
     = Err TruncatedInput"

definition test_delete_wrong_rel :: bool where
  "test_delete_wrong_rel \<longleftrightarrow>
     delete_parse x86_platform
      (bytes_of_str ''D'' @ [0, 0, 0, 0, 0, 0, 0, 0]) get_example_rel_map
     = Err (UnknownRelation 0)"

lemma delete_tests_pass:
  "test_delete_simple_delete_key"
  "test_delete_simple_delete_object"
  "test_delete_example1"
  "test_delete_empty"
  "test_delete_no_relation_id"
  "test_delete_no_tuple"
  "test_delete_wrong_rel"
  by code_simp+

subsection \<open>Updates (\<open>update.rs\<close>)\<close>

definition test_update_simple_update_key :: bool where
  "test_update_simple_update_key \<longleftrightarrow>
     update_parse x86_platform
      (bytes_of_str ''U'' @ [0, 0, 0, 1] @ bytes_of_str ''K'' @ [0, 1] @ bytes_of_str ''b''
       @ [0, 0, 0, 4, 0, 0, 0, 1] @ bytes_of_str ''nnN'' @ [0, 2] @ bytes_of_str ''b''
       @ [0, 0, 0, 4, 0, 0, 0, 1] @ bytes_of_str ''t'' @ [0, 0, 0, 5]
       @ bytes_of_str ''hello'') get_example_rel_map_keys
     = Ok (\<lparr>ev_op = Update [Int4 1] [Int4 1, Text ''hello''], ev_rel = 1\<rparr>,
         get_example_rel_data_keys)"

definition test_update_simple_update_object :: bool where
  "test_update_simple_update_object \<longleftrightarrow>
     update_parse x86_platform
      (bytes_of_str ''U'' @ [0, 0, 0, 1] @ bytes_of_str ''O'' @ [0, 2] @ bytes_of_str ''b''
       @ [0, 0, 0, 4, 0, 0, 0, 1] @ bytes_of_str ''t'' @ [0, 0, 0, 5]
       @ bytes_of_str ''helloN'' @ [0, 2] @ bytes_of_str ''b'' @ [0, 0, 0, 4, 0, 0, 0, 1]
       @ bytes_of_str ''t'' @ [0, 0, 0, 5] @ bytes_of_str ''hello'') get_example_rel_map
     = Ok (\<lparr>ev_op = Update [Int4 1, Text ''hello''] [Int4 1, Text ''hello''], ev_rel = 1\<rparr>,
         get_example_rel_data)"

definition test_update_no_old_tuple :: bool where
  "test_update_no_old_tuple \<longleftrightarrow>
     update_parse x86_platform
      (bytes_of_str ''U'' @ [0, 0, 0, 1] @ bytes_of_str ''N'' @ [0, 1] @ bytes_of_str ''b''
       @ [0, 0, 0, 4, 0, 0, 0, 1]) get_example_rel_map_keys
     = Ok (\<lparr>ev_op = Update [] [Int4 1], ev_rel = 1\<rparr>, get_example_rel_data_keys)"

definition test_update_no_relation_id :: bool where
  "test_update_no_relation_id \<longleftrightarrow>
     update_parse x86_platform
      (bytes_of_str ''U'') get_example_rel_map
     = Err TruncatedInput"

definition test_update_wrong_relation_id :: bool where
  "test_update_wrong_relation_id \<longleftrightarrow>
     update_parse x86_platform
      (bytes_of_str ''U'' @ [0, 0, 0, 0, 0, 0, 0, 0]) get_example_rel_map
     = Err (UnknownRelation 0)"

definition test_update_no_tuples :: bool where
  "test_update_no_tuples \<longleftrightarrow>
     update_parse x86_platform
      (bytes_of_str ''U'' @ [0, 0, 0, 1]) get_example_rel_map
     = Err TruncatedInput"

definition test_update_no_new_tuple :: bool where
  "test_update_no_new_tuple \<longleftrightarrow>
     update_parse x86_platform
      (bytes_of_str ''U'' @ [0, 0, 0, 1] @ bytes_of_str ''K'' @ [0, 1] @ bytes_of_str ''b''
       @ [0, 0, 0, 4, 0, 0, 0, 1]) get_example_rel_map_keys
     = Err TruncatedInput"

lemma update_tests_pass:
  "test_update_simple_update_key"
  "test_update_simple_update_object"
  "test_update_no_old_tuple"
  "test_update_no_relation_id"
  "test_update_wrong_relation_id"
  "test_update_no_tuples"
  "test_update_no_new_tuple"
  by code_simp+

subsection \<open>The profiling binary (\<open>bin/relation_decode.rs\<close>)\<close>

definition RELATION_DATA :: "byte list" where
  "RELATION_DATA =
     bytes_of_str ''R'' @ [0, 0, 40, 1] @ bytes_of_str ''public'' @ [0]
     @ bytes_of_str ''orders'' @ [0, 2, 0, 10, 1] @ bytes_of_str ''order_id''
     @ [0, 0, 0, 0, 23, 255, 255, 255, 255, 1] @ bytes_of_str ''customer_id''
     @ [0, 0, 0, 0, 23, 255, 255, 255, 255, 0] @ bytes_of_str ''status''
     @ [0, 0, 0, 0, 25, 255, 255, 255, 255, 0] @ bytes_of_str ''total_cents''
     @ [0, 0, 0, 0, 23, 255, 255, 255, 255, 0] @ bytes_of_str ''currency''
     @ [0, 0, 0, 0, 25, 255, 255, 255, 255, 0] @ bytes_of_str ''shipping_address''
     @ [0, 0, 0, 0, 25, 255, 255, 255, 255, 0] @ bytes_of_str ''billing_address''
     @ [0, 0, 0, 0, 25, 255, 255, 255, 255, 0] @ bytes_of_str ''created_at''
     @ [0, 0, 0, 0, 25, 255, 255, 255, 255, 0] @ bytes_of_str ''updated_at''
     @ [0, 0, 0, 0, 25, 255, 255, 255, 255, 0] @ bytes_of_str ''metadata''
     @ [0, 0, 0, 0, 25, 255, 255, 255, 255]"

text \<open>
  The binary decodes the message once to validate it, \<open>expect("parse failed")\<close>, and then as often as
  it wants to measure, dropping the results.  The outcome of \<open>main\<close> without the clock:
\<close>

fun decode_repeatedly :: "platform \<Rightarrow> nat \<Rightarrow> (unit, unit) outcome" where
  "decode_repeatedly P 0 = Ok ()"
| "decode_repeatedly P (Suc n) =
     (case relation_parse P RELATION_DATA of Panic \<Rightarrow> Panic | _ \<Rightarrow> decode_repeatedly P n)"

definition relation_decode_main :: "platform \<Rightarrow> (unit, unit) outcome" where
  "relation_decode_main P =
     (case relation_parse P RELATION_DATA of
        Ok rel \<Rightarrow> decode_repeatedly P 10000000
      | _ \<Rightarrow> Panic)"

text \<open>
  Its message gives the replica identity as the number 2, where the protocol, the decoder and the
  benchmark of the same name use the letters: the binary stops at the \<open>expect\<close>.
\<close>

context utf8_platform begin

lemma relation_parse_bad_replica:
  assumes "name_ok P ns" and "name_ok P rel" and "replica_of_byte repl = Err e"
  shows "relation_parse P (b_R # to_be_bytes (oid :: u32) @ ns @ 0 # rel @ 0 # repl # c # c' # rest) = Err e"
proof -
  define hdr where "hdr = b_R # to_be_bytes oid"
  have hdr: "length hdr = 5" by (simp add: hdr_def)
  let ?d = "hdr @ ns @ 0 # rel @ 0 # repl # c # c' # rest"
  have oid: "read_be ?d 1 4 = Ok oid"
    by (rule read_be_at_32 [where pre = "[b_R]"]) (simp_all add: hdr_def)
  have s1: "extract_string P (drop 5 ?d) = Ok (str_of_bytes ns)"
    using assms(1) by (simp add: hdr extract_string_name)
  have s2: "extract_string P (drop (5 + length ns + 1) ?d) = Ok (str_of_bytes rel)"
    using assms(2) by (simp add: hdr extract_string_name)
  have repl: "(index ?d (5 + length ns + 1 + length rel + 1) :: byte dres) = Ok repl"
    by (simp add: nth_append hdr)
  have "relation_parse P ?d = Err e"
    unfolding relation_parse_def using oid s1 s2 repl assms(3)
    by (simp add: Let_def hdr)
  then show ?thesis by (simp add: hdr_def)
qed

end

lemma relation_data_shape:
  "\<exists>rest. RELATION_DATA =
     b_R # to_be_bytes (10241 :: u32) @ bytes_of_str ''public'' @ 0 # bytes_of_str ''orders'' @ 0 # 2 # 0 # 10 # rest"
proof -
  have oid: "to_be_bytes (10241 :: u32) = [0, 0, 40, 1]" by code_simp
  show ?thesis
    unfolding RELATION_DATA_def oid by (simp add: bytes_of_str_def byte_of_char_def)
qed

lemma relation_decode_main_panics: "relation_decode_main x86_platform = Panic"
proof -
  have ns: "name_ok x86_platform (bytes_of_str ''public'')" and rel: "name_ok x86_platform (bytes_of_str ''orders'')"
    by (simp_all add: name_ok_def) (simp_all add: bytes_of_str_def byte_of_char_def)
  have repl: "replica_of_byte 2 = Err (WrongReplicaId 2)"
    by (simp add: replica_of_byte_def)
  obtain rest where data: "RELATION_DATA =
      b_R # to_be_bytes (10241 :: u32) @ bytes_of_str ''public'' @ 0 # bytes_of_str ''orders'' @ 0 # 2 # 0 # 10 # rest"
    using relation_data_shape by blast
  have "relation_parse x86_platform RELATION_DATA = Err (WrongReplicaId 2)"
    unfolding data by (rule x86.relation_parse_bad_replica [OF ns rel repl])
  then show ?thesis by (simp add: relation_decode_main_def)
qed

end
