(* ===== verification/Connector_Tests.thy ===== *)
theory Connector_Tests imports Avro_Binary Statements Feldera_Connector begin

text \<open>
  The unit tests of \<open>cdc-avro\<close> (\<open>lib.rs\<close>, over the binary encoding of the Avro specification) and of
  the PostgreSQL connector's statements (\<open>statements.rs\<close>), and of the Feldera connector (\<open>main.rs\<close>, over
  any JSON writer and reader that agree), one definition per \<open>#[test]\<close> function; the
  model passes all of them.
\<close>

subsection \<open>Helpers of the Avro tests\<close>

definition roundtrip :: "avro_library \<Rightarrow> ChangeEvent \<Rightarrow> bool" where
  "roundtrip lib event =
     (case event_into_avro lib event of
        Inr bytes \<Rightarrow> event_from_avro lib bytes = Inr event
      | Inl _ \<Rightarrow> False)"

text \<open>\<open>bytes[3] = 124; bytes.pop()\<close>: the assignment panics on fewer than four bytes.\<close>

definition damaged :: "byte list \<Rightarrow> byte list option" where
  "damaged bytes = (if 3 < length bytes then Some (butlast (bytes[3 := 124])) else None)"

definition roundtrip_bugged :: "avro_library \<Rightarrow> ChangeEvent \<Rightarrow> bool" where
  "roundtrip_bugged lib event =
     (case event_into_avro lib event of
        Inr bytes \<Rightarrow> (case damaged bytes of Some b \<Rightarrow> isl (event_from_avro lib b) | None \<Rightarrow> False)
      | Inl _ \<Rightarrow> False)"

definition roundtrip_rel :: "avro_library \<Rightarrow> Relation \<Rightarrow> bool" where
  "roundtrip_rel lib relation =
     (case relation_into_avro lib relation of
        Inr bytes \<Rightarrow> relation_from_avro lib bytes = Inr relation
      | Inl _ \<Rightarrow> False)"

definition roundtrip_rel_bugged :: "avro_library \<Rightarrow> Relation \<Rightarrow> bool" where
  "roundtrip_rel_bugged lib relation =
     (case relation_into_avro lib relation of
        Inr bytes \<Rightarrow> (case damaged bytes of Some b \<Rightarrow> isl (relation_from_avro lib b) | None \<Rightarrow> False)
      | Inl _ \<Rightarrow> False)"

definition text_field :: "string \<Rightarrow> Field" where
  "text_field field = \<lparr>f_is_key = False, f_name = field, f_kind = FK_Text\<rparr>"

definition int4_field_key :: "string \<Rightarrow> Field" where
  "int4_field_key field = \<lparr>f_is_key = True, f_name = field, f_kind = FK_Int4\<rparr>"

subsection \<open>The Avro tests\<close>

definition test_roundtrip_event_insert :: bool where
  "test_roundtrip_event_insert \<longleftrightarrow>
     roundtrip avro_binary \<lparr>ev_op = Insert [Text ''b''], ev_rel = 1024\<rparr>"

definition test_roundtrip_event_insert_empty :: bool where
  "test_roundtrip_event_insert_empty \<longleftrightarrow>
     roundtrip avro_binary \<lparr>ev_op = Insert [], ev_rel = 1024\<rparr>"

definition test_roundtrip_event_insert_int8 :: bool where
  "test_roundtrip_event_insert_int8 \<longleftrightarrow>
     roundtrip avro_binary \<lparr>ev_op = Insert [Int8 0], ev_rel = 1024\<rparr>"

definition test_roundtrip_event_insert_bool :: bool where
  "test_roundtrip_event_insert_bool \<longleftrightarrow>
     roundtrip avro_binary \<lparr>ev_op = Insert [PgValue.Bool True], ev_rel = 1024\<rparr>"

definition test_roundtrip_event_insert_timestamp :: bool where
  "test_roundtrip_event_insert_timestamp \<longleftrightarrow>
     roundtrip avro_binary \<lparr>ev_op = Insert [Timestamp 999999], ev_rel = 1024\<rparr>"

definition test_roundtrip_event_update :: bool where
  "test_roundtrip_event_update \<longleftrightarrow>
     roundtrip avro_binary \<lparr>ev_op = Update [Int4 1] [Text ''hola''], ev_rel = 1024\<rparr>"

definition test_roundtrip_event_update_empty :: bool where
  "test_roundtrip_event_update_empty \<longleftrightarrow>
     roundtrip avro_binary \<lparr>ev_op = Update [] [Text ''hola''], ev_rel = 1024\<rparr>"

definition test_roundtrip_event_update_toasted :: bool where
  "test_roundtrip_event_update_toasted \<longleftrightarrow>
     roundtrip avro_binary \<lparr>ev_op = Update [Int4 1, Text ''old@x.com''] [Int4 1, Text ''Alice'', Toasted], ev_rel = 1024\<rparr>"

definition test_roundtrip_event_delete :: bool where
  "test_roundtrip_event_delete \<longleftrightarrow>
     roundtrip avro_binary \<lparr>ev_op = Delete [Int4 1, Text ''HOLA''], ev_rel = 1024\<rparr>"

definition test_roundtrip_event_delete_empty :: bool where
  "test_roundtrip_event_delete_empty \<longleftrightarrow>
     roundtrip avro_binary \<lparr>ev_op = Delete [], ev_rel = 1024\<rparr>"

definition test_roundtrip_event_bugged :: bool where
  "test_roundtrip_event_bugged \<longleftrightarrow>
     roundtrip_bugged avro_binary \<lparr>ev_op = Delete [Int4 1, Text ''HOLA''], ev_rel = 1024\<rparr>"

definition test_roundtrip_relation_simple :: bool where
  "test_roundtrip_relation_simple \<longleftrightarrow>
     roundtrip_rel avro_binary
      \<lparr>relation_oid = 1, r_name = ''Simple'', r_namespace = ''Public'',
       r_fields = [text_field ''Hola''], replica_id = Row\<rparr>"

definition test_roundtrip_relation_multiple :: bool where
  "test_roundtrip_relation_multiple \<longleftrightarrow>
     roundtrip_rel avro_binary
      \<lparr>relation_oid = 1, r_name = ''Simple'', r_namespace = ''Public'',
       r_fields = [int4_field_key ''id'', text_field ''Hola''], replica_id = Row\<rparr>"

definition test_roundtrip_relation_bugged :: bool where
  "test_roundtrip_relation_bugged \<longleftrightarrow>
     roundtrip_rel_bugged avro_binary
      \<lparr>relation_oid = 1, r_name = ''Simple'', r_namespace = ''Public'',
       r_fields = [text_field ''Hola''], replica_id = Row\<rparr>"

definition test_merge_toasted :: bool where
  "test_merge_toasted \<longleftrightarrow>
     merge_toasted (Update [Int4 0, Text ''hello''] [Int4 0, Toasted]) =
       (Ok (), Update [Int4 0, Text ''hello''] [Int4 0, Text ''hello''])"

text \<open>
  The first ten and the two round trips of relations are instances of the round trip on every event
  and every relation; the damaged data are read out.
\<close>

lemma roundtrip_holds: "roundtrip avro_binary event"
  using avro_spec.event_roundtrip [of event] by (auto simp: roundtrip_def)

lemma roundtrip_rel_holds: "roundtrip_rel avro_binary relation"
  using avro_spec.relation_roundtrip [of relation] by (auto simp: roundtrip_rel_def)

lemma avro_roundtrip_tests_pass:
  "test_roundtrip_event_insert" "test_roundtrip_event_insert_empty"
  "test_roundtrip_event_insert_int8" "test_roundtrip_event_insert_bool"
  "test_roundtrip_event_insert_timestamp" "test_roundtrip_event_update"
  "test_roundtrip_event_update_empty" "test_roundtrip_event_update_toasted"
  "test_roundtrip_event_delete" "test_roundtrip_event_delete_empty"
  "test_roundtrip_relation_simple" "test_roundtrip_relation_multiple"
  unfolding test_roundtrip_event_insert_def test_roundtrip_event_insert_empty_def
    test_roundtrip_event_insert_int8_def test_roundtrip_event_insert_bool_def
    test_roundtrip_event_insert_timestamp_def test_roundtrip_event_update_def
    test_roundtrip_event_update_empty_def test_roundtrip_event_update_toasted_def
    test_roundtrip_event_delete_def test_roundtrip_event_delete_empty_def
    test_roundtrip_relation_simple_def test_roundtrip_relation_multiple_def
  by (rule roundtrip_holds roundtrip_rel_holds)+

lemma test_merge_toasted_passes: "test_merge_toasted"
  by code_simp

lemma test_roundtrip_event_bugged_passes: "test_roundtrip_event_bugged"
  by code_simp

lemma test_roundtrip_relation_bugged_passes: "test_roundtrip_relation_bugged"
  by code_simp

subsection \<open>The statement tests\<close>

definition test_simple_upsert_str :: bool where
  "test_simple_upsert_str \<longleftrightarrow>
     upsert_gen_str ''users'' [''id'', ''name'', ''email''] [''id''] =
       ''INSERT INTO users (id,name,email) VALUES ($1,$2,$3) ON CONFLICT (id) DO UPDATE SET name = EXCLUDED.name,email = EXCLUDED.email''"

definition test_upsert_no_values :: bool where
  "test_upsert_no_values \<longleftrightarrow>
     upsert_gen_str ''users'' [''id''] [''id''] =
       ''INSERT INTO users (id) VALUES ($1) ON CONFLICT (id) DO NOTHING''"

definition test_simple_delete_str :: bool where
  "test_simple_delete_str \<longleftrightarrow>
     delete_gen_str ''users'' [''id''] = ''DELETE FROM users WHERE id = $1''"

definition test_multiple_delete_str :: bool where
  "test_multiple_delete_str \<longleftrightarrow>
     delete_gen_str ''users'' [''id'', ''name''] = ''DELETE FROM users WHERE id = $1 AND name = $2''"

lemma statement_tests_pass:
  "test_simple_upsert_str"
  "test_upsert_no_values"
  "test_simple_delete_str"
  "test_multiple_delete_str"
  by code_simp+

subsection \<open>The test of the Feldera connector\<close>

text \<open>The derived \<open>Serialize\<close> of an update: an object with one member, named by the attribute.\<close>

fun update_shape :: "FelderaEvent \<Rightarrow> string \<times> FelderaRow" where
  "update_shape (FelderaInsert r) = (''insert'', r)"
| "update_shape (FelderaDelete r) = (''delete'', r)"

definition trim_text :: "string \<Rightarrow> string" where
  "trim_text s =
     (let white = (\<lambda>c. c \<in> {CHR '' '', CHR 0x09, CHR 0x0A, CHR 0x0D})
      in rev (dropWhile white (rev (dropWhile white s))))"

text \<open>\<open>from_str\<close> is the reader of \<open>serde_json\<close> on such objects.\<close>

definition feldera_event_json_shape :: "(FelderaEvent \<Rightarrow> string + string) \<Rightarrow> (string \<Rightarrow> (string \<times> FelderaRow) option) \<Rightarrow> bool" where
  "feldera_event_json_shape write_json from_str \<longleftrightarrow>
     (let event = \<lparr>ev_op = Insert [Int4 1, Text ''Ada''], ev_rel = 16386\<rparr>
      in case convert_op_batches True (\<lambda>_. None) [16386 \<mapsto> [''id'', ''name'']] [event] [] of
           Ok updates \<Rightarrow>
             (case to_lines write_json updates [] of
                Inr lines \<Rightarrow>
                  from_str (trim_text lines) =
                    Some (''insert'', [''id'' \<mapsto> JNumber 1, ''name'' \<mapsto> JString ''Ada''])
              | Inl e \<Rightarrow> False)
         | _ \<Rightarrow> False)"

lemma feldera_event_json_shape_passes:
  assumes "\<And>u. \<exists>s. write_json u = Inr s \<and> from_str (trim_text (s @ [CHR 0x0A])) = Some (update_shape u)"
  shows "feldera_event_json_shape write_json from_str"
  using assms [of "FelderaInsert [''id'' \<mapsto> JNumber 1, ''name'' \<mapsto> JString ''Ada'']"]
  by (auto simp: feldera_event_json_shape_def convert_row_def)

end
