(* ===== verification/Spec2Isabelle.thy ===== *)
theory Spec2Isabelle imports Integration_Tests Decoder_Tests Connector_Tests begin

text \<open>
  A verification library for cdc-connector, a change-data-capture pipeline written in Rust: a producer
  reads the write-ahead log of a PostgreSQL database and publishes row changes to Kafka; connectors
  consume them and replay them on another PostgreSQL database or on Feldera.

  \<^bold>\<open>The parts and how they interact.\<close>  \<open>cdc-producer/src/main.rs\<close> sets the replica identities and the Kafka
  topics up, reads the last published LSN back from Kafka and starts the loop of
  \<open>cdc-wal-reader/src/lib.rs\<close>.  The loop receives Begin, XLogData and Commit messages, decodes the row
  messages (\<open>cdc-wal-reader/src/decoder\<close>) with the relation descriptions it has collected, and drives a
  \<open>Producer\<close>, which \<open>cdc-producer\<close> implements with Kafka transactions: events, relations and the LSN of a
  transaction are committed together.  Values and messages are the types of \<open>cdc-avro/src/lib.rs\<close>, in Avro.
  \<open>cdc-sink/src/lib.rs\<close> loads the relations, consumes the topics and calls a \<open>KafkaSink\<close>; the sinks are
  \<open>postgres-connector/src\<close> and \<open>feldera-connector/src\<close>.

  \<^bold>\<open>Theories, in the order of the imports.\<close>

  \<^item> \<open>Prelude\<close>: results that can also be a panic (\<open>outcome\<close>: \<open>Ok\<close>, \<open>Err\<close>, \<open>Panic\<close>), checked indexing and
    slicing of byte lists, big-endian integers, strings as lists of bytes, decimal numbers.
  \<^item> \<open>Avro_Types\<close> (\<open>cdc-avro/src/lib.rs\<close>): \<open>PgValue\<close>, \<open>Op\<close>, \<open>ChangeEvent\<close>, \<open>Field\<close>, \<open>Relation\<close>; merging of TOASTed
    values, JSON values.
  \<^item> \<open>Avro_Serde\<close> (same file): schemas, \<open>Serialize\<close> and \<open>Deserialize\<close>, \<open>into_avro\<close>, \<open>from_avro\<close>; the locale
    \<open>avro_codec\<close> is the contract of the Avro library.  \<open>Avro_Binary\<close> is an instance of it, the encoding of
    the Avro specification.
  \<^item> \<open>Null_Scan\<close> (\<open>decoder/relation.rs\<close>, \<open>find_null_word\<close>): the search for a string's terminator in its
    SSE2, overlapping-word and portable forms, against a linear search.
  \<^item> \<open>Decoder_Base\<close> (\<open>decoder/mod.rs\<close>): decoder errors, the platform (UTF-8 validation and the target) as the
    locale \<open>utf8_platform\<close>.
  \<^item> \<open>Relation_Decoder\<close> (\<open>decoder/relation.rs\<close>), \<open>Tuple_Decoder\<close> (\<open>decoder/tuple_data.rs\<close>), \<open>Message_Decoder\<close>
    (\<open>decoder/common.rs\<close>, \<open>insert.rs\<close>, \<open>update.rs\<close>, \<open>delete.rs\<close>): the decoders with every error and panic, the
    wire format as encoders, round trips and the inputs on which they panic; \<open>Decoder_Fixtures\<close> has the
    relations of the unit tests; \<open>Decoder_Safety\<close> what holds on arbitrary bytes.
  \<^item> \<open>Wal_Reader\<close> (\<open>cdc-wal-reader/src/lib.rs\<close>): the loop over an arbitrary producer, its reachable states,
    the order of its calls.  \<open>Wal_Transactions\<close>: the contract of the trait \<open>Producer\<close> as the locale \<open>producer\<close>
    (with \<open>aborting_producer\<close>, whose aborts succeed, and \<open>reliable_producer\<close>) and what the loop achieves
    over it.
  \<^item> \<open>Example_Stream\<close>: a stream of two transactions for the witnesses.
  \<^item> \<open>Kafka_Producer\<close> (\<open>cdc-producer/src/main.rs\<close>): the \<open>Producer\<close> over a transactional client (locales
    \<open>transactional_client\<close> and \<open>aborting_client\<close>, sublocales of those of the producer), \<open>read_lsn\<close>, the topics
    (locales \<open>topic_admin\<close> and \<open>reporting_admin\<close>).
  \<^item> \<open>Producer_Main\<close>: \<open>configure_replica_identity\<close>, \<open>main\<close>, stop and restart.
  \<^item> \<open>Sink\<close> (\<open>cdc-sink/src/lib.rs\<close>): loading of the relations, the consuming loop, the contract of the trait
    \<open>KafkaSink\<close> as the locale \<open>kafka_sink\<close>.
  \<^item> \<open>Statements\<close>, \<open>Pg_Connector\<close> (\<open>postgres-connector/src\<close>) and \<open>Feldera_Connector\<close>
    (\<open>feldera-connector/src/main.rs\<close>): the two sinks, both interpretations of \<open>kafka_sink\<close>.
  \<^item> \<open>Pipeline\<close>: all of it composed, from the bytes of the write-ahead log to the statements that the
    target database runs.  \<open>Topic_Order\<close>: the same when the consumer sees the topics interleaved in any
    way, and what is lost when an event overtakes the announcement of its table.
  \<^item> \<open>Table_Replica\<close>: the rows.  What the replayed statements make of a table, over any database that gives
    the two statements their documented meaning (the locale \<open>sql_table\<close>), against the source's table.
  \<^item> \<open>Connector_Main\<close>: the \<open>main\<close> functions of the two connectors, from the loaded configuration on.
  \<^item> \<open>Configuration\<close>: the sources and fields of the three configurations, over the crate \<open>config\<close> (locale
    \<open>config_library\<close>), the start of the metrics exporters, and with them the three \<open>main\<close> functions as a
    whole.
  \<^item> \<open>Decoder_Tests\<close> and \<open>Connector_Tests\<close>: the repository's unit tests as statements on the model, and
    the profiling binary \<open>bin/relation_decode.rs\<close>.
  \<^item> \<open>Test_Infra\<close> (\<open>cdc-integration-tests/src/lib.rs\<close>): the harness of the end-to-end tests over a host,
    the record of what Docker, processes, databases and clock do (locales \<open>host_clock\<close> and
    \<open>process_host\<close>).  \<open>Users_Pipeline\<close>: what the two programs make of the table of the tests, and of the
    environments they are started with.  \<open>Test_Host\<close>: a simulated host, which starts servers and a broker
    from the harness's containers and runs the two \<open>main\<close> functions from the commands it spawns; it
    interprets the two locales.  \<open>Host_Runs\<close>: what such a host does step by step.  \<open>Integration_Tests\<close>
    (\<open>cdc-integration-tests/tests/events.rs\<close>): the tests and their verdicts on that host; the locale
    \<open>test_texts\<close> says how their SQL texts are read.

  \<^bold>\<open>How state and operations correspond.\<close>  A struct is a record of the same fields, an enum a datatype of
  the same constructors; a Rust integer is a word of its width.  An asynchronous function is a function
  from the state before to its result and the state after; the code awaits each call before the next, so
  nothing interleaves.  The local variables of the WAL loop are the record \<open>wal\<close>, those of the consuming
  loop \<open>consuming\<close>.  A panic is \<open>Panic\<close> in the decoders and \<open>None\<close> in the loops; the actions of the
  tests tell a panic, after which destructors run, from not returning.  \<open>HashMap\<close>s are maps.  Strings
  are lists of characters that stand for bytes.

  \<^bold>\<open>What the lemmas show.\<close>  The decoders invert the wire format, return only well-formed relations and
  events that conform to them, and panic exactly on certain truncated or unusual messages.  The loop
  follows the transaction protocol; over any client that keeps its contract and whose aborts succeed a
  transaction is published whole or not at all (after a failed abort part of it can be published with the
  next one: \<open>failed_abort_publishes_part\<close>); without failures every transaction is published once and in order, also over a
  stop and a restart.  The loop of the consumer asks for the commit of what a sink applied and of nothing else; the PostgreSQL
  sink runs for each event the statement the event stands for, over any client, as long as no table was
  altered since its statements were prepared; the pipeline as a whole replays the source's changes, those
  of one table in their order however the topics are interleaved if the relations were loaded before, so
  that the target's table has the source's rows, also when the last changes are delivered twice.  On the
  simulated host the end-to-end tests for inserts, updates, deletes and the LSN pass exactly if the
  pipeline takes at most two seconds (for latencies up to three), the test for a rollback always; no test
  leaves a process behind, whatever the host answers.  Several
  theorems state where the code does not do what it means to: failed sends and failed events are lost,
  as are events that arrive before the announcement of their table,
  prepared statements outlive the table's description, updates of a key leave the old row, key values
  of deletes are filtered by the wrong positions, length checks are too weak, the environment variable
  that asks for whole old rows is never read.

  \<^bold>\<open>Bounds and termination.\<close>  No fuel is used: every loop is structural in its input (the bytes left, the
  columns left, the messages received) or has a measure, so all functions are total.  The exceptions are
  the polling loops of the tests, which end only because the clock moves on: they are
  \<open>partial_function (option)\<close>, and shown to return over every host with a clock.  A stream is the
  finite list of what has been received; theorems hold for every such list.  The unrolled row decoders
  are modelled for one to six columns with the fallback for more; theorems that use the wire format of
  rows assume fewer than 65536 columns, the limit of the two-byte count.

  \<^bold>\<open>Parameters.\<close>  Third-party code enters as records of functions or as locale assumptions that state its
  documentation: UTF-8 validation, the Avro library, the Kafka clients and the admin client, the
  replication client, \<open>tokio_postgres\<close>, the Feldera client, the range of \<open>chrono\<close>'s dates,
  the crate \<open>config\<close>, the listener of the metrics exporter, the host of the tests.  Instances on
  which witnesses run (a transactional log, a topic registry, a recording database, Avro's binary
  encoding) are defined next to the contracts.

  \<^bold>\<open>Not modelled.\<close>  The logger, log messages, the gauges and histograms that measure time, the HTTP
  server of the metrics, the arena allocator, the tasks that drive the PostgreSQL connections and the
  benchmarks.  Kafka's rebalancing, the background commits of its client library and several partitions
  per topic (the producer creates each topic with one) are outside the model.  Of the end-to-end tests,
  those that read the programs' output or metrics are modelled and shown to end, not shown to pass: what
  the programs print is not part of the model.
\<close>

end
